(* ===== verification/Prelude.thy ===== *)
theory Prelude
  imports Main "HOL-Library.Multiset" "HOL-Library.Sublist"
begin

text \<open>
  Shared material of the development. It holds:
  \<^item> results with an error value (\<open>'e + 'a\<close>, \<open>Inl\<close> the error) and their sequencing,
    the shape of every Go function that returns \<open>(T, error)\<close>;
  \<^item> \<open>check_all\<close>, the loop that stops at the first error, and its independence of the order in
    which a Go \<open>range\<close> over a map visits the entries;
  \<^item> Go maps that a function ranges over, as association lists with distinct keys: the order of
    the list is the order of that \<open>range\<close> statement, which Go leaves open;
  \<^item> the functions of Go's \<open>strconv\<close> and \<open>strings\<close> packages the sources call;
  \<^item> two contracts as locales: a mutation that is idempotent, and a transition system with an
    inductive invariant.
  A Go string or byte slice is a \<open>string\<close>: its characters are bytes.
\<close>

section \<open>Collections of facts\<close>

named_theorems go_simps \<open>defining equations of the translated Go functions\<close>
named_theorems go_inv \<open>invariants kept by single operations\<close>

section \<open>Results with an error\<close>

fun and_then :: "'e + 'a \<Rightarrow> ('a \<Rightarrow> 'e + 'b) \<Rightarrow> 'e + 'b" where
  "and_then (Inl e) f = Inl e"
| "and_then (Inr a) f = f a"

definition guard_err :: "bool \<Rightarrow> 'e \<Rightarrow> 'e + unit" where
  "guard_err bad e = (if bad then Inl e else Inr ())"

fun is_ok :: "'e + 'a \<Rightarrow> bool" where
  "is_ok (Inl e) = False"
| "is_ok (Inr a) = True"

text \<open>A loop whose body returns on the first error.\<close>

fun check_all :: "('a \<Rightarrow> 'e + unit) \<Rightarrow> 'a list \<Rightarrow> 'e + unit" where
  "check_all f [] = Inr ()"
| "check_all f (x # xs) = and_then (f x) (\<lambda>_. check_all f xs)"

section \<open>Stateful code that can fail\<close>

text \<open>A computation takes the state and returns a result with the new state; an error keeps the
  effects made before it, as in Go. \<open>tryS\<close> hands the error to the caller as a value, for code that
  inspects it.\<close>

type_synonym ('s, 'e, 'a) st = "'s \<Rightarrow> ('e + 'a) \<times> 's"

definition retS :: "'a \<Rightarrow> ('s, 'e, 'a) st" where
  "retS a = (\<lambda>s. (Inr a, s))"

definition throwS :: "'e \<Rightarrow> ('s, 'e, 'a) st" where
  "throwS e = (\<lambda>s. (Inl e, s))"

definition bindS :: "('s, 'e, 'a) st \<Rightarrow> ('a \<Rightarrow> ('s, 'e, 'b) st) \<Rightarrow> ('s, 'e, 'b) st" where
  "bindS m f = (\<lambda>s. case m s of (Inl e, s') \<Rightarrow> (Inl e, s') | (Inr a, s') \<Rightarrow> f a s')"

definition tryS :: "('s, 'e, 'a) st \<Rightarrow> ('s, 'f, 'e + 'a) st" where
  "tryS m = (\<lambda>s. (Inr (fst (m s)), snd (m s)))"

definition mapErrS :: "('e \<Rightarrow> 'f) \<Rightarrow> ('s, 'e, 'a) st \<Rightarrow> ('s, 'f, 'a) st" where
  "mapErrS g m = (\<lambda>s. (map_sum g id (fst (m s)), snd (m s)))"

fun forS :: "('a \<Rightarrow> ('s, 'e, unit) st) \<Rightarrow> 'a list \<Rightarrow> ('s, 'e, unit) st" where
  "forS f [] = retS ()"
| "forS f (x # xs) = bindS (f x) (\<lambda>_. forS f xs)"

fun foldS :: "('a \<Rightarrow> 'b \<Rightarrow> ('s, 'e, 'b) st) \<Rightarrow> 'a list \<Rightarrow> 'b \<Rightarrow> ('s, 'e, 'b) st" where
  "foldS f [] b = retS b"
| "foldS f (x # xs) b = bindS (f x b) (foldS f xs)"

text \<open>Every run of \<open>m\<close> relates its first and last state by \<open>R\<close>.\<close>

definition framed :: "('s \<Rightarrow> 's \<Rightarrow> bool) \<Rightarrow> ('s, 'e, 'a) st \<Rightarrow> bool" where
  "framed R m \<longleftrightarrow> (\<forall>s. R s (snd (m s)))"

section \<open>Maps as association lists\<close>

definition wf_map :: "('k \<times> 'v) list \<Rightarrow> bool" where
  "wf_map m \<longleftrightarrow> distinct (map fst m)"

definition map_vals :: "('v \<Rightarrow> 'w) \<Rightarrow> ('k \<times> 'v) list \<Rightarrow> ('k \<times> 'w) list" where
  "map_vals f m = map (\<lambda>(k, v). (k, f v)) m"

section \<open>The parts of strconv and strings that the sources use\<close>

definition is_digit :: "char \<Rightarrow> bool" where
  "is_digit c \<longleftrightarrow> 48 \<le> (of_char c :: nat) \<and> (of_char c :: nat) \<le> 57"

definition digit_val :: "char \<Rightarrow> nat" where
  "digit_val c = of_char c - 48"

definition dec_value :: "string \<Rightarrow> nat" where
  "dec_value s = foldl (\<lambda>n c. 10 * n + digit_val c) 0 s"

text \<open>\<open>strconv.Atoi\<close> on a 64-bit platform: an optional sign, then at least one decimal digit,
  and the value must fit; every other input is an error (\<open>None\<close>).\<close>

definition int_fits :: "int \<Rightarrow> bool" where
  "int_fits n \<longleftrightarrow> - (2 ^ 63) \<le> n \<and> n < 2 ^ 63"

definition Atoi :: "string \<Rightarrow> int option" where
  "Atoi s =
     (let neg = (case s of [] \<Rightarrow> False | c # _ \<Rightarrow> c = CHR ''-'');
          body = (case s of [] \<Rightarrow> [] | c # cs \<Rightarrow> if c = CHR ''-'' \<or> c = CHR ''+'' then cs else s);
          n = (if neg then - int (dec_value body) else int (dec_value body))
      in if body \<noteq> [] \<and> list_all is_digit body \<and> int_fits n then Some n else None)"

fun nat_digits :: "nat \<Rightarrow> string" where
  "nat_digits n = (if n < 10 then [char_of (48 + n)] else nat_digits (n div 10) @ [char_of (48 + n mod 10)])"

declare nat_digits.simps [simp del]

definition Itoa :: "int \<Rightarrow> string" where
  "Itoa n = (if n < 0 then CHR ''-'' # nat_digits (nat (- n)) else nat_digits (nat n))"

text \<open>\<open>strconv.ParseBool\<close>.\<close>

definition ParseBool :: "string \<Rightarrow> bool option" where
  "ParseBool s =
     (if s \<in> set [''1'', ''t'', ''T'', ''true'', ''TRUE'', ''True''] then Some True
      else if s \<in> set [''0'', ''f'', ''F'', ''false'', ''FALSE'', ''False''] then Some False
      else None)"

text \<open>\<open>strings.TrimSpace\<close>: the UTF-8 encodings of the code points that \<open>unicode.IsSpace\<close>
  accepts, removed at both ends.\<close>

definition space_runes :: "string list" where
  "space_runes =
     [[CHR 0x09], [CHR 0x0A], [CHR 0x0B], [CHR 0x0C], [CHR 0x0D], [CHR 0x20],
      [CHR 0xC2, CHR 0x85], [CHR 0xC2, CHR 0xA0], [CHR 0xE1, CHR 0x9A, CHR 0x80]] @
     map (\<lambda>n. [CHR 0xE2, CHR 0x80, char_of (n::nat)]) ([128..<139] @ [168, 169, 175]) @
     [[CHR 0xE2, CHR 0x81, CHR 0x9F], [CHR 0xE3, CHR 0x80, CHR 0x80]]"

definition leading_space :: "string list \<Rightarrow> string \<Rightarrow> string option" where
  "leading_space sp s = find (\<lambda>r. r \<noteq> [] \<and> prefix r s) sp"

function trim_left :: "string list \<Rightarrow> string \<Rightarrow> string" where
  "trim_left sp s =
     (case leading_space sp s of None \<Rightarrow> s | Some r \<Rightarrow> trim_left sp (drop (length r) s))"
  by pat_completeness auto
termination
proof (relation "measure (\<lambda>(sp, s). length s)")
  fix sp s r
  assume "leading_space sp s = Some r"
  then have "r \<noteq> [] \<and> prefix r s"
    by (auto simp: leading_space_def find_Some_iff)
  then have "0 < length r" and "0 < length s"
    using prefix_length_le [of r s] by auto
  then show "((sp, drop (length r) s), (sp, s)) \<in> measure (\<lambda>(sp, s). length s)"
    by simp
qed simp

declare trim_left.simps [simp del]

definition TrimSpace :: "string \<Rightarrow> string" where
  "TrimSpace s = rev (trim_left (map rev space_runes) (rev (trim_left space_runes s)))"

text \<open>\<open>strings.ToLower\<close> on ASCII; the other bytes are left alone. Every use matches the result
  against patterns over \<open>0-9\<close>, \<open>d\<close>, \<open>h\<close>, \<open>m\<close> and \<open>s\<close>, letters that only their own capitals map to.\<close>

definition lower_char :: "char \<Rightarrow> char" where
  "lower_char c = (let n = (of_char c :: nat) in if 65 \<le> n \<and> n \<le> 90 then char_of (n + 32) else c)"

definition ToLower :: "string \<Rightarrow> string" where
  "ToLower s = map lower_char s"

definition TrimSuffix :: "string \<Rightarrow> string \<Rightarrow> string" where
  "TrimSuffix s suf = (if suffix suf s then take (length s - length suf) s else s)"

text \<open>\<open>strings.Split\<close> at a one-byte separator: never empty.\<close>

fun split_at :: "char \<Rightarrow> string \<Rightarrow> string list" where
  "split_at c [] = [[]]"
| "split_at c (x # xs) =
     (if x = c then [] # split_at c xs
      else (case split_at c xs of [] \<Rightarrow> [[x]] | y # ys \<Rightarrow> (x # y) # ys))"

text \<open>The regular expression \<^verbatim>\<open>^[0-9]+(u1|u2|...)?$\<close>: decimal digits, then one of the given
  units or nothing.\<close>

definition digits_unit :: "string list \<Rightarrow> string \<Rightarrow> bool" where
  "digits_unit units s \<longleftrightarrow>
     takeWhile is_digit s \<noteq> [] \<and> dropWhile is_digit s \<in> set ([] # units)"

section \<open>Lemmas on results and loops\<close>

lemma and_then_ok [simp]:
  "and_then r f = Inr b \<longleftrightarrow> (\<exists>a. r = Inr a \<and> f a = Inr b)"
  by (cases r) auto

lemma and_then_unit_ok [simp]:
  "and_then r f = Inr b \<longleftrightarrow> r = Inr () \<and> f () = Inr b" for r :: "'e + unit"
  by (cases r) auto

lemma and_then_err:
  "and_then r f = Inl e \<longleftrightarrow> r = Inl e \<or> (\<exists>a. r = Inr a \<and> f a = Inl e)"
  by (cases r) auto

lemma guard_err_ok [simp]: "guard_err bad e = Inr u \<longleftrightarrow> \<not> bad"
  by (simp add: guard_err_def)

lemma guard_err_err [simp]: "guard_err bad e = Inl e' \<longleftrightarrow> bad \<and> e' = e"
  by (auto simp: guard_err_def)

lemma if_Inl_ok [simp]: "(if bad then Inl e else r) = Inr a \<longleftrightarrow> \<not> bad \<and> r = Inr a"
  by simp

lemma is_ok_unit [simp]: "is_ok r \<longleftrightarrow> r = Inr ()" for r :: "'e + unit"
  by (cases r) auto

lemma is_ok_iff: "is_ok r \<longleftrightarrow> (\<exists>a. r = Inr a)"
  by (cases r) auto

lemma check_all_ok [simp]: "check_all f xs = Inr () \<longleftrightarrow> (\<forall>x \<in> set xs. f x = Inr ())"
  by (induction xs) auto

lemma check_all_err: "check_all f xs = Inl e \<Longrightarrow> \<exists>x \<in> set xs. f x = Inl e"
  by (induction xs) (auto simp: and_then_err)

lemma check_all_order:
  assumes "mset xs = mset ys"
  shows "is_ok (check_all f xs) = is_ok (check_all f ys)"
proof -
  from assms have "set xs = set ys" by (rule mset_eq_setD)
  then show ?thesis by simp
qed

section \<open>Lemmas on stateful code\<close>

lemma retS_apply [simp]: "retS a s = (Inr a, s)"
  by (simp add: retS_def)

lemma throwS_apply [simp]: "throwS e s = (Inl e, s)"
  by (simp add: throwS_def)

lemma tryS_apply [simp]: "tryS m s = (Inr (fst (m s)), snd (m s))"
  by (simp add: tryS_def)

lemma mapErrS_apply [simp]: "mapErrS g m s = (map_sum g id (fst (m s)), snd (m s))"
  by (simp add: mapErrS_def)

text \<open>For evaluation: the program runs once.\<close>

lemma tryS_code [code]: "tryS m s = (case m s of (r, s') \<Rightarrow> (Inr r, s'))"
  by (simp add: case_prod_unfold)

lemma mapErrS_code [code]: "mapErrS g m s = (case m s of (r, s') \<Rightarrow> (map_sum g id r, s'))"
  by (simp add: case_prod_unfold)

lemma map_sum_id_iff [simp]:
  "map_sum f id r = Inr b \<longleftrightarrow> r = Inr b" "map_sum f id r = Inl e \<longleftrightarrow> (\<exists>e0. r = Inl e0 \<and> e = f e0)"
  by (cases r; auto)+

lemma mapErrS_iff:
  "mapErrS f m s = (Inr a, s') \<longleftrightarrow> m s = (Inr a, s')"
  "mapErrS f m s = (Inl e, s') \<longleftrightarrow> (\<exists>e0. m s = (Inl e0, s') \<and> e = f e0)"
  by (cases "m s"; auto)+

lemma bindS_ok: "m s = (Inr a, s') \<Longrightarrow> bindS m f s = f a s'"
  by (simp add: bindS_def)

lemma bindS_err: "m s = (Inl e, s') \<Longrightarrow> bindS m f s = (Inl e, s')"
  by (simp add: bindS_def)

lemma bindS_cases:
  "bindS m f s = (case fst (m s) of Inl e \<Rightarrow> (Inl e, snd (m s)) | Inr a \<Rightarrow> f a (snd (m s)))"
  by (cases "m s") (auto simp: bindS_def split: sum.splits)

lemma bindS_Inr_iff:
  "bindS m f s = (Inr b, s'') \<longleftrightarrow> (\<exists>a s'. m s = (Inr a, s') \<and> f a s' = (Inr b, s''))"
  by (cases "m s") (auto simp: bindS_def split: sum.splits)

lemma bindS_Inl_iff:
  "bindS m f s = (Inl e, s'') \<longleftrightarrow>
     m s = (Inl e, s'') \<or> (\<exists>a s'. m s = (Inr a, s') \<and> f a s' = (Inl e, s''))"
  by (cases "m s") (auto simp: bindS_def split: sum.splits)

lemma bindS_retS [simp]: "bindS (retS a) f = f a"
  by (simp add: bindS_def fun_eq_iff)

lemma bindS_throwS [simp]: "bindS (throwS e) f = throwS e"
  by (simp add: bindS_def fun_eq_iff)

lemma bindS_assoc: "bindS (bindS m f) g = bindS m (\<lambda>a. bindS (f a) g)"
  by (rule ext) (auto simp: bindS_cases split: sum.splits)

lemma bindS_retS_right [simp]: "bindS m retS = m"
  by (rule ext) (auto simp: bindS_cases prod_eq_iff split: sum.splits)

lemma foldS_Nil_fun [simp]: "foldS f [] = retS"
  by (rule ext) simp

lemma foldS_map: "foldS f (map h xs) = foldS (\<lambda>x. f (h x)) xs"
  by (induction xs) (auto intro!: ext)

lemma foldS_append: "foldS f (xs @ ys) b = bindS (foldS f xs b) (foldS f ys)"
  by (induction xs arbitrary: b) (auto simp: bindS_assoc intro: arg_cong [where f = "bindS _", OF ext])

lemma foldS_concat: "foldS (\<lambda>x. foldS g (h x)) xs b = foldS g (concat (map h xs)) b"
proof (induction xs arbitrary: b)
  case (Cons x xs)
  then have "foldS (\<lambda>x. foldS g (h x)) xs = foldS g (concat (map h xs))" by (rule ext)
  then show ?case by (simp add: foldS_append)
qed simp

text \<open>Loop invariants: \<open>I ys b s\<close> holds after the elements \<open>ys\<close> were processed.\<close>

lemma foldS_inv:
  assumes run: "foldS f xs b s = (Inr b', s')"
    and start: "I [] b s"
    and step: "\<And>ys x zs b s b1 s1. xs = ys @ x # zs \<Longrightarrow> I ys b s \<Longrightarrow> f x b s = (Inr b1, s1) \<Longrightarrow>
      I (ys @ [x]) b1 s1"
  shows "I xs b' s'"
proof -
  have "foldS f zs b s = (Inr b', s') \<Longrightarrow> xs = ys @ zs \<Longrightarrow> I ys b s \<Longrightarrow> I xs b' s'" for ys zs b s
  proof (induction zs arbitrary: ys b s)
    case (Cons z zs)
    from Cons.prems(1) obtain b1 s1 where z: "f z b s = (Inr b1, s1)"
      and rest: "foldS f zs b1 s1 = (Inr b', s')"
      by (auto simp: bindS_Inr_iff)
    from step [OF Cons.prems(2,3) z] have "I (ys @ [z]) b1 s1" .
    with Cons.IH [OF rest] Cons.prems(2) show ?case by simp
  qed simp
  from this [OF run, of "[]"] start show ?thesis by simp
qed

lemma framed_retS: "reflp R \<Longrightarrow> framed R (retS a)"
  by (simp add: framed_def reflpD)

lemma framed_throwS: "reflp R \<Longrightarrow> framed R (throwS e)"
  by (simp add: framed_def reflpD)

lemma framed_tryS: "framed R m \<Longrightarrow> framed R (tryS m)"
  by (simp add: framed_def)

lemma framed_mapErrS: "framed R m \<Longrightarrow> framed R (mapErrS g m)"
  by (simp add: framed_def)

lemma framed_bindS:
  assumes "transp R" "framed R m" "\<And>a. framed R (f a)"
  shows "framed R (bindS m f)"
  using assms unfolding framed_def
  by (auto simp: bindS_cases split: sum.splits dest: transpD)

lemma framed_forS:
  "reflp R \<Longrightarrow> transp R \<Longrightarrow> (\<And>x. framed R (f x)) \<Longrightarrow> framed R (forS f xs)"
  by (induction xs) (auto intro: framed_retS framed_bindS)

lemma framed_foldS:
  "reflp R \<Longrightarrow> transp R \<Longrightarrow> (\<And>x b. framed R (f x b)) \<Longrightarrow> framed R (foldS f xs b)"
  by (induction xs arbitrary: b) (auto intro: framed_retS framed_bindS)

lemmas framed_intros = framed_retS framed_throwS framed_tryS framed_mapErrS framed_bindS
  framed_forS framed_foldS

section \<open>Lemmas on association lists\<close>

lemma map_fst_map_vals [simp]: "map fst (map_vals f m) = map fst m"
  by (auto simp: map_vals_def)

lemma wf_map_vals [simp]: "wf_map (map_vals f m) = wf_map m"
  by (simp add: wf_map_def)

lemma map_of_map_vals [simp]: "map_of (map_vals f m) k = map_option f (map_of m k)"
  by (induction m) (auto simp: map_vals_def)

lemma map_vals_comp [simp]: "map_vals f (map_vals g m) = map_vals (f \<circ> g) m"
  by (auto simp: map_vals_def)

lemma set_map_vals: "set (map_vals f m) = (\<lambda>(k, v). (k, f v)) ` set m"
  by (simp add: map_vals_def)

lemma map_vals_Nil_iff [simp]: "map_vals f m = [] \<longleftrightarrow> m = []"
  by (simp add: map_vals_def)

lemma map_of_mset_eq: "wf_map xs \<Longrightarrow> mset xs = mset ys \<Longrightarrow> map_of xs = map_of ys"
proof -
  assume wf: "wf_map xs" and m: "mset xs = mset ys"
  from m have "mset (map fst xs) = mset (map fst ys)" by simp
  with wf have "distinct (map fst ys)"
    unfolding wf_map_def by (metis mset_eq_imp_distinct_iff)
  with wf m show ?thesis
    unfolding wf_map_def by (intro map_of_inject_set [THEN iffD2]) (auto dest: mset_eq_setD)
qed

section \<open>Lemmas on numbers as text\<close>

lemma is_digit_char_of: "d < 10 \<Longrightarrow> is_digit (char_of (48 + d))" for d :: nat
  by (simp add: is_digit_def)

lemma digit_val_char_of: "d < 10 \<Longrightarrow> digit_val (char_of (48 + d)) = d" for d :: nat
  by (simp add: digit_val_def)

lemma dec_value_snoc: "dec_value (s @ [c]) = 10 * dec_value s + digit_val c"
  by (simp add: dec_value_def)

lemma nat_digits_props:
  "nat_digits n \<noteq> [] \<and> list_all is_digit (nat_digits n) \<and> dec_value (nat_digits n) = n"
proof (induction n rule: nat_digits.induct)
  case (1 n)
  show ?case
  proof (cases "n < 10")
    case True
    then show ?thesis
      by (simp add: nat_digits.simps [of n] is_digit_char_of dec_value_def digit_val_char_of)
  next
    case False
    with 1 show ?thesis
      by (simp add: nat_digits.simps [of n] is_digit_char_of digit_val_char_of dec_value_snoc)
  qed
qed

lemma digit_not_sign: "is_digit c \<Longrightarrow> c \<noteq> CHR ''-'' \<and> c \<noteq> CHR ''+''"
  by (auto simp: is_digit_def)

lemma Atoi_Itoa: "int_fits n \<Longrightarrow> Atoi (Itoa n) = Some n"
proof -
  assume fits: "int_fits n"
  show ?thesis
  proof (cases "n < 0")
    case True
    then show ?thesis
      using fits nat_digits_props [of "nat (- n)"] by (simp add: Atoi_def Itoa_def)
  next
    case False
    obtain c cs where c: "nat_digits (nat n) = c # cs"
      using nat_digits_props [of "nat n"] by (cases "nat_digits (nat n)") auto
    then have "is_digit c" using nat_digits_props [of "nat n"] by simp
    with False fits c show ?thesis
      using nat_digits_props [of "nat n"] digit_not_sign [of c] by (simp add: Atoi_def Itoa_def)
  qed
qed

lemma Atoi_fits: "Atoi s = Some n \<Longrightarrow> int_fits n"
  by (auto simp: Atoi_def Let_def split: if_splits)

lemma takeWhile_digits_append:
  "list_all is_digit ds \<Longrightarrow> u = [] \<or> \<not> is_digit (hd u) \<Longrightarrow>
   takeWhile is_digit (ds @ u) = ds \<and> dropWhile is_digit (ds @ u) = u"
  by (cases u) (auto simp: list_all_iff takeWhile_append takeWhile_eq_all_conv dropWhile_append)

text \<open>\<open>digits_unit\<close> is that expression's language, for units that start with a letter.\<close>

lemma digits_unit_iff:
  assumes "\<And>u. u \<in> set units \<Longrightarrow> u \<noteq> [] \<and> \<not> is_digit (hd u)"
  shows "digits_unit units s \<longleftrightarrow>
    (\<exists>ds u. s = ds @ u \<and> ds \<noteq> [] \<and> list_all is_digit ds \<and> (u = [] \<or> u \<in> set units))"
    (is "_ \<longleftrightarrow> ?lang")
proof
  assume "digits_unit units s"
  then show ?lang
    unfolding digits_unit_def
    by (intro exI [of _ "takeWhile is_digit s"] exI [of _ "dropWhile is_digit s"])
       (auto simp: list_all_iff dest: set_takeWhileD)
next
  assume ?lang
  then obtain ds u where s: "s = ds @ u" and ds: "ds \<noteq> []" "list_all is_digit ds"
    and u: "u = [] \<or> u \<in> set units" by blast
  from u assms have "u = [] \<or> \<not> is_digit (hd u)" by blast
  from takeWhile_digits_append [OF ds(2) this] s ds(1) u show "digits_unit units s"
    by (auto simp: digits_unit_def)
qed

section \<open>Lemmas on trimming\<close>

definition plain_char :: "char \<Rightarrow> bool" where
  "plain_char c \<longleftrightarrow> 48 \<le> (of_char c :: nat) \<and> (of_char c :: nat) < 128 \<and> lower_char c = c"

lemma space_runes_ends:
  "list_all (\<lambda>r. \<not> plain_char (hd r) \<and> \<not> plain_char (last r)) space_runes"
  by (simp add: space_runes_def plain_char_def upt_rec)

lemma leading_space_plain:
  assumes "list_all (\<lambda>r. \<not> plain_char (hd r)) sp" and "s = [] \<or> plain_char (hd s)"
  shows "leading_space sp s = None"
  using assms unfolding leading_space_def find_None_iff
  by (auto simp: list_all_iff prefix_def)

lemma trim_left_plain:
  "list_all (\<lambda>r. \<not> plain_char (hd r)) sp \<Longrightarrow> s = [] \<or> plain_char (hd s) \<Longrightarrow> trim_left sp s = s"
  by (subst trim_left.simps) (simp add: leading_space_plain)

lemma TrimSpace_plain:
  assumes "list_all plain_char s"
  shows "TrimSpace s = s"
proof -
  have ends: "list_all (\<lambda>r. \<not> plain_char (hd r)) space_runes"
    "list_all (\<lambda>r. \<not> plain_char (hd r)) (map rev space_runes)"
    using space_runes_ends by (auto simp: list_all_iff hd_rev)
  from assms have "s = [] \<or> plain_char (hd s)"
    by (cases s) auto
  moreover from assms have "rev s = [] \<or> plain_char (hd (rev s))"
    by (cases s rule: rev_cases) auto
  ultimately show ?thesis using ends by (simp add: TrimSpace_def trim_left_plain)
qed

lemma ToLower_plain: "list_all plain_char s \<Longrightarrow> ToLower s = s"
  by (induction s) (auto simp: ToLower_def plain_char_def)

lemma plain_char_digit: "is_digit c \<Longrightarrow> plain_char c"
  by (auto simp: is_digit_def plain_char_def lower_char_def Let_def)

section \<open>Contracts shared by several components\<close>

text \<open>A mutation that an API server or an operator may apply again to its own result: applying
  it once more changes nothing, so any number of further rounds leaves the object alone.\<close>

locale idempotent_mutation =
  fixes mutate :: "'a \<Rightarrow> 'a"
  assumes idem: "mutate (mutate x) = mutate x"
begin

lemma funpow_Suc_mutate: "(mutate ^^ Suc n) x = mutate x"
  by (induction n) (simp_all add: idem)

lemma rounds: "0 < n \<Longrightarrow> (mutate ^^ n) x = mutate x"
  using funpow_Suc_mutate by (cases n) auto

lemma fixed_point_iff: "mutate x = x \<longleftrightarrow> (\<exists>y. x = mutate y)"
  by (metis idem)

end

text \<open>A transition system and a property that its initial states have and every step keeps.\<close>

locale invariant_system =
  fixes init :: "'s \<Rightarrow> bool"
    and step :: "'s \<Rightarrow> 's \<Rightarrow> bool"
    and inv :: "'s \<Rightarrow> bool"
  assumes inv_init: "init s \<Longrightarrow> inv s"
    and inv_step: "inv s \<Longrightarrow> step s t \<Longrightarrow> inv t"
begin

lemma inv_steps: "step\<^sup>*\<^sup>* s t \<Longrightarrow> inv s \<Longrightarrow> inv t"
  by (induction rule: rtranclp_induct) (auto intro: inv_step)

lemma reachable_inv: "init s \<Longrightarrow> step\<^sup>*\<^sup>* s t \<Longrightarrow> inv t"
  by (blast intro: inv_init inv_steps)

end

end
