(* ===== verification/Files.thy ===== *)
theory Files
  imports Prelude
begin

text \<open>
  The wrapper's file system and the functions that replace a file: \<open>AtomicWrite\<close> (\<open>validator.go\<close>),
  \<open>EnsurePKCS8Key\<close> (\<open>tlskey.go\<close>) and \<open>atomicInstall\<close> (\<open>binarysync.go\<close>) of \<open>internal/wrapper\<close>.

  The operating system is a parameter \<open>disk\<close>: it decides for every system call, numbered in order, whether it
  fails and, for a failing write, how many bytes reached the file (missing directories and full disks are
  such failures). The state keeps the files and the list of all file-system states passed through, so that
  a crash between two system calls, or a concurrent reader, is one of the visited states. Later theories
  extend the state record, and the operations here leave the extension alone.

  The locale \<open>atomic_install\<close> is the contract of an atomic replacement, and the three functions are its
  interpretations.
\<close>

section \<open>Files and system calls\<close>

record disk_file =
  fi_data :: string
  fi_mode :: nat

type_synonym fs = "string \<rightharpoonup> disk_file"

record sys =
  sy_fs :: fs
  sy_hist :: "fs list"
  sy_n :: nat

datatype io_error = NotExist | IOError string

record disk =
  dk_error :: "nat \<Rightarrow> string option"
  dk_torn :: "nat \<Rightarrow> nat"
  dk_temp :: "nat \<Rightarrow> string"

type_synonym ('z, 'a) io = "('z sys_scheme, io_error, 'a) st"

definition set_fs :: "fs \<Rightarrow> 'z sys_scheme \<Rightarrow> 'z sys_scheme" where
  "set_fs f s = s\<lparr>sy_fs := f, sy_hist := sy_hist s @ [f]\<rparr>"

text \<open>A system call takes a number; if it does not fail, \<open>act\<close> is what it does.\<close>

definition syscall :: "disk \<Rightarrow> ('z, 'a) io \<Rightarrow> ('z, 'a) io" where
  "syscall D act s =
     (let s1 = s\<lparr>sy_n := Suc (sy_n s)\<rparr>
      in case dk_error D (sy_n s) of Some e \<Rightarrow> (Inl (IOError e), s1) | None \<Rightarrow> act s1)"

definition ReadFile :: "disk \<Rightarrow> string \<Rightarrow> ('z, string) io" where
  "ReadFile D p = syscall D (\<lambda>s.
     (case sy_fs s p of None \<Rightarrow> Inl NotExist | Some f \<Rightarrow> Inr (fi_data f), s))"

text \<open>\<open>O_CREATE|O_TRUNC\<close>: an existing file keeps its mode.\<close>

definition OpenTrunc :: "disk \<Rightarrow> string \<Rightarrow> nat \<Rightarrow> ('z, unit) io" where
  "OpenTrunc D p mode = syscall D (\<lambda>s.
     (Inr (), set_fs ((sy_fs s)(p \<mapsto> \<lparr>fi_data = [],
        fi_mode = (case sy_fs s p of None \<Rightarrow> mode | Some f \<Rightarrow> fi_mode f)\<rparr>)) s))"

definition append_data :: "string \<Rightarrow> string \<Rightarrow> 'z sys_scheme \<Rightarrow> 'z sys_scheme" where
  "append_data p bs s =
     (case sy_fs s p of None \<Rightarrow> s
      | Some f \<Rightarrow> set_fs ((sy_fs s)(p \<mapsto> f\<lparr>fi_data := fi_data f @ bs\<rparr>)) s)"

definition Write :: "disk \<Rightarrow> string \<Rightarrow> string \<Rightarrow> ('z, unit) io" where
  "Write D p bs s =
     (let s1 = s\<lparr>sy_n := Suc (sy_n s)\<rparr>
      in case dk_error D (sy_n s) of
           Some e \<Rightarrow> (Inl (IOError e), append_data p (take (dk_torn D (sy_n s)) bs) s1)
         | None \<Rightarrow> (Inr (), append_data p bs s1))"

definition Sync :: "disk \<Rightarrow> ('z, unit) io" where
  "Sync D = syscall D (retS ())"

definition Close :: "disk \<Rightarrow> ('z, unit) io" where
  "Close D = syscall D (retS ())"

definition Remove :: "disk \<Rightarrow> string \<Rightarrow> ('z, unit) io" where
  "Remove D p = syscall D (\<lambda>s.
     case sy_fs s p of None \<Rightarrow> (Inl NotExist, s) | Some _ \<Rightarrow> (Inr (), set_fs ((sy_fs s)(p := None)) s))"

definition Rename :: "disk \<Rightarrow> string \<Rightarrow> string \<Rightarrow> ('z, unit) io" where
  "Rename D p q = syscall D (\<lambda>s.
     case sy_fs s p of None \<Rightarrow> (Inl NotExist, s)
     | Some f \<Rightarrow> (Inr (), set_fs ((sy_fs s)(p := None, q \<mapsto> f)) s))"

definition Chmod :: "disk \<Rightarrow> string \<Rightarrow> nat \<Rightarrow> ('z, unit) io" where
  "Chmod D p mode = syscall D (\<lambda>s.
     case sy_fs s p of None \<Rightarrow> (Inl NotExist, s)
     | Some f \<Rightarrow> (Inr (), set_fs ((sy_fs s)(p \<mapsto> f\<lparr>fi_mode := mode\<rparr>)) s))"

definition MkdirAll :: "disk \<Rightarrow> string \<Rightarrow> ('z, unit) io" where
  "MkdirAll D p = syscall D (retS ())"

text \<open>\<open>os.CreateTemp\<close>: a new empty file under a name the operating system chose, private to the owner.\<close>

definition CreateTemp :: "disk \<Rightarrow> string \<Rightarrow> string \<Rightarrow> ('z, string) io" where
  "CreateTemp D dir pre = syscall D (\<lambda>s.
     let p = dir @ ''/'' @ pre @ dk_temp D (sy_n s) in
     case sy_fs s p of Some _ \<Rightarrow> (Inl (IOError ''file exists''), s)
     | None \<Rightarrow> (Inr p, set_fs ((sy_fs s)(p \<mapsto> \<lparr>fi_data = [], fi_mode = 384\<rparr>)) s))"

definition WriteFile :: "disk \<Rightarrow> string \<Rightarrow> string \<Rightarrow> nat \<Rightarrow> ('z, unit) io" where
  "WriteFile D p bs mode =
     bindS (OpenTrunc D p mode) (\<lambda>_.
     bindS (tryS (Write D p bs)) (\<lambda>w.
     bindS (tryS (Close D)) (\<lambda>c.
       case w of Inl e \<Rightarrow> throwS e | Inr _ \<Rightarrow> (case c of Inl e \<Rightarrow> throwS e | Inr _ \<Rightarrow> retS ()))))"

lemmas io_defs =
  ReadFile_def OpenTrunc_def Sync_def Close_def Remove_def Rename_def Chmod_def MkdirAll_def CreateTemp_def

text \<open>Run \<open>c\<close>, ignoring its errors, when \<open>m\<close> failed; the error of \<open>m\<close> stays.\<close>

definition on_error :: "('s, 'e, 'a) st \<Rightarrow> ('s, 'e, 'b) st \<Rightarrow> ('s, 'e, 'a) st" where
  "on_error m c =
     bindS (tryS m) (\<lambda>r. case r of Inl e \<Rightarrow> bindS (tryS c) (\<lambda>_. throwS e) | Inr a \<Rightarrow> retS a)"

text \<open>A deferred call: run \<open>c\<close> after \<open>m\<close>, whatever the result.\<close>

definition deferring :: "('s, 'e, 'a) st \<Rightarrow> ('s, 'f, 'b) st \<Rightarrow> ('s, 'e, 'a) st" where
  "deferring m c =
     bindS (tryS m) (\<lambda>r. bindS (tryS c) (\<lambda>_. case r of Inl e \<Rightarrow> throwS e | Inr a \<Rightarrow> retS a))"

section \<open>AtomicWrite\<close>

definition tmp_path :: "string \<Rightarrow> string" where
  "tmp_path path = path @ ''.tmp''"

definition AtomicWrite :: "disk \<Rightarrow> string \<Rightarrow> string \<Rightarrow> ('z, unit) io" where
  "AtomicWrite D path data =
     (let tmp = tmp_path path in
      bindS (OpenTrunc D tmp 384) (\<lambda>_.
      bindS (on_error (Write D tmp data) (bindS (tryS (Close D)) (\<lambda>_. Remove D tmp))) (\<lambda>_.
      bindS (on_error (Sync D) (bindS (tryS (Close D)) (\<lambda>_. Remove D tmp))) (\<lambda>_.
      bindS (on_error (Close D) (Remove D tmp)) (\<lambda>_.
        Rename D tmp path)))))"

section \<open>EnsurePKCS8Key\<close>

text \<open>Keys are abstract: parsing PEM and the three private key formats, and encoding PKCS8, are Go's
  crypto packages, used as given.\<close>

record 'k key_codec =
  kc_Decode :: "string \<Rightarrow> (string \<times> string) option"
  kc_ParsePKCS8 :: "string \<Rightarrow> string + 'k"
  kc_ParseEC :: "string \<Rightarrow> string + 'k"
  kc_ParsePKCS1 :: "string \<Rightarrow> string + 'k"
  kc_MarshalPKCS8 :: "'k \<Rightarrow> string + string"
  kc_Encode :: "string \<Rightarrow> string \<Rightarrow> string"

datatype key_error =
    KeyRead io_error
  | KeyNoPEM string
  | KeyUnsupported string
  | KeyParse string string
  | KeyConvert string
  | KeyWrite io_error

definition parse_key :: "'k key_codec \<Rightarrow> string \<Rightarrow> string \<Rightarrow> key_error + 'k" where
  "parse_key K type bytes =
     (if type = ''PRIVATE KEY'' then map_sum (KeyParse type) id (kc_ParsePKCS8 K bytes)
      else if type = ''EC PRIVATE KEY'' then map_sum (KeyParse type) id (kc_ParseEC K bytes)
      else if type = ''RSA PRIVATE KEY'' then map_sum (KeyParse type) id (kc_ParsePKCS1 K bytes)
      else Inl (KeyUnsupported type))"

definition convert_key :: "'k key_codec \<Rightarrow> string \<Rightarrow> string \<Rightarrow> key_error + string" where
  "convert_key K srcPath data =
     (case kc_Decode K data of
        None \<Rightarrow> Inl (KeyNoPEM srcPath)
      | Some (type, bytes) \<Rightarrow>
          and_then (parse_key K type bytes) (\<lambda>key.
          and_then (map_sum KeyConvert id (kc_MarshalPKCS8 K key)) (\<lambda>der.
            Inr (kc_Encode K ''PRIVATE KEY'' der))))"

definition EnsurePKCS8Key ::
  "disk \<Rightarrow> 'k key_codec \<Rightarrow> string \<Rightarrow> string \<Rightarrow> ('z sys_scheme, key_error, unit) st" where
  "EnsurePKCS8Key D K srcPath dstPath =
     bindS (mapErrS KeyRead (ReadFile D srcPath)) (\<lambda>data.
       case convert_key K srcPath data of
         Inl e \<Rightarrow> throwS e
       | Inr out \<Rightarrow>
           (let tmp = tmp_path dstPath in
            bindS (mapErrS KeyWrite (WriteFile D tmp out 384)) (\<lambda>_.
              mapErrS KeyWrite (Rename D tmp dstPath))))"

section \<open>atomicInstall\<close>

definition dir_of :: "string \<Rightarrow> string" where
  "dir_of path = rev (drop 1 (dropWhile (\<lambda>c. c \<noteq> CHR ''/'') (rev path)))"

definition atomicInstall :: "disk \<Rightarrow> string \<Rightarrow> string \<Rightarrow> ('z, unit) io" where
  "atomicInstall D destPath src =
     bindS (MkdirAll D (dir_of destPath)) (\<lambda>_.
     bindS (CreateTemp D (dir_of destPath) ''.pg_doorman-'') (\<lambda>tmp.
       deferring
         (bindS (Write D tmp src) (\<lambda>_.
          bindS (Chmod D tmp 493) (\<lambda>_.
          bindS (Sync D) (\<lambda>_.
          bindS (Close D) (\<lambda>_.
            Rename D tmp destPath)))))
         (bindS (tryS (Close D)) (\<lambda>_. Remove D tmp))))"

section \<open>Operations that leave a path alone\<close>

definition keeps :: "string \<Rightarrow> 'z sys_scheme \<Rightarrow> 'z sys_scheme \<Rightarrow> bool" where
  "keeps p s s' \<longleftrightarrow>
     (\<exists>hs. sy_hist s' = sy_hist s @ hs \<and> (\<forall>h \<in> set hs. h p = sy_fs s p)) \<and> sy_fs s' p = sy_fs s p"

lemma keeps_refl: "reflp (keeps p)"
  by (auto simp: reflp_def keeps_def)

lemma keeps_trans: "transp (keeps p)"
proof (rule transpI)
  fix a b c :: "'z sys_scheme" assume "keeps p a b" "keeps p b c"
  then obtain xs ys where "sy_hist b = sy_hist a @ xs" "\<forall>h \<in> set xs. h p = sy_fs a p" "sy_fs b p = sy_fs a p"
    "sy_hist c = sy_hist b @ ys" "\<forall>h \<in> set ys. h p = sy_fs b p" "sy_fs c p = sy_fs b p"
    by (auto simp: keeps_def)
  then show "keeps p a c" unfolding keeps_def by (auto intro!: exI [of _ "xs @ ys"])
qed

lemmas keeps_combinators =
  framed_retS [OF keeps_refl] framed_throwS [OF keeps_refl] framed_tryS framed_mapErrS
  framed_bindS [OF keeps_trans]

lemma keeps_set_fs: "f p = sy_fs s p \<Longrightarrow> keeps p s (set_fs f s)"
  by (simp add: keeps_def set_fs_def)

lemma keeps_tick: "keeps p s (s\<lparr>sy_n := m\<rparr>)"
  by (simp add: keeps_def)

lemma keeps_append: "p \<noteq> q \<Longrightarrow> keeps p s (append_data q bs s)"
  by (auto simp: append_data_def keeps_set_fs split: option.split intro: reflpD [OF keeps_refl])

lemma framed_syscall:
  assumes "framed (keeps p) act"
  shows "framed (keeps p) (syscall D act)"
proof -
  have "keeps p s (snd (act (s\<lparr>sy_n := m\<rparr>)))" for s m
    using transpD [OF keeps_trans keeps_tick] assms unfolding framed_def by blast
  then show ?thesis
    unfolding framed_def syscall_def Let_def by (auto simp: keeps_tick split: option.split)
qed

lemma framed_io:
  "framed (keeps p) (ReadFile D q)"
  "p \<noteq> q \<Longrightarrow> framed (keeps p) (OpenTrunc D q mode)"
  "p \<noteq> q \<Longrightarrow> framed (keeps p) (Write D q bs)"
  "framed (keeps p) (Sync D)" "framed (keeps p) (Close D)" "framed (keeps p) (MkdirAll D q)"
  "p \<noteq> q \<Longrightarrow> framed (keeps p) (Remove D q)"
  "p \<noteq> q \<Longrightarrow> framed (keeps p) (Chmod D q mode)"
  "p \<noteq> q \<Longrightarrow> p \<noteq> q' \<Longrightarrow> framed (keeps p) (Rename D q q')"
  "(\<And>x. p \<noteq> dir @ ''/'' @ pre @ x) \<Longrightarrow> framed (keeps p) (CreateTemp D dir pre)"
  by (auto simp: io_defs Write_def Let_def
      intro!: framed_syscall [unfolded framed_def] framed_retS [OF keeps_refl] keeps_set_fs
        reflpD [OF keeps_refl] transpD [OF keeps_trans keeps_tick keeps_append]
      simp: framed_def split: option.split)

lemma framed_on_error: "framed (keeps p) m \<Longrightarrow> framed (keeps p) c \<Longrightarrow> framed (keeps p) (on_error m c)"
  unfolding on_error_def by (intro keeps_combinators) (auto split: sum.split intro!: keeps_combinators)

lemma framed_deferring: "framed (keeps p) m \<Longrightarrow> framed (keeps p) c \<Longrightarrow> framed (keeps p) (deferring m c)"
  unfolding deferring_def by (intro keeps_combinators) (auto split: sum.split intro!: keeps_combinators)

lemmas keeps_intros = keeps_combinators framed_io framed_on_error framed_deferring

lemma framed_WriteFile: "p \<noteq> q \<Longrightarrow> framed (keeps p) (WriteFile D q bs mode)"
  unfolding WriteFile_def by (intro keeps_intros) (auto split: sum.split intro!: keeps_intros)

section \<open>The contract of an atomic replacement\<close>

text \<open>Every state passed through has the old file or a complete new one at the path; a successful run ends
  with a complete new one, a failed run with the old one.\<close>

definition replaces ::
  "string \<Rightarrow> (disk_file \<Rightarrow> bool) \<Rightarrow> 'e + 'a \<Rightarrow> 'z sys_scheme \<Rightarrow> 'z sys_scheme \<Rightarrow> bool" where
  "replaces path complete r s s' \<longleftrightarrow>
     (\<exists>hs. sy_hist s' = sy_hist s @ hs \<and>
        (\<forall>h \<in> set hs. h path = sy_fs s path \<or> (\<exists>f. h path = Some f \<and> complete f))) \<and>
     (case r of Inl _ \<Rightarrow> sy_fs s' path = sy_fs s path
      | Inr _ \<Rightarrow> \<exists>f. sy_fs s' path = Some f \<and> complete f)"

locale atomic_install =
  fixes install :: "'d \<Rightarrow> ('z sys_scheme, 'e, unit) st"
    and path :: string
    and complete :: "'d \<Rightarrow> disk_file \<Rightarrow> bool"
  assumes atomic: "install d s = (r, s') \<Longrightarrow> replaces path (complete d) r s s'"
begin

text \<open>A reader of the path, or a restart after a crash, sees the original file or a complete version of one
  of the data that were installed, through any sequence of installs in which some may fail.\<close>

lemma reader_sees_whole:
  "\<exists>hs. sy_hist (fold (\<lambda>d s. snd (install d s)) ds s) = sy_hist s @ hs \<and>
     (\<forall>h \<in> set (sy_fs (fold (\<lambda>d s. snd (install d s)) ds s) # hs).
        h path = sy_fs s path \<or> (\<exists>d \<in> set ds. \<exists>f. h path = Some f \<and> complete d f))"
proof (induction ds arbitrary: s)
  case (Cons d ds)
  obtain r s1 where run: "install d s = (r, s1)" by (rule prod.exhaust)
  from atomic [OF this] obtain xs where xs: "sy_hist s1 = sy_hist s @ xs"
    "\<forall>h \<in> set xs. h path = sy_fs s path \<or> (\<exists>f. h path = Some f \<and> complete d f)"
    "sy_fs s1 path = sy_fs s path \<or> (\<exists>f. sy_fs s1 path = Some f \<and> complete d f)"
    by (auto simp: replaces_def split: sum.splits)
  have next_state: "fold (\<lambda>d s. snd (install d s)) (d # ds) s = fold (\<lambda>d s. snd (install d s)) ds s1"
    using run by simp
  from Cons.IH [of s1] obtain ys where ys:
    "sy_hist (fold (\<lambda>d s. snd (install d s)) ds s1) = sy_hist s1 @ ys"
    "\<forall>h \<in> set (sy_fs (fold (\<lambda>d s. snd (install d s)) ds s1) # ys).
        h path = sy_fs s1 path \<or> (\<exists>d \<in> set ds. \<exists>f. h path = Some f \<and> complete d f)" by blast
  have "h path = sy_fs s path \<or> (\<exists>d' \<in> set (d # ds). \<exists>f. h path = Some f \<and> complete d' f)"
    if "h \<in> set (sy_fs (fold (\<lambda>d s. snd (install d s)) ds s1) # xs @ ys)" for h
    using that xs(2,3) ys(2) by (auto dest!: bspec)
  with xs(1) ys(1) show ?case
    unfolding next_state by (intro exI [of _ "xs @ ys"]) auto
qed simp

end

lemma on_error_Inr: "on_error m c s = (Inr a, s') \<longleftrightarrow> m s = (Inr a, s')"
  by (cases "m s") (auto simp: on_error_def bindS_def split: sum.splits prod.splits)

lemma io_ok:
  "OpenTrunc D p mode s = (Inr u, s') \<Longrightarrow>
     sy_fs s' p = Some \<lparr>fi_data = [], fi_mode = (case sy_fs s p of None \<Rightarrow> mode | Some f \<Rightarrow> fi_mode f)\<rparr>"
  "Write D p bs s = (Inr u, s') \<Longrightarrow> sy_fs s p = Some f \<Longrightarrow> sy_fs s' p = Some (f\<lparr>fi_data := fi_data f @ bs\<rparr>)"
  "Sync D s = (Inr u, s') \<Longrightarrow> sy_fs s' = sy_fs s"
  "Close D s = (Inr u, s') \<Longrightarrow> sy_fs s' = sy_fs s"
  "Chmod D p mode s = (Inr u, s') \<Longrightarrow> sy_fs s p = Some f \<Longrightarrow> sy_fs s' p = Some (f\<lparr>fi_mode := mode\<rparr>)"
  "CreateTemp D dir pre s = (Inr p, s') \<Longrightarrow>
     sy_fs s' p = Some \<lparr>fi_data = [], fi_mode = 384\<rparr> \<and> (\<exists>x. p = dir @ ''/'' @ pre @ x)"
  by (auto simp: io_defs Write_def syscall_def set_fs_def append_data_def Let_def
      split: option.splits)

lemma Rename_cases:
  assumes "Rename D p q s = (r, s')"
  shows "(\<exists>e. r = Inl e \<and> sy_fs s' = sy_fs s \<and> sy_hist s' = sy_hist s) \<or>
    (r = Inr () \<and> (\<exists>f. sy_fs s p = Some f \<and> sy_fs s' = (sy_fs s)(p := None, q \<mapsto> f) \<and>
       sy_hist s' = sy_hist s @ [sy_fs s']))"
  using assms by (auto simp: Rename_def syscall_def set_fs_def Let_def split: option.splits)

lemma rename_replaces:
  assumes prep: "framed (keeps path) prep" and "tmp \<noteq> path"
    and ready: "\<And>s1 u. prep s = (Inr u, s1) \<Longrightarrow> \<exists>f. sy_fs s1 tmp = Some f \<and> complete f"
    and run: "bindS prep (\<lambda>_. mapErrS g (Rename D tmp path)) s = (r, s')"
  shows "replaces path complete r s s'"
proof -
  obtain x s1 where p: "prep s = (x, s1)" by (rule prod.exhaust)
  with prep have k: "keeps path s s1" by (auto simp: framed_def dest: spec [of _ s])
  show ?thesis
  proof (cases x)
    case (Inl e)
    with p run k show ?thesis by (auto simp: bindS_def replaces_def keeps_def)
  next
    case (Inr u)
    obtain y where ren: "Rename D tmp path s1 = (y, s')" "r = map_sum g id y"
      using run p Inr by (cases "Rename D tmp path s1") (auto simp: bindS_def)
    obtain f where f: "sy_fs s1 tmp = Some f" "complete f" using ready p Inr by blast
    obtain hs where hs: "sy_hist s1 = sy_hist s @ hs" "\<forall>h \<in> set hs. h path = sy_fs s path"
      "sy_fs s1 path = sy_fs s path"
      using k by (auto simp: keeps_def)
    from Rename_cases [OF ren(1)] show ?thesis
    proof
      assume "\<exists>e. y = Inl e \<and> sy_fs s' = sy_fs s1 \<and> sy_hist s' = sy_hist s1"
      with hs ren show ?thesis by (auto simp: replaces_def)
    next
      assume ok: "y = Inr () \<and> (\<exists>f. sy_fs s1 tmp = Some f \<and> sy_fs s' = (sy_fs s1)(tmp := None, path \<mapsto> f) \<and>
        sy_hist s' = sy_hist s1 @ [sy_fs s'])"
      with f have "sy_fs s' path = Some f" "sy_hist s' = sy_hist s @ hs @ [sy_fs s']" by (auto simp: hs)
      with f hs ren ok show ?thesis
        unfolding replaces_def by (auto intro!: exI [of _ "hs @ [sy_fs s']"])
    qed
  qed
qed

lemma tmp_path_neq [simp]: "tmp_path p \<noteq> p" "p \<noteq> tmp_path p"
  by (simp_all add: tmp_path_def)

lemma AtomicWrite_replaces:
  assumes "AtomicWrite D path data s = (r, s')"
  shows "replaces path (\<lambda>f. fi_data f = data) r s s'"
proof -
  let ?tmp = "tmp_path path"
  let ?prep = "bindS (OpenTrunc D ?tmp 384) (\<lambda>_.
      bindS (on_error (Write D ?tmp data) (bindS (tryS (Close D)) (\<lambda>_. Remove D ?tmp))) (\<lambda>_.
      bindS (on_error (Sync D) (bindS (tryS (Close D)) (\<lambda>_. Remove D ?tmp))) (\<lambda>_.
        on_error (Close D) (Remove D ?tmp))))"
  have "bindS ?prep (\<lambda>_. mapErrS id (Rename D ?tmp path)) s = (r, s')"
    using assms by (simp add: AtomicWrite_def Let_def bindS_assoc mapErrS_def sum.map_id)
  moreover have "framed (keeps path) ?prep" by (intro keeps_intros) simp_all
  moreover have "\<exists>f. sy_fs s1 ?tmp = Some f \<and> fi_data f = data" if "?prep s = (Inr u, s1)" for s1 u
    using that by (auto simp: bindS_Inr_iff on_error_Inr dest!: io_ok)
  ultimately show ?thesis by (intro rename_replaces [of path ?prep ?tmp]) auto
qed

lemma keeps_replaces: "keeps p s s1 \<Longrightarrow> replaces p c r s1 s2 \<Longrightarrow> replaces p c r s s2"
proof -
  assume "keeps p s s1" "replaces p c r s1 s2"
  then obtain xs ys where "sy_hist s1 = sy_hist s @ xs" "\<forall>h \<in> set xs. h p = sy_fs s p" "sy_fs s1 p = sy_fs s p"
    "sy_hist s2 = sy_hist s1 @ ys" "\<forall>h \<in> set ys. h p = sy_fs s1 p \<or> (\<exists>f. h p = Some f \<and> c f)"
    "case r of Inl _ \<Rightarrow> sy_fs s2 p = sy_fs s1 p | Inr _ \<Rightarrow> \<exists>f. sy_fs s2 p = Some f \<and> c f"
    by (auto simp: keeps_def replaces_def)
  then show ?thesis unfolding replaces_def by (auto intro!: exI [of _ "xs @ ys"] split: sum.splits)
qed

lemma replaces_keeps: "replaces p c r s s1 \<Longrightarrow> keeps p s1 s2 \<Longrightarrow> replaces p c r s s2"
proof -
  assume "replaces p c r s s1" "keeps p s1 s2"
  then obtain xs ys where h: "sy_hist s1 = sy_hist s @ xs" "\<forall>h \<in> set xs. h p = sy_fs s p \<or> (\<exists>f. h p = Some f \<and> c f)"
    "case r of Inl _ \<Rightarrow> sy_fs s1 p = sy_fs s p | Inr _ \<Rightarrow> \<exists>f. sy_fs s1 p = Some f \<and> c f"
    "sy_hist s2 = sy_hist s1 @ ys" "\<forall>h \<in> set ys. h p = sy_fs s1 p" "sy_fs s2 p = sy_fs s1 p"
    by (auto simp: keeps_def replaces_def)
  have "sy_fs s1 p = sy_fs s p \<or> (\<exists>f. sy_fs s1 p = Some f \<and> c f)"
    using h(3) by (auto split: sum.splits)
  with h show ?thesis unfolding replaces_def by (auto intro!: exI [of _ "xs @ ys"] split: sum.splits)
qed

lemma keeps_run: "framed (keeps p) m \<Longrightarrow> m s = (r, s') \<Longrightarrow> keeps p s s'"
  by (auto simp: framed_def dest: spec [of _ s])

lemma WriteFile_ok:
  assumes "WriteFile D p bs mode s = (Inr u, s')"
  shows "\<exists>f. sy_fs s' p = Some f \<and> fi_data f = bs"
proof -
  from assms obtain s1 where o: "OpenTrunc D p mode s = (Inr (), s1)"
    unfolding WriteFile_def bindS_Inr_iff by auto
  obtain w s2 where w: "Write D p bs s1 = (w, s2)" by (rule prod.exhaust)
  obtain c s3 where c: "Close D s2 = (c, s3)" by (rule prod.exhaust)
  from assms o w c have "w = Inr ()" "c = Inr ()" "s' = s3"
    by (cases w; cases c; simp add: WriteFile_def bindS_def)+
  with w c io_ok(2) [OF w [unfolded \<open>w = Inr ()\<close>] io_ok(1) [OF o]] io_ok(4) show ?thesis by fastforce
qed

lemma EnsurePKCS8Key_replaces:
  assumes "EnsurePKCS8Key D K srcPath dstPath s = (r, s')"
  shows "replaces dstPath (\<lambda>f. \<exists>data. convert_key K srcPath data = Inr (fi_data f)) r s s'"
proof -
  obtain x s1 where rd: "ReadFile D srcPath s = (x, s1)" by (rule prod.exhaust)
  have k: "keeps dstPath s s1" using keeps_run [OF framed_io(1) rd] .
  have stop: "replaces dstPath c (Inl e) s s1" for c and e :: key_error
    using k by (auto simp: replaces_def keeps_def)
  show ?thesis
  proof (cases x)
    case (Inl e)
    with rd assms stop show ?thesis by (auto simp: EnsurePKCS8Key_def bindS_def)
  next
    case (Inr data)
    show ?thesis
    proof (cases "convert_key K srcPath data")
      case (Inl e)
      with rd assms Inr stop show ?thesis by (auto simp: EnsurePKCS8Key_def bindS_def)
    next
      case (Inr out)
      let ?tmp = "tmp_path dstPath"
      let ?prep = "mapErrS KeyWrite (WriteFile D ?tmp out 384)"
      have run: "bindS ?prep (\<lambda>_. mapErrS KeyWrite (Rename D ?tmp dstPath)) s1 = (r, s')"
        using rd assms \<open>x = Inr data\<close> Inr by (simp add: EnsurePKCS8Key_def bindS_def Let_def)
      have prep: "framed (keeps dstPath) ?prep" by (intro keeps_intros framed_WriteFile) simp
      have ready: "\<exists>f. sy_fs s3 ?tmp = Some f \<and> (\<exists>data. convert_key K srcPath data = Inr (fi_data f))"
        if "?prep s1 = (Inr u, s3)" for s3 u
      proof -
        from that have "\<exists>f. sy_fs s3 ?tmp = Some f \<and> fi_data f = out"
          unfolding mapErrS_iff by (rule WriteFile_ok)
        with Inr show ?thesis by auto
      qed
      from rename_replaces [OF prep _ ready run] k show ?thesis by (auto intro: keeps_replaces)
    qed
  qed
qed

text \<open>The destination is not itself a name of a temporary file.\<close>

definition plain_dest :: "string \<Rightarrow> bool" where
  "plain_dest path \<longleftrightarrow> \<not> prefix (dir_of path @ ''/.pg_doorman-'') path"

lemma plain_dest_temp:
  assumes "plain_dest path"
  shows "path \<noteq> dir_of path @ ''/'' @ ''.pg_doorman-'' @ x"
proof
  have "prefix (d @ ''/.pg_doorman-'') path" if "path = d @ ''/'' @ ''.pg_doorman-'' @ x" for d
    using that by (auto simp: prefix_def)
  moreover assume "path = dir_of path @ ''/'' @ ''.pg_doorman-'' @ x"
  ultimately show False using assms unfolding plain_dest_def by blast
qed

lemma deferring_run:
  assumes "deferring m c s = (r, s')"
  obtains s1 where "m s = (r, s1)" "snd (c s1) = s'"
  using assms by (cases "m s") (auto simp: deferring_def bindS_def split: sum.splits)

text \<open>Installing through a temporary file: \<open>mk\<close> creates it, \<open>prep\<close> fills it, and a deferred call removes it.\<close>

lemma temp_install_replaces:
  assumes dest: "plain_dest dest" and mk: "framed (keeps dest) mk"
    and named: "\<And>tmp s1. mk s = (Inr tmp, s1) \<Longrightarrow>
      \<exists>x. tmp = dir_of dest @ ''/'' @ ''.pg_doorman-'' @ x \<and> sy_fs s1 tmp = Some \<lparr>fi_data = [], fi_mode = 384\<rparr>"
    and prep: "\<And>tmp. dest \<noteq> tmp \<Longrightarrow> framed (keeps dest) (prep tmp)"
    and ready: "\<And>tmp s1 u s2. sy_fs s1 tmp = Some \<lparr>fi_data = [], fi_mode = 384\<rparr> \<Longrightarrow> prep tmp s1 = (Inr u, s2) \<Longrightarrow>
      \<exists>f. sy_fs s2 tmp = Some f \<and> complete f"
    and run: "bindS mk (\<lambda>tmp. deferring (bindS (prep tmp) (\<lambda>_. mapErrS g (Rename D tmp dest)))
        (bindS (tryS (Close D)) (\<lambda>_. Remove D tmp))) s = (r, s')"
  shows "replaces dest complete r s s'"
proof -
  obtain x s1 where made: "mk s = (x, s1)" by (rule prod.exhaust)
  from keeps_run [OF mk made] have k: "keeps dest s s1" .
  show ?thesis
  proof (cases x)
    case (Inl e)
    with run made have "r = Inl e" "s' = s1" by (simp_all add: bindS_err [of mk])
    with k show ?thesis by (auto simp: replaces_def keeps_def)
  next
    case (Inr tmp)
    from named [OF made [unfolded Inr]] plain_dest_temp [OF dest]
    have tmp: "dest \<noteq> tmp" "sy_fs s1 tmp = Some \<lparr>fi_data = [], fi_mode = 384\<rparr>" by metis+
    let ?clean = "bindS (tryS (Close D)) (\<lambda>_. Remove D tmp)"
    have "deferring (bindS (prep tmp) (\<lambda>_. mapErrS g (Rename D tmp dest))) ?clean s1 = (r, s')"
      using made Inr run by (simp add: bindS_ok [of mk])
    then obtain s2 where body: "bindS (prep tmp) (\<lambda>_. mapErrS g (Rename D tmp dest)) s1 = (r, s2)"
      and clean: "snd (?clean s2) = s'"
      by (rule deferring_run)
    have "framed (keeps dest) ?clean" using tmp(1) by (intro keeps_intros)
    then have after: "keeps dest s2 s'" using clean unfolding framed_def by blast
    from rename_replaces [OF prep [OF tmp(1)] _ ready [OF tmp(2)] body] tmp(1)
    have "replaces dest complete r s1 s2" by simp
    from keeps_replaces [OF k replaces_keeps [OF this after]] show ?thesis .
  qed
qed

lemma atomicInstall_replaces:
  assumes "plain_dest dest" and "atomicInstall D dest src s = (r, s')"
  shows "replaces dest (\<lambda>f. fi_data f = src \<and> fi_mode f = 493) r s s'"
proof (rule temp_install_replaces [OF assms(1)])
  let ?mk = "bindS (MkdirAll D (dir_of dest)) (\<lambda>_. CreateTemp D (dir_of dest) ''.pg_doorman-'')"
  let ?prep = "\<lambda>tmp. bindS (Write D tmp src) (\<lambda>_. bindS (Chmod D tmp 493) (\<lambda>_. bindS (Sync D) (\<lambda>_. Close D)))"
  show "bindS ?mk (\<lambda>tmp. deferring (bindS (?prep tmp) (\<lambda>_. mapErrS id (Rename D tmp dest)))
      (bindS (tryS (Close D)) (\<lambda>_. Remove D tmp))) s = (r, s')"
    using assms(2) by (simp add: atomicInstall_def bindS_assoc mapErrS_def sum.map_id)
  show "framed (keeps dest) ?mk" using plain_dest_temp [OF assms(1)] by (intro keeps_intros) auto
  show "\<exists>x. tmp = dir_of dest @ ''/'' @ ''.pg_doorman-'' @ x \<and> sy_fs s1 tmp = Some \<lparr>fi_data = [], fi_mode = 384\<rparr>"
    if "?mk s = (Inr tmp, s1)" for tmp s1
    using that by (auto simp: bindS_Inr_iff dest!: io_ok(6))
  show "framed (keeps dest) (?prep tmp)" if "dest \<noteq> tmp" for tmp
    using that by (intro keeps_intros)
  show "\<exists>f. sy_fs s2 tmp = Some f \<and> fi_data f = src \<and> fi_mode f = 493"
    if "sy_fs s1 tmp = Some \<lparr>fi_data = [], fi_mode = 384\<rparr>" "?prep tmp s1 = (Inr u, s2)" for tmp s1 u s2
    using that by (auto simp: bindS_Inr_iff dest!: io_ok)
qed

interpretation atomic_write: atomic_install "AtomicWrite D path" path "\<lambda>data f. fi_data f = data"
  for D :: disk and path :: string
  by unfold_locales (rule AtomicWrite_replaces)

interpretation pkcs8_key: atomic_install "\<lambda>_::unit. EnsurePKCS8Key D K srcPath dstPath" dstPath
  "\<lambda>_ f. \<exists>data. convert_key K srcPath data = Inr (fi_data f)"
  for D :: disk and K :: "'k key_codec" and srcPath dstPath :: string
  by unfold_locales (rule EnsurePKCS8Key_replaces)

text \<open>(C8) Replacing a file is atomic under failures and crashes. Through any sequence of \<open>AtomicWrite\<close> calls on
  a path, each of which may fail at any system call with any number of bytes written, every state the file
  system passes through, the last one included, has at that path the original file or exactly one of the
  data that were to be written.\<close>

theorem AtomicWrite_crash_safe:
  "\<exists>hs. sy_hist (fold (\<lambda>data s. snd (AtomicWrite D path data s)) writes s) = sy_hist s @ hs \<and>
     {h path | h. h \<in> set (sy_fs (fold (\<lambda>data s. snd (AtomicWrite D path data s)) writes s) # hs)} \<subseteq>
       {sy_fs s path} \<union> {Some f | f. fi_data f \<in> set writes}"
proof -
  from atomic_write.reader_sees_whole [of D path writes s] obtain hs where
    "sy_hist (fold (\<lambda>data s. snd (AtomicWrite D path data s)) writes s) = sy_hist s @ hs"
    "\<forall>h \<in> set (sy_fs (fold (\<lambda>data s. snd (AtomicWrite D path data s)) writes s) # hs).
        h path = sy_fs s path \<or> (\<exists>d \<in> set writes. \<exists>f. h path = Some f \<and> fi_data f = d)"
    by blast
  then show ?thesis by (intro exI [of _ hs]) fastforce
qed

lemma no_faults_io:
  assumes "\<And>n. dk_error D n = None"
  shows "OpenTrunc D p mode s = (Inr (), set_fs ((sy_fs s)(p \<mapsto> \<lparr>fi_data = [],
      fi_mode = (case sy_fs s p of None \<Rightarrow> mode | Some f \<Rightarrow> fi_mode f)\<rparr>)) (s\<lparr>sy_n := Suc (sy_n s)\<rparr>))"
    and "Write D p bs s = (Inr (), append_data p bs (s\<lparr>sy_n := Suc (sy_n s)\<rparr>))"
    and "Sync D s = (Inr (), s\<lparr>sy_n := Suc (sy_n s)\<rparr>)" "Close D s = (Inr (), s\<lparr>sy_n := Suc (sy_n s)\<rparr>)"
    and "sy_fs s p = Some f \<Longrightarrow> Rename D p q s =
      (Inr (), set_fs ((sy_fs s)(p := None, q \<mapsto> f)) (s\<lparr>sy_n := Suc (sy_n s)\<rparr>))"
  using assms by (simp_all add: io_defs Write_def syscall_def)

text \<open>\<open>AtomicWrite\<close> does what its error value says: on success the path holds exactly the data, on failure
  it holds what it held before; and without failing system calls it succeeds, leaves no temporary file,
  and the new file is private (0600) unless a stale temporary file with another mode was there.\<close>

theorem AtomicWrite_result:
  "(case AtomicWrite D path data s of
      (Inl e, s') \<Rightarrow> sy_fs s' path = sy_fs s path
    | (Inr _, s') \<Rightarrow> \<exists>f. sy_fs s' path = Some f \<and> fi_data f = data) \<and>
   (\<exists>s'. AtomicWrite (D\<lparr>dk_error := \<lambda>_. None\<rparr>) path data s = (Inr (), s') \<and>
      sy_fs s' (tmp_path path) = None \<and>
      sy_fs s' path = Some \<lparr>fi_data = data,
        fi_mode = (case sy_fs s (tmp_path path) of None \<Rightarrow> 384 | Some f \<Rightarrow> fi_mode f)\<rparr>)"
proof
  show "case AtomicWrite D path data s of
      (Inl e, s') \<Rightarrow> sy_fs s' path = sy_fs s path
    | (Inr _, s') \<Rightarrow> \<exists>f. sy_fs s' path = Some f \<and> fi_data f = data"
    using AtomicWrite_replaces [of D path data s] by (auto simp: replaces_def split: prod.split sum.splits)
  have none: "\<And>n. dk_error (D\<lparr>dk_error := \<lambda>_. None\<rparr>) n = None" by simp
  show "\<exists>s'. AtomicWrite (D\<lparr>dk_error := \<lambda>_. None\<rparr>) path data s = (Inr (), s') \<and>
      sy_fs s' (tmp_path path) = None \<and>
      sy_fs s' path = Some \<lparr>fi_data = data,
        fi_mode = (case sy_fs s (tmp_path path) of None \<Rightarrow> 384 | Some f \<Rightarrow> fi_mode f)\<rparr>"
    by (simp add: AtomicWrite_def Let_def bindS_def on_error_def no_faults_io [OF none]
        append_data_def set_fs_def)
qed

end
