(* ===== verification/Doorman_Config.thy ===== *)
theory Doorman_Config
  imports Prelude
begin

text \<open>
  The configuration file of pg_doorman as the wrapper and the renderer see it:
  \<open>internal/wrapper/validator.go\<close> (types and structural validation) and \<open>internal/wrapper/restart.go\<close>.
  The YAML decoder (\<open>gopkg.in/yaml.v3\<close>) is a parameter. \<open>rank\<close> orders the two map literals of
  durations the code ranges over; pools come in the order of the decoded association list.

  The lemmas show that validation accepts exactly the well-formed configurations, in every range
  order, and which changes need a restart of the process.
\<close>

section \<open>Types\<close>

record UserConfig =
  uc_Username :: string
  uc_Password :: string
  uc_PoolSize :: "int option"

record AuthQueryConfig =
  ac_Query :: string
  ac_User :: string
  ac_Password :: string
  ac_Database :: string
  ac_Workers :: "int option"
  ac_PoolSize :: "int option"
  ac_CacheTTL :: string
  ac_CacheFailureTTL :: string
  ac_MinInterval :: string

record PoolConfig =
  po_ServerHost :: string
  po_ServerPort :: int
  po_PoolMode :: string
  po_Users :: "UserConfig list"
  po_AuthQuery :: "AuthQueryConfig option"

record GeneralConfig =
  ge_Host :: string
  ge_Port :: int
  ge_TLSCertificate :: string
  ge_TLSPrivateKey :: string
  ge_AdminUsername :: string
  ge_AdminPassword :: string
  ge_WorkerThreads :: "int option"
  ge_MaxConnections :: "int option"
  ge_ConnectTimeout :: string
  ge_IdleTimeout :: string
  ge_ServerLifetime :: string
  ge_ShutdownTimeout :: string

record PrometheusConfig =
  pm_Enabled :: bool
  pm_Host :: string
  pm_Port :: int

record DoormanConfig =
  dc_General :: GeneralConfig
  dc_Pools :: "(string \<times> PoolConfig) list"
  dc_Prometheus :: "PrometheusConfig option"

datatype config_field = FGeneral string | FAuthQuery string string | FUser string nat string

datatype validation_error =
    YAMLParseError string
  | NoPoolDefined
  | InvalidDuration config_field string
  | NotPositive config_field int
  | BadPoolMode string string
  | NoUsersOrAuthQuery string
  | UsernameRequired string nat
  | PasswordRequired string nat
  | QueryRequired string
  | UserRequired string

section \<open>Validation\<close>

definition durationPattern :: "string \<Rightarrow> bool" where
  "durationPattern s \<longleftrightarrow> digits_unit [''ms'', ''s'', ''m'', ''h'', ''d''] s"

definition validateDuration :: "config_field \<Rightarrow> string \<Rightarrow> validation_error + unit" where
  "validateDuration field value =
     (if value = [] then Inr ()
      else guard_err (\<not> durationPattern (ToLower (TrimSpace value))) (InvalidDuration field value))"

definition validatePositive :: "config_field \<Rightarrow> int option \<Rightarrow> validation_error + unit" where
  "validatePositive field value =
     (case value of None \<Rightarrow> Inr () | Some v \<Rightarrow> guard_err (v < 1) (NotPositive field v))"

definition check_durations ::
  "(config_field \<Rightarrow> nat) \<Rightarrow> (config_field \<times> string) list \<Rightarrow> validation_error + unit" where
  "check_durations rank durations =
     check_all (\<lambda>(field, value). validateDuration field value) (sort_key (rank \<circ> fst) durations)"

definition validateGeneral ::
  "(config_field \<Rightarrow> nat) \<Rightarrow> GeneralConfig \<Rightarrow> validation_error + unit" where
  "validateGeneral rank g =
     and_then (validatePositive (FGeneral ''worker_threads'') (ge_WorkerThreads g)) (\<lambda>_.
     and_then (validatePositive (FGeneral ''max_connections'') (ge_MaxConnections g)) (\<lambda>_.
     check_durations rank
       [(FGeneral ''connect_timeout'', ge_ConnectTimeout g),
        (FGeneral ''idle_timeout'', ge_IdleTimeout g),
        (FGeneral ''server_lifetime'', ge_ServerLifetime g),
        (FGeneral ''shutdown_timeout'', ge_ShutdownTimeout g)]))"

definition validateAuthQuery ::
  "(config_field \<Rightarrow> nat) \<Rightarrow> string \<Rightarrow> AuthQueryConfig \<Rightarrow> validation_error + unit" where
  "validateAuthQuery rank name aq =
     (if ac_Query aq = [] then Inl (QueryRequired name)
      else if ac_User aq = [] then Inl (UserRequired name)
      else and_then (validatePositive (FAuthQuery name ''workers'') (ac_Workers aq)) (\<lambda>_.
        and_then (validatePositive (FAuthQuery name ''pool_size'') (ac_PoolSize aq)) (\<lambda>_.
        check_durations rank
          [(FAuthQuery name ''cache_ttl'', ac_CacheTTL aq),
           (FAuthQuery name ''cache_failure_ttl'', ac_CacheFailureTTL aq),
           (FAuthQuery name ''min_interval'', ac_MinInterval aq)])))"

definition validateUser :: "string \<Rightarrow> nat \<times> UserConfig \<Rightarrow> validation_error + unit" where
  "validateUser name e =
     (let i = fst e; user = snd e in
      if uc_Username user = [] then Inl (UsernameRequired name i)
      else if uc_Password user = [] then Inl (PasswordRequired name i)
      else validatePositive (FUser name i ''pool_size'') (uc_PoolSize user))"

definition validatePool ::
  "(config_field \<Rightarrow> nat) \<Rightarrow> string \<Rightarrow> PoolConfig \<Rightarrow> validation_error + unit" where
  "validatePool rank name pool =
     (if po_PoolMode pool \<noteq> [] \<and> po_PoolMode pool \<noteq> ''session'' \<and> po_PoolMode pool \<noteq> ''transaction''
        then Inl (BadPoolMode name (po_PoolMode pool))
      else if po_Users pool = [] \<and> po_AuthQuery pool = None then Inl (NoUsersOrAuthQuery name)
      else and_then
        (case po_AuthQuery pool of None \<Rightarrow> Inr () | Some aq \<Rightarrow> validateAuthQuery rank name aq)
        (\<lambda>_. check_all (validateUser name) (enumerate 0 (po_Users pool))))"

definition ValidateConfigBytes ::
  "(string \<Rightarrow> string + DoormanConfig) \<Rightarrow> (config_field \<Rightarrow> nat) \<Rightarrow> string \<Rightarrow>
   validation_error + DoormanConfig" where
  "ValidateConfigBytes unmarshal rank data =
     (case unmarshal data of
        Inl e \<Rightarrow> Inl (YAMLParseError e)
      | Inr cfg \<Rightarrow>
          if dc_Pools cfg = [] then Inl NoPoolDefined
          else and_then (validateGeneral rank (dc_General cfg)) (\<lambda>_.
            and_then (check_all (\<lambda>(name, pool). validatePool rank name pool) (dc_Pools cfg)) (\<lambda>_.
            Inr cfg)))"

section \<open>Changes that need a restart\<close>

fun intPtrEqual :: "int option \<Rightarrow> int option \<Rightarrow> bool" where
  "intPtrEqual (Some a) (Some b) \<longleftrightarrow> a = b"
| "intPtrEqual a b \<longleftrightarrow> a = None \<and> b = None"

definition NeedsProcessRestart :: "DoormanConfig \<Rightarrow> DoormanConfig \<Rightarrow> bool" where
  "NeedsProcessRestart oldCfg newCfg \<longleftrightarrow>
     \<not> intPtrEqual (ge_WorkerThreads (dc_General oldCfg)) (ge_WorkerThreads (dc_General newCfg)) \<or>
     \<not> intPtrEqual (ge_MaxConnections (dc_General oldCfg)) (ge_MaxConnections (dc_General newCfg)) \<or>
     ge_Host (dc_General oldCfg) \<noteq> ge_Host (dc_General newCfg) \<or>
     ge_Port (dc_General oldCfg) \<noteq> ge_Port (dc_General newCfg)"

text \<open>The fields that pg_doorman fixes at process start.\<close>

definition startup_fields :: "DoormanConfig \<Rightarrow> int option \<times> int option \<times> string \<times> int" where
  "startup_fields c =
     (ge_WorkerThreads (dc_General c), ge_MaxConnections (dc_General c),
      ge_Host (dc_General c), ge_Port (dc_General c))"

lemma intPtrEqual_iff [simp]: "intPtrEqual a b \<longleftrightarrow> a = b"
  by (cases a; cases b) auto

lemma NeedsProcessRestart_iff: "NeedsProcessRestart a b \<longleftrightarrow> startup_fields a \<noteq> startup_fields b"
  by (auto simp: NeedsProcessRestart_def startup_fields_def)

section \<open>Well-formed configurations\<close>

text \<open>The language of accepted durations, independent of the matcher: spaces around, then digits,
  then at most one unit, in any case.\<close>

definition duration_text :: "string \<Rightarrow> bool" where
  "duration_text s \<longleftrightarrow>
     (\<exists>ds u. ToLower (TrimSpace s) = ds @ u \<and> ds \<noteq> [] \<and> list_all is_digit ds \<and>
        (u = [] \<or> u \<in> set [''ms'', ''s'', ''m'', ''h'', ''d'']))"

definition duration_ok :: "string \<Rightarrow> bool" where
  "duration_ok s \<longleftrightarrow> s = [] \<or> duration_text s"

definition positive_ok :: "int option \<Rightarrow> bool" where
  "positive_ok p \<longleftrightarrow> (case p of None \<Rightarrow> True | Some n \<Rightarrow> 1 \<le> n)"

definition auth_query_ok :: "AuthQueryConfig \<Rightarrow> bool" where
  "auth_query_ok aq \<longleftrightarrow>
     ac_Query aq \<noteq> [] \<and> ac_User aq \<noteq> [] \<and> positive_ok (ac_Workers aq) \<and> positive_ok (ac_PoolSize aq) \<and>
     duration_ok (ac_CacheTTL aq) \<and> duration_ok (ac_CacheFailureTTL aq) \<and> duration_ok (ac_MinInterval aq)"

definition user_ok :: "UserConfig \<Rightarrow> bool" where
  "user_ok u \<longleftrightarrow> uc_Username u \<noteq> [] \<and> uc_Password u \<noteq> [] \<and> positive_ok (uc_PoolSize u)"

definition pool_ok :: "PoolConfig \<Rightarrow> bool" where
  "pool_ok p \<longleftrightarrow>
     po_PoolMode p \<in> set [[], ''session'', ''transaction''] \<and>
     (po_Users p \<noteq> [] \<or> po_AuthQuery p \<noteq> None) \<and>
     (case po_AuthQuery p of None \<Rightarrow> True | Some aq \<Rightarrow> auth_query_ok aq) \<and>
     list_all user_ok (po_Users p)"

definition general_ok :: "GeneralConfig \<Rightarrow> bool" where
  "general_ok g \<longleftrightarrow>
     positive_ok (ge_WorkerThreads g) \<and> positive_ok (ge_MaxConnections g) \<and>
     duration_ok (ge_ConnectTimeout g) \<and> duration_ok (ge_IdleTimeout g) \<and>
     duration_ok (ge_ServerLifetime g) \<and> duration_ok (ge_ShutdownTimeout g)"

definition config_ok :: "DoormanConfig \<Rightarrow> bool" where
  "config_ok c \<longleftrightarrow>
     dc_Pools c \<noteq> [] \<and> general_ok (dc_General c) \<and> list_all (pool_ok \<circ> snd) (dc_Pools c)"

lemma durationPattern_iff:
  "durationPattern s \<longleftrightarrow>
     (\<exists>ds u. s = ds @ u \<and> ds \<noteq> [] \<and> list_all is_digit ds \<and>
        (u = [] \<or> u \<in> set [''ms'', ''s'', ''m'', ''h'', ''d'']))"
  unfolding durationPattern_def by (rule digits_unit_iff) (auto simp: is_digit_def)

lemma validateDuration_ok [simp]: "validateDuration f v = Inr () \<longleftrightarrow> duration_ok v"
  by (auto simp: validateDuration_def duration_ok_def duration_text_def durationPattern_iff)

lemma validatePositive_ok [simp]: "validatePositive f v = Inr () \<longleftrightarrow> positive_ok v"
  by (auto simp: validatePositive_def positive_ok_def split: option.splits)

lemma check_durations_ok [simp]:
  "check_durations rank ds = Inr () \<longleftrightarrow> (\<forall>d \<in> set ds. duration_ok (snd d))"
  unfolding check_durations_def by (simp only: check_all_ok set_sort) auto

lemma validateGeneral_ok [simp]: "validateGeneral rank g = Inr () \<longleftrightarrow> general_ok g"
  by (simp add: validateGeneral_def general_ok_def)

lemma validateAuthQuery_ok [simp]: "validateAuthQuery rank n aq = Inr () \<longleftrightarrow> auth_query_ok aq"
  by (simp add: validateAuthQuery_def auth_query_ok_def)

lemma validateUser_ok [simp]: "validateUser n e = Inr () \<longleftrightarrow> user_ok (snd e)"
  by (simp add: validateUser_def user_ok_def Let_def)

lemma validatePool_ok [simp]: "validatePool rank n p = Inr () \<longleftrightarrow> pool_ok p"
proof -
  have "(\<forall>e \<in> set (enumerate 0 us). user_ok (snd e)) \<longleftrightarrow> list_all user_ok us" for us
    by (auto simp: list_all_length in_set_enumerate_eq Ball_def)
  then show ?thesis
    by (auto simp: validatePool_def pool_ok_def split: option.splits)
qed

lemma ValidateConfigBytes_ok:
  "ValidateConfigBytes unmarshal rank data = Inr cfg \<longleftrightarrow> unmarshal data = Inr cfg \<and> config_ok cfg"
  by (auto simp: ValidateConfigBytes_def config_ok_def list_all_iff split: sum.splits)

text \<open>(C23) Validation of a configuration file is sound and complete: for every order of Go's map
  ranges, \<open>ValidateConfigBytes\<close> returns a configuration exactly when the bytes decode to it and it is
  well formed: at least one pool, known pool modes, users or an auth query in each pool, non-empty
  names and passwords, positive sizes, and durations of digits with at most one unit.\<close>

theorem ValidateConfigBytes_correct:
  "ValidateConfigBytes unmarshal rank data = Inr cfg \<longleftrightarrow> unmarshal data = Inr cfg \<and> config_ok cfg"
  by (rule ValidateConfigBytes_ok)

text \<open>A trimmed, lower-case duration is matched as it is.\<close>

lemma duration_ok_digits:
  assumes "digits_unit [''ms'', ''s'', ''m'', ''h'', ''d''] s"
  shows "duration_ok s"
proof -
  from assms obtain ds u where s: "s = ds @ u" and ds: "ds \<noteq> []" "list_all is_digit ds"
    and u: "u = [] \<or> u \<in> set [''ms'', ''s'', ''m'', ''h'', ''d'']"
    using durationPattern_iff unfolding durationPattern_def by blast
  from ds(2) have "list_all plain_char ds"
    by (auto simp: list_all_iff plain_char_digit)
  moreover from u have "list_all plain_char u"
    by (auto simp: plain_char_def lower_char_def)
  ultimately have "ToLower (TrimSpace s) = s"
    by (simp add: s TrimSpace_plain ToLower_plain)
  with s ds u show ?thesis by (auto simp: duration_ok_def duration_text_def)
qed

end
