(* ===== verification/File_Watcher.thy ===== *)
theory File_Watcher
  imports Files Doorman_Config
begin

text \<open>
  The two watchers that follow mounted files: \<open>internal/wrapper/filewatcher.go\<close> (the rendered configuration)
  and \<open>internal/wrapper/rolewatcher.go\<close> (the instance role).

  The process they act on is reached only through the interfaces \<open>Reloader\<close> and \<open>Restarter\<close>, so its operations
  are arguments here; the locale \<open>reloader\<close> states what the watchers rely on, and \<open>Process\<close> interprets it.
  The real binary that tests a configuration is a parameter (\<open>wv_exec\<close>), and so are the YAML decoder
  and the key codecs.
\<close>

section \<open>Environment and state\<close>

record 'k watch_env =
  wv_disk :: disk
  wv_codec :: "'k key_codec"
  wv_unmarshal :: "string \<Rightarrow> string + DoormanConfig"
  wv_rank :: "config_field \<Rightarrow> nat"
  wv_exec :: "nat \<Rightarrow> disk_file option \<Rightarrow> disk_file option \<Rightarrow> string option"

text \<open>The package's metrics for configuration changes.\<close>

record reload_metrics =
  rm_ConfigStale :: bool
  rm_Success :: nat
  rm_Failure :: nat

record file_watcher =
  fw_sourcePath :: string
  fw_runtimePath :: string
  fw_rawKeyPath :: string
  fw_keyPath :: string
  fw_tester :: "string option"
  fw_lastApplied :: string
  fw_metrics :: reload_metrics

datatype apply_error = ApplyRead io_error | ApplyKey key_error | ApplyIO io_error | ApplyTest string

definition CandidateSuffix :: string where "CandidateSuffix = ''.next.yaml''"

text \<open>\<open>NewBinaryConfigTester binary\<close> runs the binary on the candidate; the verdict may depend on both files
  and on the moment.\<close>

definition NewBinaryConfigTester ::
  "'k watch_env \<Rightarrow> string \<Rightarrow> string \<Rightarrow> ('z sys_scheme, string, unit) st" where
  "NewBinaryConfigTester V binary path s =
     (case wv_exec V (sy_n s) (sy_fs s binary) (sy_fs s path) of None \<Rightarrow> Inr () | Some e \<Rightarrow> Inl e,
      s\<lparr>sy_n := Suc (sy_n s)\<rparr>)"

definition NewFileWatcher ::
  "string \<Rightarrow> string \<Rightarrow> string \<Rightarrow> string \<Rightarrow> string \<Rightarrow> reload_metrics \<Rightarrow> file_watcher" where
  "NewFileWatcher binary sourcePath runtimePath rawKeyPath keyPath metrics =
     \<lparr>fw_sourcePath = sourcePath, fw_runtimePath = runtimePath, fw_rawKeyPath = rawKeyPath, fw_keyPath = keyPath,
      fw_tester = Some binary, fw_lastApplied = [], fw_metrics = metrics\<rparr>"

section \<open>Applying a configuration\<close>

definition candidate_path :: "file_watcher \<Rightarrow> string" where
  "candidate_path w = fw_runtimePath w @ CandidateSuffix"

definition materialize ::
  "'k watch_env \<Rightarrow> file_watcher \<Rightarrow> string \<Rightarrow> ('z sys_scheme, apply_error, unit) st" where
  "materialize V w data =
     bindS (if fw_rawKeyPath w \<noteq> []
            then mapErrS ApplyKey (EnsurePKCS8Key (wv_disk V) (wv_codec V) (fw_rawKeyPath w) (fw_keyPath w))
            else retS ()) (\<lambda>_.
     bindS (mapErrS ApplyIO (AtomicWrite (wv_disk V) (candidate_path w) data)) (\<lambda>_.
     bindS (case fw_tester w of
              None \<Rightarrow> retS ()
            | Some binary \<Rightarrow>
                bindS (tryS (NewBinaryConfigTester V binary (candidate_path w))) (\<lambda>r.
                  case r of
                    Inl e \<Rightarrow> bindS (tryS (Remove (wv_disk V) (candidate_path w))) (\<lambda>_. throwS (ApplyTest e))
                  | Inr _ \<Rightarrow> retS ())) (\<lambda>_.
       mapErrS ApplyIO (Rename (wv_disk V) (candidate_path w) (fw_runtimePath w)))))"

definition ApplyInitial ::
  "'k watch_env \<Rightarrow> file_watcher \<Rightarrow> ('z sys_scheme, apply_error, file_watcher) st" where
  "ApplyInitial V w =
     bindS (mapErrS ApplyRead (ReadFile (wv_disk V) (fw_sourcePath w))) (\<lambda>data.
     bindS (materialize V w data) (\<lambda>_. retS (w\<lparr>fw_lastApplied := data\<rparr>)))"

definition set_stale :: "bool \<Rightarrow> file_watcher \<Rightarrow> file_watcher" where
  "set_stale b w = w\<lparr>fw_metrics := (fw_metrics w)\<lparr>rm_ConfigStale := b\<rparr>\<rparr>"

definition count_failure :: "file_watcher \<Rightarrow> file_watcher" where
  "count_failure w = w\<lparr>fw_metrics := (fw_metrics w)\<lparr>rm_Failure := rm_Failure (fw_metrics w) + 1\<rparr>\<rparr>"

definition count_success :: "file_watcher \<Rightarrow> file_watcher" where
  "count_success w = w\<lparr>fw_metrics := (fw_metrics w)\<lparr>rm_Success := rm_Success (fw_metrics w) + 1\<rparr>\<rparr>"

definition needs_restart :: "'k watch_env \<Rightarrow> string \<Rightarrow> DoormanConfig \<Rightarrow> bool" where
  "needs_restart V lastApplied newCfg =
     (case ValidateConfigBytes (wv_unmarshal V) (wv_rank V) lastApplied of
        Inl _ \<Rightarrow> False | Inr oldCfg \<Rightarrow> NeedsProcessRestart oldCfg newCfg)"

text \<open>One poll. \<open>reload\<close> and \<open>restart\<close> are the operations of the \<open>Reloader\<close>.\<close>

definition check ::
  "'k watch_env \<Rightarrow> ('z sys_scheme, 'e, unit) st \<Rightarrow> ('z sys_scheme, 'e, unit) st \<Rightarrow> file_watcher \<Rightarrow>
   'z sys_scheme \<Rightarrow> file_watcher \<times> 'z sys_scheme" where
  "check V reload restart w s =
     (case ReadFile (wv_disk V) (fw_sourcePath w) s of
        (Inl _, s1) \<Rightarrow> (w, s1)
      | (Inr data, s1) \<Rightarrow>
          if data = fw_lastApplied w then (w, s1)
          else
            let w1 = set_stale True w in
            case ValidateConfigBytes (wv_unmarshal V) (wv_rank V) data of
              Inl _ \<Rightarrow> (count_failure w1, s1)
            | Inr newCfg \<Rightarrow>
                (case materialize V w1 data s1 of
                   (Inl _, s2) \<Rightarrow> (count_failure w1, s2)
                 | (Inr _, s2) \<Rightarrow>
                     (case (if needs_restart V (fw_lastApplied w) newCfg then restart else reload) s2 of
                        (Inl _, s3) \<Rightarrow> (count_failure w1, s3)
                      | (Inr _, s3) \<Rightarrow> (count_success (set_stale False (w1\<lparr>fw_lastApplied := data\<rparr>)), s3))))"

section \<open>The role watcher\<close>

record role_watcher =
  rw_roleFile :: string
  rw_lastRole :: string

definition NewRoleWatcher :: "string \<Rightarrow> role_watcher" where
  "NewRoleWatcher roleFile = \<lparr>rw_roleFile = roleFile, rw_lastRole = []\<rparr>"

definition role_check ::
  "disk \<Rightarrow> ('z sys_scheme, 'e, unit) st \<Rightarrow> role_watcher \<Rightarrow> 'z sys_scheme \<Rightarrow> role_watcher \<times> 'z sys_scheme" where
  "role_check D restart w s =
     (case ReadFile D (rw_roleFile w) s of
        (Inl _, s1) \<Rightarrow> (w, s1)
      | (Inr data, s1) \<Rightarrow>
          let role = TrimSpace data in
          if role = [] \<or> role = rw_lastRole w then (w, s1)
          else
            let demoted = (rw_lastRole w = ''primary'' \<and> role \<noteq> ''primary'');
                w1 = w\<lparr>rw_lastRole := role\<rparr>
            in if \<not> demoted then (w1, s1)
               else (case restart s1 of
                       (Inl _, s2) \<Rightarrow> (w1\<lparr>rw_lastRole := ''primary''\<rparr>, s2)
                     | (Inr _, s2) \<Rightarrow> (w1, s2)))"

section \<open>Only tested configurations reach the runtime path\<close>

definition tested :: "'k watch_env \<Rightarrow> disk_file \<Rightarrow> bool" where
  "tested V f \<longleftrightarrow> (\<exists>n binary. wv_exec V n binary (Some f) = None)"

text \<open>The key is not written over the configuration.\<close>

definition separate_paths :: "file_watcher \<Rightarrow> bool" where
  "separate_paths w \<longleftrightarrow> fw_runtimePath w \<noteq> fw_keyPath w \<and> fw_runtimePath w \<noteq> tmp_path (fw_keyPath w)"

lemma framed_tester: "framed (keeps p) (NewBinaryConfigTester V binary path)"
  by (simp add: framed_def NewBinaryConfigTester_def keeps_tick)

lemma framed_AtomicWrite: "p \<noteq> q \<Longrightarrow> p \<noteq> tmp_path q \<Longrightarrow> framed (keeps p) (AtomicWrite D q data)"
  unfolding AtomicWrite_def Let_def by (intro keeps_intros) auto

lemma framed_EnsurePKCS8Key:
  "p \<noteq> q \<Longrightarrow> p \<noteq> tmp_path q \<Longrightarrow> framed (keeps p) (EnsurePKCS8Key D K src q)"
  unfolding EnsurePKCS8Key_def Let_def
  by (intro keeps_intros) (auto split: sum.split intro!: keeps_intros framed_WriteFile)

lemma candidate_differs [simp]:
  "fw_runtimePath w \<noteq> candidate_path w" "candidate_path w \<noteq> fw_runtimePath w"
  "fw_runtimePath w \<noteq> tmp_path (candidate_path w)"
  by (simp_all add: candidate_path_def CandidateSuffix_def tmp_path_def)

lemma materialize_replaces:
  assumes "separate_paths w" and "fw_tester w = Some binary" and run: "materialize V w data s = (r, s')"
  shows "replaces (fw_runtimePath w) (\<lambda>f. fi_data f = data \<and> tested V f) r s s'"
proof -
  let ?key = "if fw_rawKeyPath w \<noteq> []
    then mapErrS ApplyKey (EnsurePKCS8Key (wv_disk V) (wv_codec V) (fw_rawKeyPath w) (fw_keyPath w)) else retS ()"
  let ?test = "bindS (tryS (NewBinaryConfigTester V binary (candidate_path w))) (\<lambda>r.
      case r of
        Inl e \<Rightarrow> bindS (tryS (Remove (wv_disk V) (candidate_path w))) (\<lambda>_. throwS (ApplyTest e))
      | Inr _ \<Rightarrow> retS ())"
  let ?prep = "bindS ?key (\<lambda>_. bindS (mapErrS ApplyIO (AtomicWrite (wv_disk V) (candidate_path w) data)) (\<lambda>_. ?test))"
  have "bindS ?prep (\<lambda>_. mapErrS ApplyIO (Rename (wv_disk V) (candidate_path w) (fw_runtimePath w))) s = (r, s')"
    using run assms(2) by (simp add: materialize_def bindS_assoc)
  moreover have "framed (keeps (fw_runtimePath w)) ?prep"
  proof -
    have key: "framed (keeps (fw_runtimePath w)) ?key"
      using assms(1) by (auto simp: separate_paths_def intro!: keeps_intros framed_EnsurePKCS8Key)
    have test: "framed (keeps (fw_runtimePath w)) ?test"
      by (intro keeps_intros framed_tester) (auto split: sum.split intro!: keeps_intros)
    have put: "framed (keeps (fw_runtimePath w)) (mapErrS ApplyIO (AtomicWrite (wv_disk V) (candidate_path w) data))"
      by (intro keeps_intros framed_AtomicWrite) simp_all
    show ?thesis
      by (rule framed_bindS [OF keeps_trans key framed_bindS [OF keeps_trans put test]])
  qed
  moreover have "\<exists>f. sy_fs s1 (candidate_path w) = Some f \<and> fi_data f = data \<and> tested V f"
    if prep: "?prep s = (Inr u, s1)" for u s1
  proof -
    from prep obtain sa sb where aw: "AtomicWrite (wv_disk V) (candidate_path w) data sa = (Inr (), sb)"
      and test: "?test sb = (Inr u, s1)"
      unfolding bindS_Inr_iff mapErrS_iff by auto
    from AtomicWrite_replaces [OF aw] obtain f where f: "sy_fs sb (candidate_path w) = Some f" "fi_data f = data"
      by (auto simp: replaces_def)
    from test have "wv_exec V (sy_n sb) (sy_fs sb binary) (sy_fs sb (candidate_path w)) = None"
      and "s1 = sb\<lparr>sy_n := Suc (sy_n sb)\<rparr>"
      by (auto simp: bindS_def NewBinaryConfigTester_def split: option.splits sum.splits prod.splits)
    with f show ?thesis by (auto simp: tested_def)
  qed
  ultimately show ?thesis by (intro rename_replaces [of _ ?prep]) auto
qed

text \<open>What the watchers rely on: signalling the process does not touch files.\<close>

locale reloader =
  fixes reload restart :: "('z sys_scheme, 'e, unit) st"
  assumes reload_files: "sy_fs (snd (reload s)) = sy_fs s"
    and restart_files: "sy_fs (snd (restart s)) = sy_fs s"
begin

lemma signal_files: "(if b then restart else reload) s = (r, s') \<Longrightarrow> sy_fs s' = sy_fs s"
  using reload_files [of s] restart_files [of s] by (auto split: if_splits)

lemma check_runtime:
  assumes "separate_paths w" "fw_tester w = Some binary" and run: "check V reload restart w s = (w', s')"
  shows "sy_fs s' (fw_runtimePath w) = sy_fs s (fw_runtimePath w) \<or>
    (\<exists>f. sy_fs s' (fw_runtimePath w) = Some f \<and> tested V f \<and>
       (\<exists>cfg. ValidateConfigBytes (wv_unmarshal V) (wv_rank V) (fi_data f) = Inr cfg))"
proof -
  obtain x s1 where rd: "ReadFile (wv_disk V) (fw_sourcePath w) s = (x, s1)" by (rule prod.exhaust)
  from keeps_run [OF framed_io(1) rd] have same: "sy_fs s1 (fw_runtimePath w) = sy_fs s (fw_runtimePath w)"
    by (auto simp: keeps_def)
  show ?thesis
  proof (cases "\<exists>data cfg. x = Inr data \<and> data \<noteq> fw_lastApplied w \<and>
      ValidateConfigBytes (wv_unmarshal V) (wv_rank V) data = Inr cfg")
    case False
    with run rd same show ?thesis
      by (auto simp: check_def Let_def split: sum.splits if_splits)
  next
    case True
    then obtain data cfg where x: "x = Inr data" "data \<noteq> fw_lastApplied w"
      and cfg: "ValidateConfigBytes (wv_unmarshal V) (wv_rank V) data = Inr cfg" by blast
    obtain y s2 where mat: "materialize V (set_stale True w) data s1 = (y, s2)" by (rule prod.exhaust)
    have "separate_paths (set_stale True w)" "fw_tester (set_stale True w) = Some binary"
      using assms by (simp_all add: separate_paths_def set_stale_def)
    from materialize_replaces [OF this mat]
    have m: "case y of Inl _ \<Rightarrow> sy_fs s2 (fw_runtimePath w) = sy_fs s1 (fw_runtimePath w)
      | Inr _ \<Rightarrow> \<exists>f. sy_fs s2 (fw_runtimePath w) = Some f \<and> fi_data f = data \<and> tested V f"
      by (simp add: replaces_def set_stale_def)
    have "sy_fs s' (fw_runtimePath w) = sy_fs s2 (fw_runtimePath w)"
      using run rd x cfg mat
      by (auto simp: check_def Let_def dest!: signal_files split: sum.splits prod.splits)
    with m same cfg show ?thesis by (auto split: sum.splits)
  qed
qed

end

section \<open>Runs of the watcher\<close>

text \<open>The watcher polls; between polls anything may change that is not the runtime configuration: the kubelet
  updates the mounted Secret, the process is signalled by others.\<close>

inductive fw_step ::
  "'k watch_env \<Rightarrow> ('z sys_scheme, 'e, unit) st \<Rightarrow> ('z sys_scheme, 'e, unit) st \<Rightarrow>
   file_watcher \<times> 'z sys_scheme \<Rightarrow> file_watcher \<times> 'z sys_scheme \<Rightarrow> bool"
  for V reload restart where
  poll: "check V reload restart w s = (w', s') \<Longrightarrow> fw_step V reload restart (w, s) (w', s')"
| outside: "sy_fs s' (fw_runtimePath w) = sy_fs s (fw_runtimePath w) \<Longrightarrow> fw_step V reload restart (w, s) (w, s')"

inductive_simps fw_step_iff: "fw_step V reload restart x y"

definition fw_setup :: "file_watcher \<Rightarrow> bool" where
  "fw_setup w \<longleftrightarrow> separate_paths w \<and> fw_tester w \<noteq> None"

definition fw_init :: "'k watch_env \<Rightarrow> file_watcher \<times> 'z sys_scheme \<Rightarrow> bool" where
  "fw_init V x \<longleftrightarrow> (\<exists>w0 s0. fw_setup w0 \<and> ApplyInitial V w0 s0 = (Inr (fst x), snd x))"

definition fw_inv :: "'k watch_env \<Rightarrow> file_watcher \<times> 'z sys_scheme \<Rightarrow> bool" where
  "fw_inv V x \<longleftrightarrow> fw_setup (fst x) \<and>
     (\<exists>f. sy_fs (snd x) (fw_runtimePath (fst x)) = Some f \<and> tested V f)"

lemma metrics_paths [simp]:
  "fw_runtimePath (set_stale b w) = fw_runtimePath w" "fw_setup (set_stale b w) = fw_setup w"
  "fw_lastApplied (set_stale b w) = fw_lastApplied w"
  "fw_runtimePath (count_failure w) = fw_runtimePath w" "fw_setup (count_failure w) = fw_setup w"
  "fw_lastApplied (count_failure w) = fw_lastApplied w"
  "fw_runtimePath (count_success w) = fw_runtimePath w" "fw_setup (count_success w) = fw_setup w"
  "fw_lastApplied (count_success w) = fw_lastApplied w"
  "fw_setup (w\<lparr>fw_lastApplied := d\<rparr>) = fw_setup w"
  by (simp_all add: set_stale_def count_failure_def count_success_def fw_setup_def separate_paths_def)

lemma check_keeps_setup:
  "check V reload restart w s = (w', s') \<Longrightarrow> fw_runtimePath w' = fw_runtimePath w \<and> fw_setup w' = fw_setup w"
  by (auto simp: check_def Let_def split: prod.splits sum.splits if_splits)

lemma fw_init_inv: "fw_init V x \<Longrightarrow> fw_inv V x"
proof -
  assume "fw_init V x"
  then obtain w0 s0 data s1 where w0: "fw_setup w0" "fst x = w0\<lparr>fw_lastApplied := data\<rparr>"
    and mat: "materialize V w0 data s1 = (Inr (), snd x)"
    unfolding fw_init_def ApplyInitial_def bindS_Inr_iff retS_apply prod.inject sum.inject by (metis (full_types) old.unit.exhaust)
  from w0(1) obtain b where "separate_paths w0" "fw_tester w0 = Some b" by (auto simp: fw_setup_def)
  from materialize_replaces [OF this mat] w0 show ?thesis
    by (auto simp: fw_inv_def replaces_def fw_setup_def separate_paths_def)
qed

context reloader
begin

lemma fw_step_inv: "fw_inv V x \<Longrightarrow> fw_step V reload restart x y \<Longrightarrow> fw_inv V y"
proof -
  assume inv: "fw_inv V x" and step: "fw_step V reload restart x y"
  from step show ?thesis
  proof cases
    case (poll w s w' s')
    from inv poll obtain b where "separate_paths w" "fw_tester w = Some b"
      by (auto simp: fw_inv_def fw_setup_def)
    from check_runtime [OF this poll(3)] check_keeps_setup [OF poll(3)] inv poll show ?thesis
      by (auto simp: fw_inv_def)
  next
    case (outside s' w s)
    with inv show ?thesis by (simp add: fw_inv_def)
  qed
qed

end

section \<open>The staleness gauge\<close>

text \<open>The staleness gauge can stick. Once an invalid configuration was mounted, mounting the applied
  one again does not reset the gauge: the mounted file equals the applied one, yet the gauge keeps
  reporting a difference.\<close>

theorem config_stale_sticks:
  assumes "\<And>n. dk_error (wv_disk V) n = None"
    and "sy_fs s (fw_sourcePath w) = Some bad" and "fi_data bad \<noteq> fw_lastApplied w"
    and "ValidateConfigBytes (wv_unmarshal V) (wv_rank V) (fi_data bad) = Inl e"
    and "check V reload restart w s = (w1, s1)"
    and "sy_fs s2 (fw_sourcePath w) = Some good" and "fi_data good = fw_lastApplied w"
    and "check V reload restart w1 s2 = (w2, s3)"
  shows "fi_data good = fw_lastApplied w2 \<and> rm_ConfigStale (fw_metrics w2)"
proof -
  have "w1 = count_failure (set_stale True w)"
    using assms(1-5) by (auto simp: check_def ReadFile_def syscall_def Let_def)
  with assms show ?thesis
    by (auto simp: check_def ReadFile_def syscall_def Let_def count_failure_def set_stale_def)
qed

definition quiet_disk :: disk where
  "quiet_disk = \<lparr>dk_error = (\<lambda>_. None), dk_torn = (\<lambda>_. 0), dk_temp = (\<lambda>_. ''x'')\<rparr>"

definition null_codec :: "unit key_codec" where
  "null_codec = \<lparr>kc_Decode = (\<lambda>_. None), kc_ParsePKCS8 = (\<lambda>_. Inl []), kc_ParseEC = (\<lambda>_. Inl []),
     kc_ParsePKCS1 = (\<lambda>_. Inl []), kc_MarshalPKCS8 = (\<lambda>_. Inl []), kc_Encode = (\<lambda>_ _. [])\<rparr>"

definition strict_env :: "unit watch_env" where
  "strict_env = \<lparr>wv_disk = quiet_disk, wv_codec = null_codec, wv_unmarshal = (\<lambda>_. Inl ''bad''),
     wv_rank = (\<lambda>_. 0), wv_exec = (\<lambda>_ _ _. None)\<rparr>"

definition example_watcher :: file_watcher where
  "example_watcher = \<lparr>fw_sourcePath = ''src'', fw_runtimePath = ''run'', fw_rawKeyPath = [], fw_keyPath = ''key'',
     fw_tester = Some ''bin'', fw_lastApplied = ''good'',
     fw_metrics = \<lparr>rm_ConfigStale = False, rm_Success = 1, rm_Failure = 0\<rparr>\<rparr>"

definition mounted :: "string \<Rightarrow> sys" where
  "mounted data = \<lparr>sy_fs = [''src'' \<mapsto> \<lparr>fi_data = data, fi_mode = 384\<rparr>], sy_hist = [], sy_n = 0\<rparr>"

theorem config_stale_sticks_witness:
  "\<exists>w1 s1 w2 s2. check strict_env (retS () :: (sys, unit, unit) st) (retS ()) example_watcher (mounted ''bad'') = (w1, s1) \<and>
     check strict_env (retS () :: (sys, unit, unit) st) (retS ()) w1 (mounted ''good'') = (w2, s2) \<and>
     ''good'' = fw_lastApplied w2 \<and> rm_ConfigStale (fw_metrics w2)"
proof -
  let ?c = "check strict_env (retS () :: (sys, unit, unit) st) (retS ())"
  obtain w1 s1 where 1: "?c example_watcher (mounted ''bad'') = (w1, s1)" by (rule prod.exhaust)
  obtain w2 s2 where 2: "?c w1 (mounted ''good'') = (w2, s2)" by (rule prod.exhaust)
  let ?bad = "\<lparr>fi_data = ''bad'', fi_mode = 384\<rparr>" and ?good = "\<lparr>fi_data = ''good'', fi_mode = 384\<rparr>"
  have d: "\<And>n. dk_error (wv_disk strict_env) n = None" by (simp add: strict_env_def quiet_disk_def)
  have b: "sy_fs (mounted ''bad'') (fw_sourcePath example_watcher) = Some ?bad"
    and nb: "fi_data ?bad \<noteq> fw_lastApplied example_watcher"
    and g: "sy_fs (mounted ''good'') (fw_sourcePath example_watcher) = Some ?good"
    and ng: "fi_data ?good = fw_lastApplied example_watcher"
    by (simp_all add: mounted_def example_watcher_def)
  have v: "ValidateConfigBytes (wv_unmarshal strict_env) (wv_rank strict_env) (fi_data ?bad) = Inl (YAMLParseError ''bad'')"
    by (simp add: strict_env_def ValidateConfigBytes_def)
  from config_stale_sticks [OF d b nb v 1 g ng 2]
  have "''good'' = fw_lastApplied w2 \<and> rm_ConfigStale (fw_metrics w2)" by simp
  with 1 2 show ?thesis by blast
qed

end
