(* ===== verification/Go_Time.thy ===== *)
theory Go_Time
  imports Prelude
begin

text \<open>
  Go's \<open>time.Duration\<close> as the wrapper uses it: nanoseconds in a signed 64-bit integer, and
  \<open>time.ParseDuration\<close>. The float64 product that converts a fractional part is the parameter \<open>frac\<close>
  (fraction digits as a number, the power of ten below them, nanoseconds per unit).
\<close>

section \<open>Durations\<close>

definition wrap64 :: "int \<Rightarrow> int" where
  "wrap64 n = (n + 2 ^ 63) mod 2 ^ 64 - 2 ^ 63"

definition Millisecond :: int where "Millisecond = 1000000"
definition Second :: int where "Second = 1000000000"

definition unitMap :: "string \<rightharpoonup> nat" where
  "unitMap = [''ns'' \<mapsto> 1, ''us'' \<mapsto> 1000, [CHR 0xC2, CHR 0xB5, CHR ''s''] \<mapsto> 1000,
     [CHR 0xCE, CHR 0xBC, CHR ''s''] \<mapsto> 1000, ''ms'' \<mapsto> 1000000, ''s'' \<mapsto> 1000000000,
     ''m'' \<mapsto> 60000000000, ''h'' \<mapsto> 3600000000000]"

text \<open>The leading decimal digits of a string; \<open>None\<close> on overflow beyond \<open>1<<63\<close>.\<close>

definition leadingInt :: "string \<Rightarrow> (nat \<times> string) option" where
  "leadingInt s =
     (let ds = takeWhile is_digit s; n = dec_value ds
      in if n > 2 ^ 63 then None else Some (n, dropWhile is_digit s))"

text \<open>Fraction digits: after an overflow the further digits are consumed and ignored.\<close>

fun leadingFraction_digits :: "string \<Rightarrow> nat \<Rightarrow> nat \<Rightarrow> bool \<Rightarrow> nat \<times> nat" where
  "leadingFraction_digits [] x scale overflow = (x, scale)"
| "leadingFraction_digits (c # cs) x scale overflow =
     (if overflow then leadingFraction_digits cs x scale True
      else if x > (2 ^ 63 - 1) div 10 then leadingFraction_digits cs x scale True
      else
        let y = x * 10 + digit_val c in
        if y > 2 ^ 63 then leadingFraction_digits cs x scale True
        else leadingFraction_digits cs y (scale * 10) False)"

definition leadingFraction :: "string \<Rightarrow> nat \<times> nat \<times> string" where
  "leadingFraction s =
     (let (x, scale) = leadingFraction_digits (takeWhile is_digit s) 0 1 False
      in (x, scale, dropWhile is_digit s))"

definition unit_char :: "char \<Rightarrow> bool" where
  "unit_char c \<longleftrightarrow> c \<noteq> CHR ''.'' \<and> \<not> is_digit c"

text \<open>One number with its unit: the nanoseconds it adds and the rest of the string. \<open>component_unit\<close> is the part
  after the leading integer \<open>v\<close>, with \<open>s1\<close> the rest of the string behind it.\<close>

definition component_unit ::
  "(nat \<Rightarrow> nat \<Rightarrow> nat \<Rightarrow> nat) \<Rightarrow> bool \<Rightarrow> nat \<Rightarrow> string \<Rightarrow> (nat \<times> string) option" where
  "component_unit frac pre v s1 =
     (let dot = (s1 \<noteq> [] \<and> hd s1 = CHR ''.'');
          (f, scale, s2) = (if dot then leadingFraction (tl s1) else (0, 1, s1));
          post = (dot \<and> length (tl s1) \<noteq> length s2);
          u = takeWhile unit_char s2;
          s3 = dropWhile unit_char s2
      in if \<not> pre \<and> \<not> post then None
         else if u = [] then None
         else
           (case unitMap u of
              None \<Rightarrow> None
            | Some unit \<Rightarrow>
                if v > 2 ^ 63 div unit then None
                else
                  let v1 = v * unit;
                      v2 = (if f > 0 then v1 + frac f scale unit else v1)
                  in if v2 > 2 ^ 63 then None else Some (v2, s3)))"

definition parse_component :: "(nat \<Rightarrow> nat \<Rightarrow> nat \<Rightarrow> nat) \<Rightarrow> string \<Rightarrow> (nat \<times> string) option" where
  "parse_component frac s =
     (if s = [] then None
      else if hd s \<noteq> CHR ''.'' \<and> \<not> is_digit (hd s) then None
      else
        (case leadingInt s of
           None \<Rightarrow> None
         | Some (v, s1) \<Rightarrow> component_unit frac (length s \<noteq> length s1) v s1))"

function parse_components :: "(nat \<Rightarrow> nat \<Rightarrow> nat \<Rightarrow> nat) \<Rightarrow> string \<Rightarrow> nat \<Rightarrow> nat option" where
  "parse_components frac s d =
     (if s = [] then Some d
      else
        (case parse_component frac s of
           None \<Rightarrow> None
         | Some (v, rest) \<Rightarrow>
             if length rest < length s
             then (if d + v > 2 ^ 63 then None else parse_components frac rest (d + v))
             else None))"
  by pat_completeness auto
termination by (relation "measure (\<lambda>(frac, s, d). length s)") auto

declare parse_components.simps [simp del]

definition ParseDuration :: "(nat \<Rightarrow> nat \<Rightarrow> nat \<Rightarrow> nat) \<Rightarrow> string \<Rightarrow> int option" where
  "ParseDuration frac s0 =
     (let signed = (s0 \<noteq> [] \<and> (hd s0 = CHR ''-'' \<or> hd s0 = CHR ''+''));
          neg = (s0 \<noteq> [] \<and> hd s0 = CHR ''-'');
          s = (if signed then tl s0 else s0)
      in if s = ''0'' then Some 0
         else if s = [] then None
         else
           (case parse_components frac s 0 of
              None \<Rightarrow> None
            | Some d \<Rightarrow>
                if neg then Some (- int d)
                else if d > 2 ^ 63 - 1 then None else Some (int d)))"

text \<open>The test on the rest in \<open>parse_components\<close> is only there for the termination proof: a component is
  never empty.\<close>

lemma component_unit_shrinks:
  assumes "component_unit frac pre v s1 = Some (n, rest)"
  shows "length rest < length s1"
proof -
  define dot where "dot = (s1 \<noteq> [] \<and> hd s1 = CHR ''.'')"
  define s2 where "s2 = (if dot then dropWhile is_digit (tl s1) else s1)"
  have f: "(if dot then leadingFraction (tl s1) else (0, 1, s1)) =
      (fst (if dot then leadingFraction (tl s1) else (0, 1, s1)),
       fst (snd (if dot then leadingFraction (tl s1) else (0, 1, s1))), s2)"
    by (auto simp: s2_def leadingFraction_def Let_def split: prod.split)
  have "takeWhile unit_char s2 \<noteq> [] \<and> rest = dropWhile unit_char s2"
    using assms f
    by (auto simp: component_unit_def dot_def [symmetric] Let_def split: if_splits option.splits prod.splits)
  then have "length rest < length s2"
    by (metis length_append less_add_same_cancel2 length_greater_0_conv takeWhile_dropWhile_id)
  moreover have "length s2 \<le> length s1"
    using length_dropWhile_le [of is_digit "tl s1"] by (auto simp: s2_def intro: order_trans)
  ultimately show ?thesis by simp
qed

lemma parse_component_shrinks:
  assumes "parse_component frac s = Some (v, rest)"
  shows "length rest < length s"
proof -
  obtain n where "component_unit frac (length s \<noteq> length (dropWhile is_digit s)) n (dropWhile is_digit s) = Some (v, rest)"
    using assms by (auto simp: parse_component_def leadingInt_def Let_def split: if_splits)
  from component_unit_shrinks [OF this] length_dropWhile_le [of is_digit s] show ?thesis by simp
qed

section \<open>Durations of the accepted form\<close>

lemma digits_component:
  assumes "list_all is_digit ds" "ds \<noteq> []" and u: "list_all unit_char u"
  shows "parse_component frac (ds @ u) =
    (case unitMap u of None \<Rightarrow> None
     | Some k \<Rightarrow> if u \<noteq> [] \<and> dec_value ds \<le> 2 ^ 63 \<and> dec_value ds \<le> 2 ^ 63 div k \<and> dec_value ds * k \<le> 2 ^ 63
                 then Some (dec_value ds * k, []) else None)"
proof -
  obtain c cs where ds: "ds = c # cs" using assms(2) by (cases ds) auto
  have "u = [] \<or> \<not> is_digit (hd u)" using u by (cases u) (auto simp: unit_char_def)
  from takeWhile_digits_append [OF assms(1) this]
  have tw: "takeWhile is_digit (ds @ u) = ds" "dropWhile is_digit (ds @ u) = u" by auto
  have dot: "\<not> (u \<noteq> [] \<and> hd u = CHR ''.'')" using u by (cases u) (auto simp: unit_char_def)
  have un: "takeWhile unit_char u = u" "dropWhile unit_char u = []"
    using u by (simp_all add: list_all_iff)
  have c: "is_digit (hd (ds @ u))" using assms(1) ds by simp
  have li: "leadingInt (ds @ u) = (if dec_value ds > 2 ^ 63 then None else Some (dec_value ds, u))"
    by (simp add: leadingInt_def tw Let_def)
  have "component_unit frac True (dec_value ds) u =
      (if u = [] then None
       else (case unitMap u of None \<Rightarrow> None
         | Some k \<Rightarrow> if dec_value ds > 2 ^ 63 div k then None
             else if dec_value ds * k > 2 ^ 63 then None else Some (dec_value ds * k, [])))"
    using dot by (auto simp: component_unit_def Let_def un split: option.split)
  moreover have "parse_component frac (ds @ u) =
      (if dec_value ds > 2 ^ 63 then None else component_unit frac True (dec_value ds) u)"
    using c assms(2) by (simp add: parse_component_def li)
  moreover have "unitMap [] = None" by (simp add: unitMap_def)
  ultimately show ?thesis by (cases "unitMap u"; cases "u = []") auto
qed

lemma digits_not_signed:
  "list_all is_digit ds \<Longrightarrow> ds \<noteq> [] \<Longrightarrow> \<not> (ds @ u \<noteq> [] \<and> (hd (ds @ u) = CHR ''-'' \<or> hd (ds @ u) = CHR ''+''))"
  by (cases ds) (auto simp: is_digit_def)

lemma ParseDuration_digits:
  assumes "list_all is_digit ds" "ds \<noteq> []" "list_all unit_char u" and "ds @ u \<noteq> ''0''"
  shows "ParseDuration frac (ds @ u) =
    (case unitMap u of None \<Rightarrow> None
     | Some k \<Rightarrow> if u \<noteq> [] \<and> dec_value ds * k < 2 ^ 63 then Some (int (dec_value ds * k)) else None)"
proof -
  have pos: "0 < k \<and> 1 \<le> k" if "unitMap u = Some k" for k
    using that by (auto simp: unitMap_def split: if_splits)
  have le: "dec_value ds \<le> 2 ^ 63 div k \<and> dec_value ds \<le> 2 ^ 63" if "unitMap u = Some k" "dec_value ds * k \<le> 2 ^ 63" for k
  proof -
    have "dec_value ds * 1 \<le> dec_value ds * k" using pos [OF that(1)] by (intro mult_le_mono2) auto
    then have "dec_value ds \<le> 2 ^ 63" using that(2) by linarith
    with that(2) pos [OF that(1)] show ?thesis by (simp add: less_eq_div_iff_mult_less_eq)
  qed
  have "parse_components frac (ds @ u) 0 =
      (case unitMap u of None \<Rightarrow> None
       | Some k \<Rightarrow> if u \<noteq> [] \<and> dec_value ds * k \<le> 2 ^ 63 then Some (dec_value ds * k) else None)"
    using assms(2) le
    by (auto simp: parse_components.simps [of frac "ds @ u"] parse_components.simps [of frac "[]"]
        digits_component [OF assms(1-3)] split: option.split)
  then show ?thesis
    using assms digits_not_signed [OF assms(1,2), of u]
    by (auto simp: ParseDuration_def Let_def split: option.split)
qed

lemma unit_chars: "list_all unit_char u" if "u \<in> set [[], ''ms'', ''s'', ''m'', ''h'', ''d'']"
  using that by (auto simp: unit_char_def is_digit_def)

end
