(* ===== verification/Api_Types.thy ===== *)
theory Api_Types
  imports Prelude
begin

text \<open>
  The \<open>PgDoorman\<close> custom resource: \<open>api/v1alpha1/types.go\<close> (the Go types and the validation rules
  that their kubebuilder markers put into the CRD) and \<open>api/v1alpha1/defaults.go\<close>
  (\<open>ApplyDefaults\<close>). A Go pointer is an \<open>option\<close>; \<open>Pools\<close> is a Go map that the code ranges over,
  so it is an association list.

  The lemmas show that \<open>ApplyDefaults\<close> sets every field the generator reads through a pointer, that
  it never overwrites a field the user set, and that it is a closure operator whose fixed points
  are exactly the completed specs.
\<close>

section \<open>Types\<close>

record SecretKeySelector =
  sk_Name :: string
  sk_Key :: string

record AuthQuerySpec =
  aq_User :: string
  aq_Query :: string
  aq_PasswordSecretRef :: "SecretKeySelector option"
  aq_Database :: string
  aq_PoolSize :: "int option"

record UserSpec =
  us_Username :: string
  us_PasswordSecretRef :: SecretKeySelector
  us_PoolSize :: "int option"

record PoolSpec =
  pl_PoolMode :: string
  pl_DefaultPoolSize :: "int option"
  pl_AuthQuery :: "AuthQuerySpec option"
  pl_Users :: "UserSpec list"

record GeneralSpec =
  gs_MaxConnections :: "int option"
  gs_WorkerThreads :: "int option"
  gs_ConnectTimeout :: string
  gs_IdleTimeout :: string
  gs_ServerLifetime :: string
  gs_ShutdownTimeout :: string
  gs_AdminUsername :: string
  gs_AdminPasswordSecretRef :: "SecretKeySelector option"

record PrometheusSpec =
  pr_Enabled :: "bool option"

record PgDoormanSpec =
  ds_ClusterRef :: string
  ds_Pools :: "(string \<times> PoolSpec) list"
  ds_General :: "GeneralSpec option"
  ds_Prometheus :: "PrometheusSpec option"

section \<open>Validation by the API server\<close>

text \<open>The markers of \<open>types.go\<close>. An omitted field is the Go zero value, which the markers with a
  default replace, so the zero value passes.\<close>

definition crd_positive :: "int option \<Rightarrow> bool" where
  "crd_positive p \<longleftrightarrow> (case p of None \<Rightarrow> True | Some n \<Rightarrow> 1 \<le> n)"

definition crd_duration :: "string \<Rightarrow> bool" where
  "crd_duration s \<longleftrightarrow> s = [] \<or> digits_unit [''ms'', ''s'', ''m'', ''h'', ''d''] s"

definition crd_auth_query :: "AuthQuerySpec \<Rightarrow> bool" where
  "crd_auth_query a \<longleftrightarrow> aq_User a \<noteq> [] \<and> crd_positive (aq_PoolSize a)"

definition crd_user :: "UserSpec \<Rightarrow> bool" where
  "crd_user u \<longleftrightarrow> us_Username u \<noteq> [] \<and> crd_positive (us_PoolSize u)"

definition crd_pool :: "PoolSpec \<Rightarrow> bool" where
  "crd_pool p \<longleftrightarrow>
     pl_PoolMode p \<in> set [[], ''session'', ''transaction''] \<and>
     crd_positive (pl_DefaultPoolSize p) \<and>
     (case pl_AuthQuery p of None \<Rightarrow> True | Some a \<Rightarrow> crd_auth_query a) \<and>
     list_all crd_user (pl_Users p) \<and>
     (pl_Users p \<noteq> [] \<or> pl_AuthQuery p \<noteq> None)"

definition crd_general :: "GeneralSpec \<Rightarrow> bool" where
  "crd_general g \<longleftrightarrow>
     crd_positive (gs_MaxConnections g) \<and> crd_positive (gs_WorkerThreads g) \<and>
     crd_duration (gs_ConnectTimeout g) \<and> crd_duration (gs_IdleTimeout g) \<and>
     crd_duration (gs_ServerLifetime g) \<and> crd_duration (gs_ShutdownTimeout g)"

definition crd_valid :: "PgDoormanSpec \<Rightarrow> bool" where
  "crd_valid s \<longleftrightarrow>
     ds_Pools s \<noteq> [] \<and> wf_map (ds_Pools s) \<and> list_all (crd_pool \<circ> snd) (ds_Pools s) \<and>
     (case ds_General s of None \<Rightarrow> True | Some g \<Rightarrow> crd_general g)"

section \<open>Defaults\<close>

definition DefaultPoolMode :: string where "DefaultPoolMode = ''transaction''"
definition DefaultDefaultPoolSize :: int where "DefaultDefaultPoolSize = 40"
definition DefaultUserPoolSize :: int where "DefaultUserPoolSize = 20"
definition DefaultAuthQueryQuery :: string where
  "DefaultAuthQueryQuery = ''SELECT * FROM public.doorman_auth_query($1)''"
definition DefaultAuthQueryDatabase :: string where "DefaultAuthQueryDatabase = ''postgres''"
definition DefaultAuthQueryPoolSize :: int where "DefaultAuthQueryPoolSize = 2"
definition DefaultMaxConnections :: int where "DefaultMaxConnections = 8192"
definition DefaultWorkerThreads :: int where "DefaultWorkerThreads = 4"
definition DefaultConnectTimeout :: string where "DefaultConnectTimeout = ''3s''"
definition DefaultIdleTimeout :: string where "DefaultIdleTimeout = ''5m''"
definition DefaultServerLifetime :: string where "DefaultServerLifetime = ''5m''"
definition DefaultShutdownTimeout :: string where "DefaultShutdownTimeout = ''10s''"
definition DefaultAdminUsername :: string where "DefaultAdminUsername = ''admin''"

lemmas api_constants =
  DefaultPoolMode_def DefaultDefaultPoolSize_def DefaultUserPoolSize_def DefaultAuthQueryQuery_def
  DefaultAuthQueryDatabase_def DefaultAuthQueryPoolSize_def DefaultMaxConnections_def
  DefaultWorkerThreads_def DefaultConnectTimeout_def DefaultIdleTimeout_def
  DefaultServerLifetime_def DefaultShutdownTimeout_def DefaultAdminUsername_def

definition or_str :: "string \<Rightarrow> string \<Rightarrow> string" where
  "or_str d s = (if s = [] then d else s)"

definition or_ptr :: "'a \<Rightarrow> 'a option \<Rightarrow> 'a option" where
  "or_ptr d p = (case p of None \<Rightarrow> Some d | Some x \<Rightarrow> Some x)"

definition GeneralSpec_zero :: GeneralSpec where
  "GeneralSpec_zero =
     \<lparr>gs_MaxConnections = None, gs_WorkerThreads = None, gs_ConnectTimeout = [], gs_IdleTimeout = [],
      gs_ServerLifetime = [], gs_ShutdownTimeout = [], gs_AdminUsername = [],
      gs_AdminPasswordSecretRef = None\<rparr>"

definition default_general :: "GeneralSpec \<Rightarrow> GeneralSpec" where
  "default_general g =
     g\<lparr>gs_MaxConnections := or_ptr DefaultMaxConnections (gs_MaxConnections g),
       gs_WorkerThreads := or_ptr DefaultWorkerThreads (gs_WorkerThreads g),
       gs_ConnectTimeout := or_str DefaultConnectTimeout (gs_ConnectTimeout g),
       gs_IdleTimeout := or_str DefaultIdleTimeout (gs_IdleTimeout g),
       gs_ServerLifetime := or_str DefaultServerLifetime (gs_ServerLifetime g),
       gs_ShutdownTimeout := or_str DefaultShutdownTimeout (gs_ShutdownTimeout g),
       gs_AdminUsername := or_str DefaultAdminUsername (gs_AdminUsername g)\<rparr>"

definition default_auth_query :: "AuthQuerySpec \<Rightarrow> AuthQuerySpec" where
  "default_auth_query a =
     a\<lparr>aq_Query := or_str DefaultAuthQueryQuery (aq_Query a),
       aq_Database := or_str DefaultAuthQueryDatabase (aq_Database a),
       aq_PoolSize := or_ptr DefaultAuthQueryPoolSize (aq_PoolSize a)\<rparr>"

definition default_user :: "UserSpec \<Rightarrow> UserSpec" where
  "default_user u = u\<lparr>us_PoolSize := or_ptr DefaultUserPoolSize (us_PoolSize u)\<rparr>"

definition default_pool :: "PoolSpec \<Rightarrow> PoolSpec" where
  "default_pool p =
     p\<lparr>pl_PoolMode := or_str DefaultPoolMode (pl_PoolMode p),
       pl_DefaultPoolSize := or_ptr DefaultDefaultPoolSize (pl_DefaultPoolSize p),
       pl_AuthQuery := map_option default_auth_query (pl_AuthQuery p),
       pl_Users := map default_user (pl_Users p)\<rparr>"

definition default_prometheus :: "PrometheusSpec option \<Rightarrow> PrometheusSpec" where
  "default_prometheus p =
     (let q = (case p of None \<Rightarrow> \<lparr>pr_Enabled = None\<rparr> | Some q \<Rightarrow> q)
      in q\<lparr>pr_Enabled := or_ptr True (pr_Enabled q)\<rparr>)"

definition ApplyDefaults :: "PgDoormanSpec \<Rightarrow> PgDoormanSpec" where
  "ApplyDefaults spec =
     spec\<lparr>ds_General := Some (default_general
            (case ds_General spec of None \<Rightarrow> GeneralSpec_zero | Some g \<Rightarrow> g)),
          ds_Prometheus := Some (default_prometheus (ds_Prometheus spec)),
          ds_Pools := map_vals default_pool (ds_Pools spec)\<rparr>"

lemmas default_defs =
  default_general_def default_auth_query_def default_user_def default_pool_def
  default_prometheus_def

section \<open>The promise of the defaulting\<close>

text \<open>A completed spec: every field that has a default is set.\<close>

definition complete_general :: "GeneralSpec \<Rightarrow> bool" where
  "complete_general g \<longleftrightarrow>
     gs_MaxConnections g \<noteq> None \<and> gs_WorkerThreads g \<noteq> None \<and> gs_ConnectTimeout g \<noteq> [] \<and>
     gs_IdleTimeout g \<noteq> [] \<and> gs_ServerLifetime g \<noteq> [] \<and> gs_ShutdownTimeout g \<noteq> [] \<and>
     gs_AdminUsername g \<noteq> []"

definition complete_pool :: "PoolSpec \<Rightarrow> bool" where
  "complete_pool p \<longleftrightarrow>
     pl_PoolMode p \<noteq> [] \<and> pl_DefaultPoolSize p \<noteq> None \<and>
     (case pl_AuthQuery p of None \<Rightarrow> True
      | Some a \<Rightarrow> aq_Query a \<noteq> [] \<and> aq_Database a \<noteq> [] \<and> aq_PoolSize a \<noteq> None) \<and>
     list_all (\<lambda>u. us_PoolSize u \<noteq> None) (pl_Users p)"

definition complete_spec :: "PgDoormanSpec \<Rightarrow> bool" where
  "complete_spec s \<longleftrightarrow>
     (case ds_General s of None \<Rightarrow> False | Some g \<Rightarrow> complete_general g) \<and>
     (case ds_Prometheus s of None \<Rightarrow> False | Some p \<Rightarrow> pr_Enabled p \<noteq> None) \<and>
     list_all (complete_pool \<circ> snd) (ds_Pools s)"

text \<open>One spec extends another when it keeps every field the other one sets.\<close>

definition keeps_str :: "string \<Rightarrow> string \<Rightarrow> bool" where
  "keeps_str s t \<longleftrightarrow> s = [] \<or> t = s"

definition keeps_ptr :: "'a option \<Rightarrow> 'a option \<Rightarrow> bool" where
  "keeps_ptr p q \<longleftrightarrow> p = None \<or> q = p"

definition extends_general :: "GeneralSpec \<Rightarrow> GeneralSpec \<Rightarrow> bool" where
  "extends_general g h \<longleftrightarrow>
     keeps_ptr (gs_MaxConnections g) (gs_MaxConnections h) \<and>
     keeps_ptr (gs_WorkerThreads g) (gs_WorkerThreads h) \<and>
     keeps_str (gs_ConnectTimeout g) (gs_ConnectTimeout h) \<and>
     keeps_str (gs_IdleTimeout g) (gs_IdleTimeout h) \<and>
     keeps_str (gs_ServerLifetime g) (gs_ServerLifetime h) \<and>
     keeps_str (gs_ShutdownTimeout g) (gs_ShutdownTimeout h) \<and>
     keeps_str (gs_AdminUsername g) (gs_AdminUsername h) \<and>
     gs_AdminPasswordSecretRef h = gs_AdminPasswordSecretRef g"

definition extends_auth_query :: "AuthQuerySpec \<Rightarrow> AuthQuerySpec \<Rightarrow> bool" where
  "extends_auth_query a b \<longleftrightarrow>
     aq_User b = aq_User a \<and> aq_PasswordSecretRef b = aq_PasswordSecretRef a \<and>
     keeps_str (aq_Query a) (aq_Query b) \<and> keeps_str (aq_Database a) (aq_Database b) \<and>
     keeps_ptr (aq_PoolSize a) (aq_PoolSize b)"

definition extends_user :: "UserSpec \<Rightarrow> UserSpec \<Rightarrow> bool" where
  "extends_user u v \<longleftrightarrow>
     us_Username v = us_Username u \<and> us_PasswordSecretRef v = us_PasswordSecretRef u \<and>
     keeps_ptr (us_PoolSize u) (us_PoolSize v)"

definition extends_pool :: "PoolSpec \<Rightarrow> PoolSpec \<Rightarrow> bool" where
  "extends_pool p q \<longleftrightarrow>
     keeps_str (pl_PoolMode p) (pl_PoolMode q) \<and>
     keeps_ptr (pl_DefaultPoolSize p) (pl_DefaultPoolSize q) \<and>
     rel_option extends_auth_query (pl_AuthQuery p) (pl_AuthQuery q) \<and>
     list_all2 extends_user (pl_Users p) (pl_Users q)"

definition extends_spec :: "PgDoormanSpec \<Rightarrow> PgDoormanSpec \<Rightarrow> bool" where
  "extends_spec s t \<longleftrightarrow>
     ds_ClusterRef t = ds_ClusterRef s \<and>
     list_all2 (\<lambda>(n, p) (m, q). m = n \<and> extends_pool p q) (ds_Pools s) (ds_Pools t) \<and>
     (case ds_General s of None \<Rightarrow> True
      | Some g \<Rightarrow> (case ds_General t of None \<Rightarrow> False | Some h \<Rightarrow> extends_general g h)) \<and>
     (case ds_Prometheus s of None \<Rightarrow> True
      | Some p \<Rightarrow> (case ds_Prometheus t of None \<Rightarrow> False
                    | Some q \<Rightarrow> keeps_ptr (pr_Enabled p) (pr_Enabled q)))"

lemma or_str_simps [simp]:
  "or_str d s = [] \<longleftrightarrow> d = [] \<and> s = []" "s \<noteq> [] \<Longrightarrow> or_str d s = s" "or_str d [] = d"
  "or_str d (or_str d s) = or_str d s"
  by (auto simp: or_str_def)

lemma or_str_same [simp]: "d \<noteq> [] \<Longrightarrow> or_str d s = s \<longleftrightarrow> s \<noteq> []"
  by (auto simp: or_str_def)

lemma or_ptr_simps [simp]:
  "or_ptr d p \<noteq> None" "or_ptr d (Some x) = Some x" "or_ptr d None = Some d"
  "or_ptr d (or_ptr d p) = or_ptr d p" "or_ptr d p = p \<longleftrightarrow> p \<noteq> None"
  by (auto simp: or_ptr_def split: option.splits)

lemma default_general_same [simp]: "default_general g = g \<longleftrightarrow> complete_general g"
  by (cases g) (auto simp: default_general_def complete_general_def api_constants)

lemma default_auth_query_same [simp]:
  "default_auth_query a = a \<longleftrightarrow> aq_Query a \<noteq> [] \<and> aq_Database a \<noteq> [] \<and> aq_PoolSize a \<noteq> None"
  by (cases a) (auto simp: default_auth_query_def api_constants)

lemma default_user_same [simp]: "default_user u = u \<longleftrightarrow> us_PoolSize u \<noteq> None"
  by (cases u) (auto simp: default_user_def)

lemma map_same_iff: "map f xs = xs \<longleftrightarrow> list_all (\<lambda>x. f x = x) xs"
  by (induction xs) auto

lemma map_option_same_iff: "map_option f p = p \<longleftrightarrow> (case p of None \<Rightarrow> True | Some x \<Rightarrow> f x = x)"
  by (cases p) auto

lemma default_pool_same [simp]: "default_pool p = p \<longleftrightarrow> complete_pool p"
proof -
  have "default_pool p = p \<longleftrightarrow>
      or_str DefaultPoolMode (pl_PoolMode p) = pl_PoolMode p \<and>
      or_ptr DefaultDefaultPoolSize (pl_DefaultPoolSize p) = pl_DefaultPoolSize p \<and>
      map_option default_auth_query (pl_AuthQuery p) = pl_AuthQuery p \<and>
      map default_user (pl_Users p) = pl_Users p"
    by (cases p) (auto simp: default_pool_def)
  then show ?thesis
    by (simp add: complete_pool_def map_same_iff map_option_same_iff api_constants
        del: map_option_eq_Some split: option.splits)
qed

lemma map_vals_same_iff: "map_vals f m = m \<longleftrightarrow> list_all (\<lambda>x. f (snd x) = snd x) m"
  by (induction m) (auto simp: map_vals_def)

lemma default_prometheus_complete [simp]: "pr_Enabled (default_prometheus p) \<noteq> None"
  by (simp add: default_prometheus_def Let_def)

lemma default_prometheus_same: "Some (default_prometheus p) = p \<longleftrightarrow>
    (case p of None \<Rightarrow> False | Some q \<Rightarrow> pr_Enabled q \<noteq> None)"
proof (cases p)
  case (Some q)
  then show ?thesis by (cases q) (auto simp: default_prometheus_def)
qed simp

lemma ApplyDefaults_same: "ApplyDefaults s = s \<longleftrightarrow> complete_spec s"
proof -
  have "ApplyDefaults s = s \<longleftrightarrow>
      Some (default_general (case ds_General s of None \<Rightarrow> GeneralSpec_zero | Some g \<Rightarrow> g)) = ds_General s \<and>
      Some (default_prometheus (ds_Prometheus s)) = ds_Prometheus s \<and>
      map_vals default_pool (ds_Pools s) = ds_Pools s"
    by (cases s) (auto simp: ApplyDefaults_def)
  then show ?thesis
    unfolding default_prometheus_same map_vals_same_iff
    by (simp add: complete_spec_def comp_def split: option.splits)
qed

lemma complete_general_default [simp]: "complete_general (default_general g)"
  by (simp add: complete_general_def default_general_def api_constants)

lemma complete_pool_default [simp]: "complete_pool (default_pool p)"
  by (auto simp: complete_pool_def default_pool_def default_auth_query_def default_user_def
      api_constants list_all_iff simp del: not_None_eq split: option.splits)

lemma default_pool_fields:
  "pl_PoolMode (default_pool p) = or_str DefaultPoolMode (pl_PoolMode p)"
  "pl_DefaultPoolSize (default_pool p) = or_ptr DefaultDefaultPoolSize (pl_DefaultPoolSize p)"
  "pl_AuthQuery (default_pool p) = map_option default_auth_query (pl_AuthQuery p)"
  "pl_Users (default_pool p) = map default_user (pl_Users p)"
  by (simp_all add: default_pool_def)

lemma ApplyDefaults_complete: "complete_spec (ApplyDefaults s)"
  by (auto simp: complete_spec_def ApplyDefaults_def list_all_iff set_map_vals)

lemma keeps_or_str [simp]: "keeps_str s (or_str d s)"
  by (auto simp: keeps_str_def or_str_def)

lemma keeps_or_ptr [simp]: "keeps_ptr p (or_ptr d p)"
  by (auto simp: keeps_ptr_def or_ptr_def split: option.splits)

lemma extends_pool_default: "extends_pool p (default_pool p)"
proof -
  have a: "extends_auth_query a (default_auth_query a)" for a
    by (simp add: extends_auth_query_def default_auth_query_def)
  have u: "extends_user u (default_user u)" for u
    by (simp add: extends_user_def default_user_def)
  show ?thesis
    by (simp add: extends_pool_def default_pool_def option.rel_map list.rel_map a u
        option.rel_refl list_all2_refl)
qed

lemma ApplyDefaults_extends: "extends_spec s (ApplyDefaults s)"
proof -
  have "list_all2 (\<lambda>(n, p) (m, q). m = n \<and> extends_pool p q) ps (map_vals default_pool ps)" for ps
    by (induction ps) (auto simp: map_vals_def extends_pool_default)
  then show ?thesis
    by (auto simp: extends_spec_def ApplyDefaults_def extends_general_def default_general_def
        default_prometheus_def split: option.splits)
qed

interpretation defaults: idempotent_mutation ApplyDefaults
  by unfold_locales (simp add: ApplyDefaults_same ApplyDefaults_complete)

text \<open>Defaulting a spec is correct: the result has every defaulted field set, keeps everything the
  user had set, and a spec is left unchanged exactly when it is already complete, so that applying the
  defaults in the API server and again in the renderer is harmless.\<close>

theorem ApplyDefaults_correct:
  "complete_spec (ApplyDefaults s) \<and> extends_spec s (ApplyDefaults s) \<and>
   (ApplyDefaults s = s \<longleftrightarrow> complete_spec s) \<and> (ApplyDefaults ^^ Suc n) s = ApplyDefaults s"
  using ApplyDefaults_complete ApplyDefaults_extends ApplyDefaults_same defaults.funpow_Suc_mutate by blast

end
