(* ===== verification/Plugin_Config.thy ===== *)
theory Plugin_Config
  imports Api_Types
begin

text \<open>
  The plugin parameters of a CNPG \<open>Cluster\<close>: \<open>internal/config/config.go\<close> and the plugin name of
  \<open>pkg/metadata/metadata.go\<close>. \<open>NewFromCluster\<close> reads the parameters of the first enabled entry of
  the plugin, \<open>Validate\<close> accepts or rejects the result, \<open>SetDefaults\<close> is the admission-time defaulting.

  Parameters of the model: Kubernetes' \<open>resource.ParseQuantity\<close> and \<open>Quantity.Cmp\<close> (third party,
  over an abstract type of quantities), the environment variable \<open>SIDECAR_IMAGE\<close>, and the order in
  which Go ranges over the two-entry port map (\<open>port_rank\<close>: sorting by an arbitrary rank gives every
  order).
\<close>

section \<open>The cluster as the plugin sees it\<close>

record plugin =
  pg_Name :: string
  pg_Enabled :: "bool option"
  pg_Parameters :: "string \<rightharpoonup> string"

record Cluster =
  cl_Namespace :: string
  cl_Name :: string
  cl_Plugins :: "plugin list"
  cl_ServerTLSSecret :: "string option"
  cl_CurrentPrimary :: string

definition PluginName :: string where "PluginName = ''pg-doorman.cnpg.io''"

section \<open>Constants\<close>

definition DefaultPoolerPort :: int where "DefaultPoolerPort = 6432"
definition DefaultMetricsPort :: int where "DefaultMetricsPort = 9127"
definition WrapperHealthPort :: int where "WrapperHealthPort = 8081"
definition DefaultSidecarCPURequest :: string where "DefaultSidecarCPURequest = ''100m''"
definition DefaultSidecarMemoryRequest :: string where "DefaultSidecarMemoryRequest = ''128Mi''"
definition DefaultSidecarMemoryLimit :: string where "DefaultSidecarMemoryLimit = ''512Mi''"
definition DefaultLogLevel :: string where "DefaultLogLevel = ''info''"
definition ResourceNone :: string where "ResourceNone = ''none''"

abbreviation "ParamPoolerPort \<equiv> ''poolerPort''"
abbreviation "ParamMetricsPort \<equiv> ''metricsPort''"
abbreviation "ParamConfigName \<equiv> ''configName''"
abbreviation "ParamLogLevel \<equiv> ''logLevel''"
abbreviation "ParamInPlaceUpgrades \<equiv> ''inPlaceUpgrades''"
abbreviation "ParamSidecarCPURequest \<equiv> ''sidecarCpuRequest''"
abbreviation "ParamSidecarMemoryRequest \<equiv> ''sidecarMemoryRequest''"
abbreviation "ParamSidecarCPULimit \<equiv> ''sidecarCpuLimit''"
abbreviation "ParamSidecarMemoryLimit \<equiv> ''sidecarMemoryLimit''"

lemmas config_constants =
  PluginName_def DefaultPoolerPort_def DefaultMetricsPort_def WrapperHealthPort_def
  DefaultSidecarCPURequest_def DefaultSidecarMemoryRequest_def DefaultSidecarMemoryLimit_def
  DefaultLogLevel_def ResourceNone_def

section \<open>The parsed configuration\<close>

datatype resource = CPU | Memory

datatype parse_error =
    InvalidInteger string string
  | InvalidBoolean string string
  | InvalidQuantity string string

record 'q PluginConfiguration =
  pc_Enabled :: bool
  pc_PoolerPort :: int
  pc_MetricsPort :: int
  pc_ConfigName :: string
  pc_SidecarImage :: string
  pc_LogLevel :: string
  pc_InPlaceUpgrades :: bool
  pc_Requests :: "resource \<rightharpoonup> 'q"
  pc_Limits :: "resource \<rightharpoonup> 'q"
  pc_ParseErrors :: "parse_error list"

record 'q config_env =
  SIDECAR_IMAGE :: string
  ParseQuantity :: "string \<Rightarrow> 'q option"
  QuantityCmp :: "'q \<Rightarrow> 'q \<Rightarrow> int"
  port_rank :: "string \<Rightarrow> nat"

datatype resource_list = Requests | Limits

definition add_parse_error ::
  "parse_error \<Rightarrow> 'q PluginConfiguration \<Rightarrow> 'q PluginConfiguration" where
  "add_parse_error e c = c\<lparr>pc_ParseErrors := pc_ParseErrors c @ [e]\<rparr>"

definition put_resource ::
  "resource_list \<Rightarrow> resource \<Rightarrow> 'q \<Rightarrow> 'q PluginConfiguration \<Rightarrow> 'q PluginConfiguration" where
  "put_resource l r q c =
     (case l of Requests \<Rightarrow> c\<lparr>pc_Requests := (pc_Requests c)(r \<mapsto> q)\<rparr>
      | Limits \<Rightarrow> c\<lparr>pc_Limits := (pc_Limits c)(r \<mapsto> q)\<rparr>)"

definition setResource ::
  "'q config_env \<Rightarrow> (string \<rightharpoonup> string) \<Rightarrow> string \<Rightarrow> resource_list \<Rightarrow> resource \<Rightarrow> string \<Rightarrow>
   'q PluginConfiguration \<Rightarrow> 'q PluginConfiguration" where
  "setResource E params param l r defaultVal c =
     (let val = (case params param of Some v \<Rightarrow> v | None \<Rightarrow> defaultVal)
      in if val = [] \<or> val = ResourceNone then c
         else (case ParseQuantity E val of
                 None \<Rightarrow> add_parse_error (InvalidQuantity param val) c
               | Some q \<Rightarrow> put_resource l r q c))"

definition set_pooler_port ::
  "(string \<rightharpoonup> string) \<Rightarrow> 'q PluginConfiguration \<Rightarrow> 'q PluginConfiguration" where
  "set_pooler_port params c =
     (case params ParamPoolerPort of None \<Rightarrow> c
      | Some v \<Rightarrow> (case Atoi v of Some port \<Rightarrow> c\<lparr>pc_PoolerPort := port\<rparr>
                    | None \<Rightarrow> add_parse_error (InvalidInteger ParamPoolerPort v) c))"

definition set_metrics_port ::
  "(string \<rightharpoonup> string) \<Rightarrow> 'q PluginConfiguration \<Rightarrow> 'q PluginConfiguration" where
  "set_metrics_port params c =
     (case params ParamMetricsPort of None \<Rightarrow> c
      | Some v \<Rightarrow> (case Atoi v of Some port \<Rightarrow> c\<lparr>pc_MetricsPort := port\<rparr>
                    | None \<Rightarrow> add_parse_error (InvalidInteger ParamMetricsPort v) c))"

definition set_in_place_upgrades ::
  "(string \<rightharpoonup> string) \<Rightarrow> 'q PluginConfiguration \<Rightarrow> 'q PluginConfiguration" where
  "set_in_place_upgrades params c =
     (case params ParamInPlaceUpgrades of None \<Rightarrow> c
      | Some v \<Rightarrow> (case ParseBool v of Some enabled \<Rightarrow> c\<lparr>pc_InPlaceUpgrades := enabled\<rparr>
                    | None \<Rightarrow> add_parse_error (InvalidBoolean ParamInPlaceUpgrades v) c))"

text \<open>The body of the loop of \<open>NewFromCluster\<close> for the entry it settles on.\<close>

definition read_plugin ::
  "'q config_env \<Rightarrow> (string \<rightharpoonup> string) \<Rightarrow> 'q PluginConfiguration \<Rightarrow> 'q PluginConfiguration" where
  "read_plugin E params c0 =
     (let c1 = c0\<lparr>pc_Enabled := True\<rparr>;
          c2 = set_pooler_port params c1;
          c3 = set_metrics_port params c2;
          c4 = (case params ParamConfigName of None \<Rightarrow> c3 | Some v \<Rightarrow> c3\<lparr>pc_ConfigName := v\<rparr>);
          c5 = (case params ParamLogLevel of None \<Rightarrow> c4 | Some v \<Rightarrow> c4\<lparr>pc_LogLevel := v\<rparr>);
          c6 = set_in_place_upgrades params c5;
          c7 = c6\<lparr>pc_Requests := Map.empty, pc_Limits := Map.empty\<rparr>;
          c8 = setResource E params ParamSidecarCPURequest Requests CPU DefaultSidecarCPURequest c7;
          c9 = setResource E params ParamSidecarMemoryRequest Requests Memory DefaultSidecarMemoryRequest c8;
          c10 = setResource E params ParamSidecarCPULimit Limits CPU [] c9
      in setResource E params ParamSidecarMemoryLimit Limits Memory DefaultSidecarMemoryLimit c10)"

fun scan_plugins ::
  "'q config_env \<Rightarrow> plugin list \<Rightarrow> 'q PluginConfiguration \<Rightarrow> 'q PluginConfiguration" where
  "scan_plugins E [] c = c"
| "scan_plugins E (p # ps) c =
     (if pg_Name p \<noteq> PluginName then scan_plugins E ps c
      else if pg_Enabled p = Some False then scan_plugins E ps c
      else read_plugin E (pg_Parameters p) c)"

definition initial_config :: "'q config_env \<Rightarrow> 'q PluginConfiguration" where
  "initial_config E =
     \<lparr>pc_Enabled = False, pc_PoolerPort = DefaultPoolerPort, pc_MetricsPort = DefaultMetricsPort,
      pc_ConfigName = [], pc_SidecarImage = SIDECAR_IMAGE E, pc_LogLevel = DefaultLogLevel,
      pc_InPlaceUpgrades = False, pc_Requests = Map.empty, pc_Limits = Map.empty,
      pc_ParseErrors = []\<rparr>"

definition NewFromCluster :: "'q config_env \<Rightarrow> Cluster \<Rightarrow> 'q PluginConfiguration" where
  "NewFromCluster E cluster = scan_plugins E (cl_Plugins cluster) (initial_config E)"

section \<open>Validation\<close>

datatype 'q config_error =
    InvalidParameters "parse_error list"
  | ConfigNameRequired
  | PoolerPortRange int
  | MetricsPortRange int
  | SidecarImageRequired
  | PortsMustDiffer
  | BadLogLevel string
  | PortConflict string int string
  | RequestExceedsLimit resource 'q 'q

definition reserved_ports :: "int \<rightharpoonup> string" where
  "reserved_ports =
     [5432 \<mapsto> ''PostgreSQL'', 8000 \<mapsto> ''CNPG instance manager status port'',
      9187 \<mapsto> ''CNPG metrics exporter'', WrapperHealthPort \<mapsto> ''wrapper health endpoint'']"

definition log_levels :: "string list" where
  "log_levels = [[], ''error'', ''warn'', ''info'', ''debug'', ''trace'']"

definition check_port_conflict :: "string \<times> int \<Rightarrow> 'q config_error + unit" where
  "check_port_conflict e =
     (case reserved_ports (snd e) of None \<Rightarrow> Inr ()
      | Some owner \<Rightarrow> Inl (PortConflict (fst e) (snd e) owner))"

definition check_resource ::
  "'q config_env \<Rightarrow> 'q PluginConfiguration \<Rightarrow> resource \<Rightarrow> 'q config_error + unit" where
  "check_resource E c name =
     (case (pc_Requests c name, pc_Limits c name) of
        (Some req, Some limit) \<Rightarrow>
          guard_err (QuantityCmp E req limit > 0) (RequestExceedsLimit name req limit)
      | _ \<Rightarrow> Inr ())"

definition Validate :: "'q config_env \<Rightarrow> 'q PluginConfiguration \<Rightarrow> 'q config_error + unit" where
  "Validate E c =
     (if pc_ParseErrors c \<noteq> [] then Inl (InvalidParameters (pc_ParseErrors c))
      else if pc_ConfigName c = [] then Inl ConfigNameRequired
      else if pc_PoolerPort c \<le> 0 \<or> pc_PoolerPort c > 65535 then Inl (PoolerPortRange (pc_PoolerPort c))
      else if pc_MetricsPort c \<le> 0 \<or> pc_MetricsPort c > 65535
        then Inl (MetricsPortRange (pc_MetricsPort c))
      else if pc_SidecarImage c = [] then Inl SidecarImageRequired
      else if pc_PoolerPort c = pc_MetricsPort c then Inl PortsMustDiffer
      else if pc_LogLevel c \<notin> set log_levels then Inl (BadLogLevel (pc_LogLevel c))
      else and_then
        (check_all check_port_conflict (sort_key (port_rank E \<circ> fst)
          [(ParamPoolerPort, pc_PoolerPort c), (ParamMetricsPort, pc_MetricsPort c)]))
        (\<lambda>_. check_all (check_resource E c) [CPU, Memory]))"

definition SetDefaults :: "(string \<rightharpoonup> string) \<Rightarrow> (string \<rightharpoonup> string)" where
  "SetDefaults params =
     (let p1 = (if params ParamPoolerPort = None
                then params(ParamPoolerPort \<mapsto> Itoa DefaultPoolerPort) else params)
      in if p1 ParamMetricsPort = None then p1(ParamMetricsPort \<mapsto> Itoa DefaultMetricsPort) else p1)"

section \<open>What an accepted configuration guarantees\<close>

definition port_ok :: "int \<Rightarrow> bool" where
  "port_ok p \<longleftrightarrow> 1 \<le> p \<and> p \<le> 65535 \<and> p \<notin> {5432, 8000, 8081, 9187}"

definition accepted_config :: "'q config_env \<Rightarrow> 'q PluginConfiguration \<Rightarrow> bool" where
  "accepted_config E c \<longleftrightarrow>
     pc_ParseErrors c = [] \<and> pc_ConfigName c \<noteq> [] \<and> pc_SidecarImage c \<noteq> [] \<and>
     port_ok (pc_PoolerPort c) \<and> port_ok (pc_MetricsPort c) \<and> pc_PoolerPort c \<noteq> pc_MetricsPort c \<and>
     pc_LogLevel c \<in> set log_levels \<and>
     (\<forall>r req limit. pc_Requests c r = Some req \<longrightarrow> pc_Limits c r = Some limit \<longrightarrow>
        QuantityCmp E req limit \<le> 0)"

lemma check_port_conflict_ok [simp]:
  "check_port_conflict e = Inr () \<longleftrightarrow> snd e \<notin> {5432, 8000, 8081, 9187}"
  by (auto simp: check_port_conflict_def reserved_ports_def WrapperHealthPort_def)

lemma check_resource_ok [simp]:
  "check_resource E c r = Inr () \<longleftrightarrow>
     (\<forall>req limit. pc_Requests c r = Some req \<longrightarrow> pc_Limits c r = Some limit \<longrightarrow>
        QuantityCmp E req limit \<le> 0)"
  by (auto simp: check_resource_def split: option.splits)

lemma all_resources: "(\<forall>r. P r) \<longleftrightarrow> P CPU \<and> P Memory"
  by (metis resource.exhaust)

lemma port_range_ok: "\<not> (p \<le> 0 \<or> p > 65535) \<longleftrightarrow> 1 \<le> p \<and> p \<le> (65535::int)"
  by auto

lemma check_ports_ok:
  "check_all check_port_conflict (sort_key f [(a, p), (b, q)]) = Inr () \<longleftrightarrow>
     p \<notin> {5432, 8000, 8081, 9187} \<and> q \<notin> {5432, 8000, 8081, 9187}"
  by (simp only: check_all_ok set_sort) simp

lemma Validate_accepts: "Validate E c = Inr () \<longleftrightarrow> accepted_config E c"
proof -
  have R: "check_all (check_resource E c) [CPU, Memory] = Inr () \<longleftrightarrow>
      (\<forall>r req limit. pc_Requests c r = Some req \<longrightarrow> pc_Limits c r = Some limit \<longrightarrow>
        QuantityCmp E req limit \<le> 0)"
    by (simp add: all_resources)
  show ?thesis
    unfolding Validate_def accepted_config_def port_ok_def
    by (simp only: if_Inl_ok and_then_unit_ok check_ports_ok R port_range_ok not_not) blast
qed

text \<open>(C21) Configuration validation is sound and complete: for every order in which Go ranges over
  the port map, \<open>Validate\<close> accepts exactly the configurations whose parameters all parsed, whose
  name and image are set, whose two ports are different, in 1..65535 and not one of the ports
  already bound in a CNPG pod, whose log level is known, and whose requests do not exceed their
  limits.\<close>

theorem Validate_sound_complete: "Validate E c = Inr () \<longleftrightarrow> accepted_config E c"
  by (rule Validate_accepts)

section \<open>What NewFromCluster reads\<close>

definition active_entry :: "plugin \<Rightarrow> bool" where
  "active_entry p \<longleftrightarrow> pg_Name p = PluginName \<and> pg_Enabled p \<noteq> Some False"

definition int_param :: "(string \<rightharpoonup> string) \<Rightarrow> string \<Rightarrow> int \<Rightarrow> int" where
  "int_param params key d =
     (case params key of None \<Rightarrow> d | Some v \<Rightarrow> (case Atoi v of None \<Rightarrow> d | Some n \<Rightarrow> n))"

definition str_param :: "(string \<rightharpoonup> string) \<Rightarrow> string \<Rightarrow> string \<Rightarrow> string" where
  "str_param params key d = (case params key of None \<Rightarrow> d | Some v \<Rightarrow> v)"

definition bool_param :: "(string \<rightharpoonup> string) \<Rightarrow> string \<Rightarrow> bool" where
  "bool_param params key =
     (case params key of None \<Rightarrow> False | Some v \<Rightarrow> (case ParseBool v of None \<Rightarrow> False | Some b \<Rightarrow> b))"

definition resource_param ::
  "'q config_env \<Rightarrow> (string \<rightharpoonup> string) \<Rightarrow> string \<Rightarrow> string \<Rightarrow> 'q option" where
  "resource_param E params key d =
     (let v = str_param params key d in if v = [] \<or> v = ResourceNone then None else ParseQuantity E v)"

definition int_error :: "(string \<rightharpoonup> string) \<Rightarrow> string \<Rightarrow> parse_error list" where
  "int_error params k =
     (case params k of None \<Rightarrow> [] | Some v \<Rightarrow> if Atoi v = None then [InvalidInteger k v] else [])"

definition bool_error :: "(string \<rightharpoonup> string) \<Rightarrow> string \<Rightarrow> parse_error list" where
  "bool_error params k =
     (case params k of None \<Rightarrow> [] | Some v \<Rightarrow> if ParseBool v = None then [InvalidBoolean k v] else [])"

definition resource_error ::
  "'q config_env \<Rightarrow> (string \<rightharpoonup> string) \<Rightarrow> string \<Rightarrow> string \<Rightarrow> parse_error list" where
  "resource_error E params k d =
     (let v = str_param params k d in
      if v \<noteq> [] \<and> v \<noteq> ResourceNone \<and> ParseQuantity E v = None then [InvalidQuantity k v] else [])"

definition param_errors :: "'q config_env \<Rightarrow> (string \<rightharpoonup> string) \<Rightarrow> parse_error list" where
  "param_errors E params =
     int_error params ParamPoolerPort @ int_error params ParamMetricsPort @
     bool_error params ParamInPlaceUpgrades @
     resource_error E params ParamSidecarCPURequest DefaultSidecarCPURequest @
     resource_error E params ParamSidecarMemoryRequest DefaultSidecarMemoryRequest @
     resource_error E params ParamSidecarCPULimit [] @
     resource_error E params ParamSidecarMemoryLimit DefaultSidecarMemoryLimit"

text \<open>The abstract reading of one plugin entry: every field from its own parameter.\<close>

definition plugin_reading ::
  "'q config_env \<Rightarrow> (string \<rightharpoonup> string) \<Rightarrow> 'q PluginConfiguration" where
  "plugin_reading E params =
     \<lparr>pc_Enabled = True,
      pc_PoolerPort = int_param params ParamPoolerPort DefaultPoolerPort,
      pc_MetricsPort = int_param params ParamMetricsPort DefaultMetricsPort,
      pc_ConfigName = str_param params ParamConfigName [],
      pc_SidecarImage = SIDECAR_IMAGE E,
      pc_LogLevel = str_param params ParamLogLevel DefaultLogLevel,
      pc_InPlaceUpgrades = bool_param params ParamInPlaceUpgrades,
      pc_Requests = (\<lambda>r. case r of
          CPU \<Rightarrow> resource_param E params ParamSidecarCPURequest DefaultSidecarCPURequest
        | Memory \<Rightarrow> resource_param E params ParamSidecarMemoryRequest DefaultSidecarMemoryRequest),
      pc_Limits = (\<lambda>r. case r of
          CPU \<Rightarrow> resource_param E params ParamSidecarCPULimit []
        | Memory \<Rightarrow> resource_param E params ParamSidecarMemoryLimit DefaultSidecarMemoryLimit),
      pc_ParseErrors = param_errors E params\<rparr>"

lemma add_parse_error_fields [simp]:
  "pc_Enabled (add_parse_error e c) = pc_Enabled c"
  "pc_PoolerPort (add_parse_error e c) = pc_PoolerPort c"
  "pc_MetricsPort (add_parse_error e c) = pc_MetricsPort c"
  "pc_ConfigName (add_parse_error e c) = pc_ConfigName c"
  "pc_SidecarImage (add_parse_error e c) = pc_SidecarImage c"
  "pc_LogLevel (add_parse_error e c) = pc_LogLevel c"
  "pc_InPlaceUpgrades (add_parse_error e c) = pc_InPlaceUpgrades c"
  "pc_Requests (add_parse_error e c) = pc_Requests c"
  "pc_Limits (add_parse_error e c) = pc_Limits c"
  "pc_ParseErrors (add_parse_error e c) = pc_ParseErrors c @ [e]"
  by (simp_all add: add_parse_error_def)

lemma setResource_fields [simp]:
  "pc_Enabled (setResource E params k l r d c) = pc_Enabled c"
  "pc_PoolerPort (setResource E params k l r d c) = pc_PoolerPort c"
  "pc_MetricsPort (setResource E params k l r d c) = pc_MetricsPort c"
  "pc_ConfigName (setResource E params k l r d c) = pc_ConfigName c"
  "pc_SidecarImage (setResource E params k l r d c) = pc_SidecarImage c"
  "pc_LogLevel (setResource E params k l r d c) = pc_LogLevel c"
  "pc_InPlaceUpgrades (setResource E params k l r d c) = pc_InPlaceUpgrades c"
  by (simp_all add: setResource_def put_resource_def Let_def split: option.split resource_list.split)

lemma setResource_requests [simp]:
  "pc_Requests (setResource E params k l r d c) =
     (if l = Requests then
        (case resource_param E params k d of None \<Rightarrow> pc_Requests c | Some q \<Rightarrow> (pc_Requests c)(r \<mapsto> q))
      else pc_Requests c)"
  by (auto simp: setResource_def put_resource_def Let_def resource_param_def str_param_def
      split: option.split resource_list.split)

lemma setResource_limits [simp]:
  "pc_Limits (setResource E params k l r d c) =
     (if l = Limits then
        (case resource_param E params k d of None \<Rightarrow> pc_Limits c | Some q \<Rightarrow> (pc_Limits c)(r \<mapsto> q))
      else pc_Limits c)"
  by (auto simp: setResource_def put_resource_def Let_def resource_param_def str_param_def
      split: option.split resource_list.split)

lemma setResource_errors [simp]:
  "pc_ParseErrors (setResource E params k l r d c) =
     pc_ParseErrors c @ resource_error E params k d"
  by (auto simp: setResource_def put_resource_def Let_def str_param_def resource_error_def
      split: option.split resource_list.split)

lemma set_pooler_port_eq:
  "set_pooler_port params c =
     c\<lparr>pc_PoolerPort := int_param params ParamPoolerPort (pc_PoolerPort c),
       pc_ParseErrors := pc_ParseErrors c @ int_error params ParamPoolerPort\<rparr>"
  by (auto simp: set_pooler_port_def int_param_def int_error_def add_parse_error_def split: option.split)

lemma set_metrics_port_eq:
  "set_metrics_port params c =
     c\<lparr>pc_MetricsPort := int_param params ParamMetricsPort (pc_MetricsPort c),
       pc_ParseErrors := pc_ParseErrors c @ int_error params ParamMetricsPort\<rparr>"
  by (auto simp: set_metrics_port_def int_param_def int_error_def add_parse_error_def split: option.split)

lemma set_in_place_upgrades_eq:
  "\<not> pc_InPlaceUpgrades c \<Longrightarrow> set_in_place_upgrades params c =
     c\<lparr>pc_InPlaceUpgrades := bool_param params ParamInPlaceUpgrades,
       pc_ParseErrors := pc_ParseErrors c @ bool_error params ParamInPlaceUpgrades\<rparr>"
  by (auto simp: set_in_place_upgrades_def bool_param_def bool_error_def add_parse_error_def split: option.split)

lemma str_field_eqs:
  "(case params k of None \<Rightarrow> c | Some v \<Rightarrow> c\<lparr>pc_ConfigName := v\<rparr>) =
     c\<lparr>pc_ConfigName := str_param params k (pc_ConfigName c)\<rparr>"
  "(case params k of None \<Rightarrow> c | Some v \<Rightarrow> c\<lparr>pc_LogLevel := v\<rparr>) =
     c\<lparr>pc_LogLevel := str_param params k (pc_LogLevel c)\<rparr>"
  by (auto simp: str_param_def split: option.split)

lemma resource_fun_eq:
  "case_resource a b =
     (case b of None \<Rightarrow> (case a of None \<Rightarrow> Map.empty | Some q \<Rightarrow> [CPU \<mapsto> q])
      | Some s \<Rightarrow> (case a of None \<Rightarrow> Map.empty | Some q \<Rightarrow> [CPU \<mapsto> q])(Memory \<mapsto> s))"
  by (rule ext) (auto split: option.split resource.split)

lemma read_plugin_reading: "read_plugin E params (initial_config E) = plugin_reading E params"
  by (rule PluginConfiguration.equality)
     (simp_all add: read_plugin_def plugin_reading_def initial_config_def Let_def param_errors_def
       set_pooler_port_eq set_metrics_port_eq set_in_place_upgrades_eq str_field_eqs resource_fun_eq
       split: option.split)

lemma scan_plugins_find:
  "scan_plugins E ps c =
     (case find active_entry ps of None \<Rightarrow> c | Some p \<Rightarrow> read_plugin E (pg_Parameters p) c)"
  by (induction ps) (auto simp: active_entry_def)

lemma NewFromCluster_reading:
  "NewFromCluster E cluster =
     (case find active_entry (cl_Plugins cluster) of
        None \<Rightarrow> initial_config E
      | Some p \<Rightarrow> plugin_reading E (pg_Parameters p))"
  by (simp add: NewFromCluster_def scan_plugins_find read_plugin_reading split: option.split)

lemma NewFromCluster_enabled:
  "pc_Enabled (NewFromCluster E cluster) \<longleftrightarrow> (\<exists>p \<in> set (cl_Plugins cluster). active_entry p)"
  by (auto simp: NewFromCluster_reading initial_config_def plugin_reading_def find_None_iff
      find_Some_iff split: option.split)

text \<open>(C22) Reading the plugin parameters: the first entry named after the plugin and not switched
  off decides alone, every field comes from its own parameter or default, and the parse errors are
  exactly those of the malformed parameters, in the order of the source; without such an entry the
  plugin is disabled and no error is reported.\<close>

theorem NewFromCluster_correct:
  "NewFromCluster E cluster =
     (case find active_entry (cl_Plugins cluster) of
        None \<Rightarrow> initial_config E
      | Some p \<Rightarrow> plugin_reading E (pg_Parameters p))"
  by (rule NewFromCluster_reading)

section \<open>Admission-time defaults\<close>

lemma SetDefaults_fixed:
  "params ParamPoolerPort \<noteq> None \<Longrightarrow> params ParamMetricsPort \<noteq> None \<Longrightarrow> SetDefaults params = params"
  by (auto simp: SetDefaults_def)

lemma SetDefaults_set:
  "SetDefaults params ParamPoolerPort \<noteq> None" "SetDefaults params ParamMetricsPort \<noteq> None"
  by (auto simp: SetDefaults_def Let_def)

interpretation param_defaults: idempotent_mutation SetDefaults
  by unfold_locales (simp only: SetDefaults_fixed SetDefaults_set not_False_eq_True)

lemma default_ports_roundtrip:
  "Atoi (Itoa DefaultPoolerPort) = Some DefaultPoolerPort"
  "Atoi (Itoa DefaultMetricsPort) = Some DefaultMetricsPort"
  by (simp_all add: Atoi_Itoa int_fits_def config_constants)

lemma SetDefaults_ports:
  "int_param (SetDefaults params) ParamPoolerPort DefaultPoolerPort =
     int_param params ParamPoolerPort DefaultPoolerPort"
  "int_param (SetDefaults params) ParamMetricsPort DefaultMetricsPort =
     int_param params ParamMetricsPort DefaultMetricsPort"
  "int_error (SetDefaults params) ParamPoolerPort = int_error params ParamPoolerPort"
  "int_error (SetDefaults params) ParamMetricsPort = int_error params ParamMetricsPort"
  by (simp_all add: int_param_def int_error_def SetDefaults_def Let_def default_ports_roundtrip
      split: option.split)

lemma SetDefaults_other:
  assumes "k \<noteq> ParamPoolerPort" "k \<noteq> ParamMetricsPort"
  shows "SetDefaults params k = params k"
    and "str_param (SetDefaults params) k d = str_param params k d"
    and "bool_param (SetDefaults params) k = bool_param params k"
    and "bool_error (SetDefaults params) k = bool_error params k"
    and "resource_param E (SetDefaults params) k d = resource_param E params k d"
    and "resource_error E (SetDefaults params) k d = resource_error E params k d"
proof -
  show *: "SetDefaults params k = params k"
    using assms by (simp add: SetDefaults_def Let_def)
  show "str_param (SetDefaults params) k d = str_param params k d" for d
    by (simp add: str_param_def *)
  then show "resource_param E (SetDefaults params) k d = resource_param E params k d"
    and "resource_error E (SetDefaults params) k d = resource_error E params k d"
    by (simp_all add: resource_param_def resource_error_def)
qed (simp_all add: bool_param_def bool_error_def assms SetDefaults_def Let_def)

lemma SetDefaults_reading: "plugin_reading E (SetDefaults params) = plugin_reading E params"
  by (simp add: plugin_reading_def param_errors_def SetDefaults_ports SetDefaults_other
      cong: resource.case_cong)

end
