(* ===== verification/Specs.thy ===== *)
theory Specs
  imports Plugin_Config "HOL-Library.Word"
begin

text \<open>
  The package \<open>internal/specs\<close>: which Secrets a spec refers to (\<open>secrets.go\<close>), the Secret the plugin
  generates for pools that name none (\<open>authsecrets.go\<close>), the pooler Service (\<open>service.go\<close>) and the
  names of the managed objects (\<open>role.go\<close>, \<open>service.go\<close>, \<open>authsecrets.go\<close>).

  The lemmas show that \<open>CollectSecretNames\<close> lists every reference once, and that
  \<open>DefaultAuthSecretRefs\<close> succeeds exactly when the pools without a reference agree on their user,
  whatever the order of Go's range over the pools.
\<close>

section \<open>Names of the managed objects\<close>

definition GetRBACName :: "string \<Rightarrow> string" where
  "GetRBACName clusterName = clusterName @ ''-pg-doorman''"

definition GetServiceName :: "string \<Rightarrow> string" where
  "GetServiceName clusterName = clusterName @ ''-doorman-rw''"

definition GeneratedAuthSecretName :: "string \<Rightarrow> string" where
  "GeneratedAuthSecretName clusterName = clusterName @ ''-doorman-auth''"

section \<open>The Secrets a spec refers to\<close>

definition add_name :: "string \<Rightarrow> string list \<Rightarrow> string list" where
  "add_name name result = (if name \<in> set result then result else result @ [name])"

definition collect_pool :: "string list \<Rightarrow> PoolSpec \<Rightarrow> string list" where
  "collect_pool result pool =
     (let r1 = (case pl_AuthQuery pool of None \<Rightarrow> result
                | Some a \<Rightarrow> (case aq_PasswordSecretRef a of None \<Rightarrow> result
                              | Some ref \<Rightarrow> add_name (sk_Name ref) result))
      in foldl (\<lambda>r user. add_name (sk_Name (us_PasswordSecretRef user)) r) r1 (pl_Users pool))"

definition admin_ref :: "PgDoormanSpec \<Rightarrow> SecretKeySelector option" where
  "admin_ref spec =
     (case ds_General spec of None \<Rightarrow> None | Some g \<Rightarrow> gs_AdminPasswordSecretRef g)"

definition CollectSecretNames :: "PgDoormanSpec \<Rightarrow> string list" where
  "CollectSecretNames spec =
     (let r = foldl (\<lambda>r e. collect_pool r (snd e)) [] (ds_Pools spec)
      in case admin_ref spec of None \<Rightarrow> r | Some ref \<Rightarrow> add_name (sk_Name ref) r)"

section \<open>The generated authentication Secret\<close>

datatype auth_ref_error = ConflictingUsers string string

definition generated_ref :: "string \<Rightarrow> SecretKeySelector" where
  "generated_ref clusterRef = \<lparr>sk_Name = GeneratedAuthSecretName clusterRef, sk_Key = ''password''\<rparr>"

text \<open>The loop of \<open>DefaultAuthSecretRefs\<close>; the accumulator is the variable \<open>user\<close>.\<close>

fun default_refs ::
  "SecretKeySelector \<Rightarrow> string \<Rightarrow> (string \<times> PoolSpec) list \<Rightarrow>
   auth_ref_error + ((string \<times> PoolSpec) list \<times> string)" where
  "default_refs ref user [] = Inr ([], user)"
| "default_refs ref user ((name, pool) # rest) =
     (case pl_AuthQuery pool of
        None \<Rightarrow> and_then (default_refs ref user rest) (\<lambda>(ps, u). Inr ((name, pool) # ps, u))
      | Some a \<Rightarrow>
          if aq_PasswordSecretRef a \<noteq> None
          then and_then (default_refs ref user rest) (\<lambda>(ps, u). Inr ((name, pool) # ps, u))
          else if user \<noteq> [] \<and> aq_User a \<noteq> user then Inl (ConflictingUsers user (aq_User a))
          else and_then (default_refs ref (aq_User a) rest)
            (\<lambda>(ps, u). Inr ((name, pool\<lparr>pl_AuthQuery := Some (a\<lparr>aq_PasswordSecretRef := Some ref\<rparr>)\<rparr>) # ps, u)))"

definition DefaultAuthSecretRefs :: "PgDoormanSpec \<Rightarrow> auth_ref_error + (PgDoormanSpec \<times> string)" where
  "DefaultAuthSecretRefs spec =
     and_then (default_refs (generated_ref (ds_ClusterRef spec)) [] (ds_Pools spec))
       (\<lambda>(ps, user). Inr (spec\<lparr>ds_Pools := ps\<rparr>, user))"

section \<open>The pooler Service\<close>

record ServicePort =
  sp_Name :: string
  sp_Port :: "32 word"
  sp_TargetPort :: "32 word"
  sp_Protocol :: string

record Service =
  sv_Namespace :: string
  sv_Name :: string
  sv_Labels :: "string \<rightharpoonup> string"
  sv_Selector :: "string \<rightharpoonup> string"
  sv_Ports :: "ServicePort list"
  sv_Owner :: "string option"

text \<open>Go's conversion \<open>int32(n)\<close>.\<close>

definition go_int32 :: "int \<Rightarrow> 32 word" where
  "go_int32 n = word_of_int n"

definition BuildDoormanService :: "Cluster \<Rightarrow> int \<Rightarrow> Service" where
  "BuildDoormanService cluster poolerPort =
     \<lparr>sv_Namespace = cl_Namespace cluster,
      sv_Name = GetServiceName (cl_Name cluster),
      sv_Labels = [''cnpg.io/cluster'' \<mapsto> cl_Name cluster],
      sv_Selector = [''cnpg.io/cluster'' \<mapsto> cl_Name cluster, ''cnpg.io/instanceRole'' \<mapsto> ''primary''],
      sv_Ports = [\<lparr>sp_Name = ''pooler'', sp_Port = 5432, sp_TargetPort = go_int32 poolerPort,
                   sp_Protocol = ''TCP''\<rparr>],
      sv_Owner = None\<rparr>"

section \<open>Every reference is collected, once\<close>

definition pool_refs :: "PoolSpec \<Rightarrow> SecretKeySelector list" where
  "pool_refs pool =
     (case pl_AuthQuery pool of None \<Rightarrow> []
      | Some a \<Rightarrow> (case aq_PasswordSecretRef a of None \<Rightarrow> [] | Some ref \<Rightarrow> [ref])) @
     map us_PasswordSecretRef (pl_Users pool)"

definition spec_refs :: "PgDoormanSpec \<Rightarrow> SecretKeySelector list" where
  "spec_refs spec =
     concat (map (pool_refs \<circ> snd) (ds_Pools spec)) @
     (case admin_ref spec of None \<Rightarrow> [] | Some ref \<Rightarrow> [ref])"

lemma add_name_set [simp]: "set (add_name n r) = insert n (set r)"
  by (auto simp: add_name_def)

lemma add_name_distinct [simp]: "distinct (add_name n r) = distinct r"
  by (auto simp: add_name_def)

lemma foldl_add_name:
  "set (foldl (\<lambda>r u. add_name (f u) r) r us) = set r \<union> f ` set us"
  "distinct (foldl (\<lambda>r u. add_name (f u) r) r us) = distinct r"
  by (induction us arbitrary: r) auto

lemma collect_pool_props:
  "set (collect_pool r p) = set r \<union> sk_Name ` set (pool_refs p)"
  "distinct (collect_pool r p) = distinct r"
  by (auto simp: collect_pool_def pool_refs_def foldl_add_name image_image split: option.splits)

lemma foldl_collect_pool:
  "set (foldl (\<lambda>r e. collect_pool r (snd e)) r ps) =
     set r \<union> (\<Union>e \<in> set ps. sk_Name ` set (pool_refs (snd e)))"
  "distinct (foldl (\<lambda>r e. collect_pool r (snd e)) r ps) = distinct r"
  by (induction ps arbitrary: r) (auto simp: collect_pool_props)

lemma CollectSecretNames_props:
  "set (CollectSecretNames spec) = sk_Name ` set (spec_refs spec)"
  "distinct (CollectSecretNames spec)"
  by (auto simp: CollectSecretNames_def spec_refs_def foldl_collect_pool Let_def image_Un
      split: option.splits)

text \<open>\<open>CollectSecretNames\<close> returns every Secret name the spec refers to, through an
  \<open>authQuery\<close>, a static user or the admin password, exactly once and nothing else.\<close>

theorem CollectSecretNames_exact:
  "set (CollectSecretNames spec) = sk_Name ` set (spec_refs spec) \<and> distinct (CollectSecretNames spec)"
  by (simp add: CollectSecretNames_props)

section \<open>Pools without a reference share one generated Secret\<close>

definition omits_ref :: "PoolSpec \<Rightarrow> bool" where
  "omits_ref pool \<longleftrightarrow>
     (case pl_AuthQuery pool of None \<Rightarrow> False | Some a \<Rightarrow> aq_PasswordSecretRef a = None)"

definition auth_user :: "PoolSpec \<Rightarrow> string" where
  "auth_user pool = (case pl_AuthQuery pool of None \<Rightarrow> [] | Some a \<Rightarrow> aq_User a)"

definition omitting_users :: "(string \<times> PoolSpec) list \<Rightarrow> string list" where
  "omitting_users pools = map (auth_user \<circ> snd) (filter (omits_ref \<circ> snd) pools)"

definition fill_ref :: "SecretKeySelector \<Rightarrow> PoolSpec \<Rightarrow> PoolSpec" where
  "fill_ref ref pool =
     (if omits_ref pool
      then pool\<lparr>pl_AuthQuery := map_option (\<lambda>a. a\<lparr>aq_PasswordSecretRef := Some ref\<rparr>) (pl_AuthQuery pool)\<rparr>
      else pool)"

lemma omitting_users_Cons:
  "omitting_users ((n, p) # ps) =
     (if omits_ref p then auth_user p # omitting_users ps else omitting_users ps)"
  by (simp add: omitting_users_def)

lemma default_refs_unfold:
  "default_refs ref user ((n, p) # ps) =
     (if omits_ref p \<and> user \<noteq> [] \<and> auth_user p \<noteq> user then Inl (ConflictingUsers user (auth_user p))
      else and_then (default_refs ref (if omits_ref p then auth_user p else user) ps)
        (\<lambda>(qs, u). Inr ((n, fill_ref ref p) # qs, u)))"
  by (auto simp: omits_ref_def auth_user_def fill_ref_def split: option.splits)

declare default_refs.simps(2) [simp del]

lemma default_refs_ok:
  "[] \<notin> set (omitting_users ps) \<Longrightarrow> user \<noteq> [] \<longrightarrow> set (omitting_users ps) \<subseteq> {user} \<Longrightarrow>
   user = [] \<longrightarrow> (\<exists>u. set (omitting_users ps) \<subseteq> {u}) \<Longrightarrow>
   default_refs ref user ps =
     Inr (map_vals (fill_ref ref) ps, if omitting_users ps = [] then user else hd (omitting_users ps))"
proof (induction ps arbitrary: user)
  case Nil
  then show ?case by (simp add: omitting_users_def map_vals_def)
next
  case (Cons e ps)
  obtain n p where e: "e = (n, p)" by (cases e)
  let ?user = "if omits_ref p then auth_user p else user"
  have agree: "omits_ref p \<Longrightarrow> user \<noteq> [] \<Longrightarrow> auth_user p = user"
    using Cons.prems by (auto simp: e omitting_users_Cons)
  have "default_refs ref ?user ps =
      Inr (map_vals (fill_ref ref) ps,
        if omitting_users ps = [] then ?user else hd (omitting_users ps))"
    using Cons.prems by (intro Cons.IH) (auto simp: e omitting_users_Cons split: if_splits)
  moreover have "omits_ref p \<Longrightarrow> omitting_users ps \<noteq> [] \<Longrightarrow> hd (omitting_users ps) = auth_user p"
    using Cons.prems by (cases "omitting_users ps") (auto simp: e omitting_users_Cons split: if_splits)
  ultimately show ?case
    using agree by (auto simp: e default_refs_unfold omitting_users_Cons map_vals_def)
qed

lemma default_refs_conflict:
  "[] \<notin> set (omitting_users ps) \<Longrightarrow>
   \<not> (\<exists>u. set (omitting_users ps) \<union> (if user = [] then {} else {user}) \<subseteq> {u}) \<Longrightarrow>
   \<exists>a b. default_refs ref user ps = Inl (ConflictingUsers a b) \<and> a \<noteq> b \<and>
     {a, b} \<subseteq> set (omitting_users ps) \<union> (if user = [] then {} else {user})"
proof (induction ps arbitrary: user)
  case Nil
  then show ?case by (auto simp: omitting_users_def split: if_splits)
next
  case (Cons e ps)
  obtain n p where e: "e = (n, p)" by (cases e)
  let ?user = "if omits_ref p then auth_user p else user"
  show ?case
  proof (cases "omits_ref p \<and> user \<noteq> [] \<and> auth_user p \<noteq> user")
    case True
    then show ?thesis by (auto simp: e default_refs_unfold omitting_users_Cons)
  next
    case False
    then have eq: "set (omitting_users (e # ps)) \<union> (if user = [] then {} else {user}) =
        set (omitting_users ps) \<union> (if ?user = [] then {} else {?user})"
      using Cons.prems(1) by (auto simp: e omitting_users_Cons split: if_splits)
    with Cons.prems obtain a b where
      "default_refs ref ?user ps = Inl (ConflictingUsers a b)" "a \<noteq> b"
      "{a, b} \<subseteq> set (omitting_users ps) \<union> (if ?user = [] then {} else {?user})"
      using Cons.IH [of ?user] by (auto simp: e omitting_users_Cons split: if_splits)
    with False eq show ?thesis by (auto simp: e default_refs_unfold)
  qed
qed

lemma DefaultAuthSecretRefs_cases:
  assumes "[] \<notin> set (omitting_users (ds_Pools spec))"
  shows "(\<exists>u. set (omitting_users (ds_Pools spec)) \<subseteq> {u}) \<Longrightarrow> DefaultAuthSecretRefs spec =
      Inr (spec\<lparr>ds_Pools := map_vals (fill_ref (generated_ref (ds_ClusterRef spec))) (ds_Pools spec)\<rparr>,
           if omitting_users (ds_Pools spec) = [] then [] else hd (omitting_users (ds_Pools spec)))"
    and "\<not> (\<exists>u. set (omitting_users (ds_Pools spec)) \<subseteq> {u}) \<Longrightarrow>
      \<exists>a b. DefaultAuthSecretRefs spec = Inl (ConflictingUsers a b) \<and> a \<noteq> b \<and>
        {a, b} \<subseteq> set (omitting_users (ds_Pools spec))"
proof -
  assume "\<exists>u. set (omitting_users (ds_Pools spec)) \<subseteq> {u}"
  with assms show "DefaultAuthSecretRefs spec =
      Inr (spec\<lparr>ds_Pools := map_vals (fill_ref (generated_ref (ds_ClusterRef spec))) (ds_Pools spec)\<rparr>,
           if omitting_users (ds_Pools spec) = [] then [] else hd (omitting_users (ds_Pools spec)))"
    by (simp add: DefaultAuthSecretRefs_def default_refs_ok)
next
  assume "\<not> (\<exists>u. set (omitting_users (ds_Pools spec)) \<subseteq> {u})"
  with default_refs_conflict [of "ds_Pools spec" "[]" "generated_ref (ds_ClusterRef spec)"] assms
  show "\<exists>a b. DefaultAuthSecretRefs spec = Inl (ConflictingUsers a b) \<and> a \<noteq> b \<and>
        {a, b} \<subseteq> set (omitting_users (ds_Pools spec))"
    by (auto simp: DefaultAuthSecretRefs_def)
qed

lemma crd_valid_users: "crd_valid spec \<Longrightarrow> [] \<notin> set (omitting_users (ds_Pools spec))"
  by (force simp: crd_valid_def omitting_users_def list_all_iff crd_pool_def crd_auth_query_def
      omits_ref_def auth_user_def split: option.splits)

lemma fill_ref_not_omits: "\<not> omits_ref (fill_ref ref p)"
  by (auto simp: fill_ref_def omits_ref_def split: option.splits)

lemma omitting_hd_nonempty:
  "[] \<notin> set (omitting_users ps) \<Longrightarrow> omitting_users ps \<noteq> [] \<Longrightarrow> hd (omitting_users ps) \<noteq> []"
  by (cases "omitting_users ps") auto

text \<open>\<open>DefaultAuthSecretRefs\<close> on a spec the API server admitted. It succeeds exactly when the
  pools that name no Secret agree on their user: every such pool, and no other field, then points
  at the generated Secret, no pool is left without a reference, and the returned user is the shared
  one (empty exactly when nothing was defaulted). Otherwise the error names two different users
  that do occur. The verdict depends on the set of users only, not on the range order.\<close>

theorem DefaultAuthSecretRefs_correct:
  assumes "crd_valid spec"
  shows "case DefaultAuthSecretRefs spec of
      Inr (normalized, user) \<Rightarrow>
        set (omitting_users (ds_Pools spec)) \<subseteq> {user} \<and>
        (user = [] \<longleftrightarrow> omitting_users (ds_Pools spec) = []) \<and>
        normalized = spec\<lparr>ds_Pools :=
          map_vals (fill_ref (generated_ref (ds_ClusterRef spec))) (ds_Pools spec)\<rparr> \<and>
        omitting_users (ds_Pools normalized) = []
    | Inl (ConflictingUsers a b) \<Rightarrow>
        a \<noteq> b \<and> a \<in> set (omitting_users (ds_Pools spec)) \<and> b \<in> set (omitting_users (ds_Pools spec))"
proof (cases "\<exists>u. set (omitting_users (ds_Pools spec)) \<subseteq> {u}")
  case True
  have "omitting_users (map_vals (fill_ref r) ps) = []" for r ps
    by (auto simp: omitting_users_def filter_empty_conv set_map_vals fill_ref_not_omits)
  moreover have "x = hd (omitting_users (ds_Pools spec))" if "x \<in> set (omitting_users (ds_Pools spec))" for x
    using True that by (cases "omitting_users (ds_Pools spec)") auto
  ultimately show ?thesis
    using True crd_valid_users [OF assms] omitting_hd_nonempty [OF crd_valid_users [OF assms]]
    by (auto simp: DefaultAuthSecretRefs_cases(1) [OF crd_valid_users [OF assms] True])
next
  case False
  from DefaultAuthSecretRefs_cases(2) [OF crd_valid_users [OF assms] False] show ?thesis
    by auto
qed

section \<open>Normalized specs\<close>

lemma crd_pool_fill [simp]: "crd_pool (fill_ref r p) = crd_pool p"
  by (auto simp: crd_pool_def fill_ref_def crd_auth_query_def omits_ref_def split: option.splits)

lemma crd_valid_normalized:
  assumes "crd_valid spec" "DefaultAuthSecretRefs spec = Inr (norm, user)"
  shows "crd_valid norm \<and> ds_ClusterRef norm = ds_ClusterRef spec"
proof -
  from DefaultAuthSecretRefs_correct [OF assms(1)] assms(2)
  have norm: "norm = spec\<lparr>ds_Pools := map_vals (fill_ref (generated_ref (ds_ClusterRef spec))) (ds_Pools spec)\<rparr>" by simp
  then show ?thesis using assms(1)
    by (auto simp: norm crd_valid_def list_all_iff map_vals_def wf_map_def comp_def case_prod_unfold)
qed

lemma crd_defaults:
  "crd_general g \<Longrightarrow> crd_general (default_general g)" "crd_pool p \<Longrightarrow> crd_pool (default_pool p)"
proof -
  have ptr: "crd_positive x \<Longrightarrow> 1 \<le> d \<Longrightarrow> crd_positive (or_ptr d x)" for x d
    by (cases x) (simp_all add: crd_positive_def)
  have str: "crd_duration x \<Longrightarrow> crd_duration d \<Longrightarrow> crd_duration (or_str d x)" for x d
    by (simp add: or_str_def)
  have durations: "crd_duration DefaultConnectTimeout" "crd_duration DefaultIdleTimeout" "crd_duration DefaultServerLifetime"
    "crd_duration DefaultShutdownTimeout" by code_simp+
  show "crd_general g \<Longrightarrow> crd_general (default_general g)"
    by (simp add: crd_general_def default_general_def ptr str durations DefaultMaxConnections_def DefaultWorkerThreads_def)
  have "crd_user (default_user u)" if "crd_user u" for u
    using that by (simp add: crd_user_def default_user_def ptr DefaultUserPoolSize_def)
  moreover have "crd_auth_query (default_auth_query a)" if "crd_auth_query a" for a
    using that by (simp add: crd_auth_query_def default_auth_query_def ptr DefaultAuthQueryPoolSize_def)
  ultimately show "crd_pool p \<Longrightarrow> crd_pool (default_pool p)"
    by (auto simp: crd_pool_def default_pool_def ptr DefaultDefaultPoolSize_def DefaultPoolMode_def or_str_def list_all_iff
        split: option.splits)
qed

lemma crd_valid_defaults: "crd_valid spec \<Longrightarrow> crd_valid (ApplyDefaults spec)"
proof -
  assume v: "crd_valid spec"
  have "crd_general GeneralSpec_zero" by (simp add: crd_general_def GeneralSpec_zero_def crd_positive_def crd_duration_def)
  with v show ?thesis
    by (auto simp: crd_valid_def ApplyDefaults_def crd_defaults list_all_iff map_vals_def wf_map_def comp_def case_prod_unfold
        split: option.splits)
qed

text \<open>(C17) Normalizing and defaulting stay within the CRD. For a spec the API server admitted whose generated references agree on a
  user, the normalized spec and its defaulted form are admitted again, every defaulted field of the latter is set, no auth
  query is left without a reference, and both operations leave the result alone.\<close>

theorem spec_pipeline_typed:
  assumes "crd_valid spec" "DefaultAuthSecretRefs spec = Inr (norm, user)"
  shows "crd_valid norm \<and> crd_valid (ApplyDefaults norm) \<and> complete_spec (ApplyDefaults norm) \<and>
    list_all (\<lambda>e. \<not> omits_ref (snd e)) (ds_Pools (ApplyDefaults norm)) \<and>
    DefaultAuthSecretRefs (ApplyDefaults norm) = Inr (ApplyDefaults norm, []) \<and>
    ApplyDefaults (ApplyDefaults norm) = ApplyDefaults norm"
proof -
  let ?d = "ApplyDefaults norm"
  have valid: "crd_valid norm" "crd_valid ?d" using crd_valid_normalized [OF assms] crd_valid_defaults by blast+
  have "omits_ref (default_pool p) = omits_ref p" for p
    by (auto simp: omits_ref_def default_pool_def default_auth_query_def split: option.splits)
  moreover have "omitting_users (ds_Pools norm) = []" using DefaultAuthSecretRefs_correct [OF assms(1)] assms(2) by auto
  ultimately have full: "\<not> omits_ref (snd e)" if "e \<in> set (ds_Pools ?d)" for e
    using that by (auto simp: omitting_users_def filter_empty_conv ApplyDefaults_def set_map_vals)
  then have none: "omitting_users (ds_Pools ?d) = []" by (auto simp: omitting_users_def filter_empty_conv)
  have "map_vals (fill_ref r) (ds_Pools ?d) = ds_Pools ?d" for r
    using full by (auto simp: map_vals_def fill_ref_def intro!: map_idI)
  then have "DefaultAuthSecretRefs ?d = Inr (?d, [])"
    using DefaultAuthSecretRefs_cases(1) [OF crd_valid_users [OF valid(2)]] none by simp
  with valid full ApplyDefaults_complete defaults.idem show ?thesis by (auto simp: list_all_iff)
qed

definition example_pool :: "string \<Rightarrow> PoolSpec" where
  "example_pool user =
     \<lparr>pl_PoolMode = [], pl_DefaultPoolSize = None,
      pl_AuthQuery = Some \<lparr>aq_User = user, aq_Query = [], aq_PasswordSecretRef = None, aq_Database = [],
        aq_PoolSize = None\<rparr>,
      pl_Users = []\<rparr>"

definition example_spec :: "string \<Rightarrow> PgDoormanSpec" where
  "example_spec user =
     \<lparr>ds_ClusterRef = ''pg'', ds_Pools = [(''app'', example_pool ''doorman''), (''rep'', example_pool user)],
      ds_General = None, ds_Prometheus = None\<rparr>"

lemma example_spec_valid: "user \<noteq> [] \<Longrightarrow> crd_valid (example_spec user)"
  by (simp add: crd_valid_def example_spec_def example_pool_def wf_map_def crd_pool_def
      crd_positive_def crd_auth_query_def)

theorem DefaultAuthSecretRefs_witness:
  "crd_valid (example_spec ''doorman'') \<and>
   (case DefaultAuthSecretRefs (example_spec ''doorman'') of Inl _ \<Rightarrow> False | Inr (n, u) \<Rightarrow> u = ''doorman'') \<and>
   crd_valid (example_spec ''other'') \<and>
   DefaultAuthSecretRefs (example_spec ''other'') = Inl (ConflictingUsers ''doorman'' ''other'')"
proof -
  have a: "crd_valid (example_spec ''doorman'')" and b: "crd_valid (example_spec ''other'')"
    by (simp_all add: example_spec_valid)
  show ?thesis
    using DefaultAuthSecretRefs_correct [OF a] DefaultAuthSecretRefs_correct [OF b] a b
    by (simp add: example_spec_def example_pool_def DefaultAuthSecretRefs_def default_refs_unfold
        omits_ref_def auth_user_def)
qed

theorem spec_pipeline_typed_witness:
  "crd_valid (example_spec ''doorman'') \<and> (\<exists>norm. DefaultAuthSecretRefs (example_spec ''doorman'') = Inr (norm, ''doorman'') \<and>
     crd_valid (ApplyDefaults norm) \<and> complete_spec (ApplyDefaults norm) \<and>
     DefaultAuthSecretRefs (ApplyDefaults norm) = Inr (ApplyDefaults norm, []))"
proof -
  have v: "crd_valid (example_spec ''doorman'')" by (simp add: example_spec_valid)
  obtain norm where n: "DefaultAuthSecretRefs (example_spec ''doorman'') = Inr (norm, ''doorman'')"
    by (simp add: example_spec_def example_pool_def DefaultAuthSecretRefs_def default_refs_unfold omits_ref_def auth_user_def)
  from v n spec_pipeline_typed [OF v n] show ?thesis by blast
qed

end
