(* ===== verification/Config_Gen.thy ===== *)
theory Config_Gen
  imports Specs Doorman_Config
begin

text \<open>
  Rendering of the configuration file: \<open>internal/configgen/configgen.go\<close>. The YAML encoder is a
  parameter (\<open>marshal\<close>); \<open>build_config\<close> is the value that \<open>Generate\<close> hands to it.

  The lemmas show that the configuration built from a spec the API server admitted always passes the
  wrapper's own validation once the static users have passwords, and when the keys of the password
  map tell two users apart.
\<close>

definition AdminPasswordKey :: string where "AdminPasswordKey = ''_admin/password''"

record TLSFiles =
  tf_Certificate :: string
  tf_PrivateKey :: string

definition PasswordKey :: "string \<Rightarrow> string \<Rightarrow> string \<Rightarrow> string" where
  "PasswordKey poolName kind username = poolName @ ''/'' @ kind @ ''/'' @ username"

text \<open>A missing key of a Go map reads as the zero value.\<close>

definition lookup_str :: "(string \<rightharpoonup> string) \<Rightarrow> string \<Rightarrow> string" where
  "lookup_str m k = (case m k of None \<Rightarrow> [] | Some v \<Rightarrow> v)"

definition gen_auth_query ::
  "(string \<rightharpoonup> string) \<Rightarrow> string \<Rightarrow> PoolSpec \<Rightarrow> AuthQuerySpec \<Rightarrow> AuthQueryConfig" where
  "gen_auth_query passwords poolName pool aq =
     \<lparr>ac_Query = aq_Query aq, ac_User = aq_User aq,
      ac_Password = lookup_str passwords (PasswordKey poolName ''auth_query'' (aq_User aq)),
      ac_Database = aq_Database aq, ac_Workers = aq_PoolSize aq, ac_PoolSize = pl_DefaultPoolSize pool,
      ac_CacheTTL = [], ac_CacheFailureTTL = [], ac_MinInterval = []\<rparr>"

definition gen_user :: "(string \<rightharpoonup> string) \<Rightarrow> string \<Rightarrow> UserSpec \<Rightarrow> UserConfig" where
  "gen_user passwords poolName user =
     \<lparr>uc_Username = us_Username user,
      uc_Password = lookup_str passwords (PasswordKey poolName ''user'' (us_Username user)),
      uc_PoolSize = us_PoolSize user\<rparr>"

definition gen_pool :: "(string \<rightharpoonup> string) \<Rightarrow> string \<Rightarrow> PoolSpec \<Rightarrow> PoolConfig" where
  "gen_pool passwords poolName pool =
     \<lparr>po_ServerHost = ''localhost'', po_ServerPort = 5432, po_PoolMode = pl_PoolMode pool,
      po_Users = map (gen_user passwords poolName) (pl_Users pool),
      po_AuthQuery = map_option (gen_auth_query passwords poolName pool) (pl_AuthQuery pool)\<rparr>"

definition gen_general ::
  "GeneralSpec \<Rightarrow> int \<Rightarrow> string \<Rightarrow> TLSFiles option \<Rightarrow> GeneralConfig" where
  "gen_general g poolerPort adminPassword tls =
     \<lparr>ge_Host = ''0.0.0.0'', ge_Port = poolerPort,
      ge_TLSCertificate = (case tls of None \<Rightarrow> [] | Some t \<Rightarrow> tf_Certificate t),
      ge_TLSPrivateKey = (case tls of None \<Rightarrow> [] | Some t \<Rightarrow> tf_PrivateKey t),
      ge_AdminUsername = gs_AdminUsername g, ge_AdminPassword = adminPassword,
      ge_WorkerThreads = gs_WorkerThreads g, ge_MaxConnections = gs_MaxConnections g,
      ge_ConnectTimeout = gs_ConnectTimeout g, ge_IdleTimeout = gs_IdleTimeout g,
      ge_ServerLifetime = gs_ServerLifetime g, ge_ShutdownTimeout = gs_ShutdownTimeout g\<rparr>"

text \<open>The configuration \<open>Generate\<close> builds. \<open>None\<close> is the nil-pointer panic of reading
  \<open>applied.General\<close> or \<open>*applied.Prometheus.Enabled\<close> when they are unset.\<close>

definition build_config ::
  "PgDoormanSpec \<Rightarrow> int \<Rightarrow> int \<Rightarrow> (string \<rightharpoonup> string) \<Rightarrow> TLSFiles option \<Rightarrow> DoormanConfig option" where
  "build_config spec poolerPort metricsPort passwords tls =
     (let applied = ApplyDefaults spec in
      case ds_General applied of
        None \<Rightarrow> None
      | Some g \<Rightarrow>
          (case (case ds_Prometheus applied of None \<Rightarrow> Some False | Some p \<Rightarrow> pr_Enabled p) of
             None \<Rightarrow> None
           | Some prom \<Rightarrow> Some
              \<lparr>dc_General = gen_general g poolerPort (lookup_str passwords AdminPasswordKey) tls,
               dc_Pools = map (\<lambda>(name, pool). (name, gen_pool passwords name pool)) (ds_Pools applied),
               dc_Prometheus =
                 (if prom then Some \<lparr>pm_Enabled = True, pm_Host = ''0.0.0.0'', pm_Port = metricsPort\<rparr>
                  else None)\<rparr>))"

definition Generate ::
  "(DoormanConfig \<Rightarrow> string + string) \<Rightarrow> PgDoormanSpec \<Rightarrow> int \<Rightarrow> int \<Rightarrow> (string \<rightharpoonup> string) \<Rightarrow>
   TLSFiles option \<Rightarrow> (string + string) option" where
  "Generate marshal spec poolerPort metricsPort passwords tls =
     map_option marshal (build_config spec poolerPort metricsPort passwords tls)"

definition EnsureAdminPassword :: "(string \<rightharpoonup> string) \<Rightarrow> string \<Rightarrow> (string \<rightharpoonup> string)" where
  "EnsureAdminPassword passwords fallback =
     (if passwords AdminPasswordKey \<noteq> None then passwords else passwords(AdminPasswordKey \<mapsto> fallback))"

section \<open>The generated configuration is valid\<close>

definition users_have_passwords :: "(string \<rightharpoonup> string) \<Rightarrow> PgDoormanSpec \<Rightarrow> bool" where
  "users_have_passwords passwords spec \<longleftrightarrow>
     list_all (\<lambda>(name, pool). list_all
       (\<lambda>u. lookup_str passwords (PasswordKey name ''user'' (us_Username u)) \<noteq> []) (pl_Users pool))
       (ds_Pools spec)"

lemma build_config_total: "\<exists>cfg. build_config spec pp mp passwords tls = Some cfg"
  using ApplyDefaults_complete [of spec]
  by (auto simp: build_config_def complete_spec_def Let_def split: option.splits)

lemma crd_positive_or_ptr: "crd_positive p \<Longrightarrow> 1 \<le> d \<Longrightarrow> positive_ok (or_ptr d p)"
  by (auto simp: crd_positive_def positive_ok_def or_ptr_def split: option.splits)

lemma crd_duration_or_str: "crd_duration s \<Longrightarrow> duration_ok d \<Longrightarrow> duration_ok (or_str d s)"
  by (auto simp: crd_duration_def or_str_def duration_ok_digits)

lemma default_durations_ok:
  "duration_ok DefaultConnectTimeout" "duration_ok DefaultIdleTimeout"
  "duration_ok DefaultServerLifetime" "duration_ok DefaultShutdownTimeout"
  by (auto intro!: duration_ok_digits simp: api_constants digits_unit_def is_digit_def)

lemma general_ok_gen:
  "crd_general g \<Longrightarrow> general_ok (gen_general (default_general g) pp pw tls)"
  by (auto simp: crd_general_def general_ok_def gen_general_def default_general_def
      crd_positive_or_ptr crd_duration_or_str default_durations_ok api_constants(7,8))

lemma crd_general_zero: "crd_general GeneralSpec_zero"
  by (simp add: crd_general_def GeneralSpec_zero_def crd_positive_def crd_duration_def)

lemma pool_ok_gen:
  assumes "crd_pool p"
    and "\<And>u. u \<in> set (pl_Users p) \<Longrightarrow>
      lookup_str passwords (PasswordKey n ''user'' (us_Username u)) \<noteq> []"
  shows "pool_ok (gen_pool passwords n (default_pool p))"
proof -
  have "user_ok (gen_user passwords n (default_user u))" if "u \<in> set (pl_Users p)" for u
    using assms that
    by (auto simp: user_ok_def gen_user_def default_user_def crd_pool_def crd_user_def list_all_iff
        crd_positive_or_ptr DefaultUserPoolSize_def)
  moreover have "auth_query_ok (gen_auth_query passwords n (default_pool p) (default_auth_query a))"
    if "pl_AuthQuery p = Some a" for a
    using assms(1) that
    by (auto simp: auth_query_ok_def gen_auth_query_def default_auth_query_def default_pool_fields
        crd_pool_def crd_auth_query_def crd_positive_or_ptr duration_ok_def api_constants)
  ultimately show ?thesis
    using assms(1)
    by (auto simp: pool_ok_def gen_pool_def crd_pool_def default_pool_fields list_all_iff
        DefaultPoolMode_def or_str_def split: option.splits)
qed

lemma build_config_ok:
  assumes "crd_valid spec" and "users_have_passwords passwords spec"
    and "build_config spec pp mp passwords tls = Some cfg"
  shows "config_ok cfg"
proof -
  have "general_ok (dc_General cfg)"
    using assms(1,3) general_ok_gen crd_general_zero
    by (auto simp: build_config_def ApplyDefaults_def crd_valid_def Let_def split: option.splits)
  moreover have "dc_Pools cfg = map (\<lambda>(n, p). (n, gen_pool passwords n (default_pool p))) (ds_Pools spec)"
    using assms(3)
    by (auto simp: build_config_def ApplyDefaults_def map_vals_def Let_def split: option.splits)
  moreover have "pool_ok (gen_pool passwords n (default_pool p))" if "(n, p) \<in> set (ds_Pools spec)" for n p
    using assms(1,2) that
    by (intro pool_ok_gen) (force simp: crd_valid_def users_have_passwords_def list_all_iff)+
  ultimately show ?thesis
    using assms(1) by (auto simp: config_ok_def crd_valid_def list_all_iff)
qed

text \<open>(C6) Rendering never panics and its result passes the wrapper's validation. For a spec the API
  server admitted, whose static users have non-empty resolved passwords, and a YAML codec that
  decodes what it encoded for this configuration, \<open>Generate\<close> returns bytes that
  \<open>ValidateConfigBytes\<close> accepts, in every range order, as the configuration that was built.\<close>

theorem Generate_validates:
  assumes "crd_valid spec" and "users_have_passwords passwords spec"
    and "\<And>cfg. build_config spec pp mp passwords tls = Some cfg \<Longrightarrow> unmarshal (enc cfg) = Inr cfg"
  shows "\<exists>cfg. build_config spec pp mp passwords tls = Some cfg \<and>
    Generate (Inr \<circ> enc) spec pp mp passwords tls = Some (Inr (enc cfg)) \<and>
    ValidateConfigBytes unmarshal rank (enc cfg) = Inr cfg"
proof -
  obtain cfg where cfg: "build_config spec pp mp passwords tls = Some cfg"
    using build_config_total by blast
  with assms have "config_ok cfg" and "unmarshal (enc cfg) = Inr cfg"
    by (auto intro: build_config_ok)
  with cfg show ?thesis by (auto simp: Generate_def ValidateConfigBytes_ok)
qed

definition example_config :: DoormanConfig where
  "example_config = the (build_config (example_spec ''doorman'') 6432 9127 Map.empty None)"

theorem Generate_validates_witness:
  "crd_valid (example_spec ''doorman'') \<and>
   users_have_passwords Map.empty (example_spec ''doorman'') \<and>
   (\<exists>cfg. build_config (example_spec ''doorman'') 6432 9127 Map.empty None = Some cfg \<and>
    Generate (Inr \<circ> (\<lambda>_. ''yaml'')) (example_spec ''doorman'') 6432 9127 Map.empty None = Some (Inr ''yaml'') \<and>
    ValidateConfigBytes (\<lambda>s. if s = ''yaml'' then Inr example_config else Inl ''bad'') (\<lambda>_. 0) ''yaml'' = Inr cfg)"
proof -
  let ?unm = "\<lambda>s. if s = ''yaml'' then Inr example_config else Inl ''bad''"
  have v: "crd_valid (example_spec ''doorman'')" by (simp add: example_spec_valid)
  have u: "users_have_passwords Map.empty (example_spec ''doorman'')"
    by (simp add: users_have_passwords_def example_spec_def example_pool_def)
  have c: "?unm ((\<lambda>_. ''yaml'') cfg) = Inr cfg"
    if "build_config (example_spec ''doorman'') 6432 9127 Map.empty None = Some cfg" for cfg
    using that by (simp add: example_config_def)
  show ?thesis
    using v u Generate_validates [OF v u, of 6432 9127 None ?unm "\<lambda>_. ''yaml''" "\<lambda>_. 0", OF c] by simp
qed

section \<open>Keys of the password map\<close>

lemma PasswordKey_takeWhile:
  assumes "CHR ''/'' \<notin> set p"
  shows "takeWhile (\<lambda>c. c \<noteq> CHR ''/'') (p @ ''/'' @ r) = p"
    and "dropWhile (\<lambda>c. c \<noteq> CHR ''/'') (p @ ''/'' @ r) = CHR ''/'' # r"
  using assms by (induction p) auto

lemma PasswordKey_inject:
  assumes "CHR ''/'' \<notin> set p" "CHR ''/'' \<notin> set p'" "CHR ''/'' \<notin> set k" "CHR ''/'' \<notin> set k'"
    and "PasswordKey p k u = PasswordKey p' k' u'"
  shows "p = p' \<and> k = k' \<and> u = u'"
proof -
  have eq: "p @ ''/'' @ (k @ ''/'' @ u) = p' @ ''/'' @ (k' @ ''/'' @ u')"
    using assms(5) by (simp add: PasswordKey_def)
  have p: "p = p'"
    using PasswordKey_takeWhile(1) [OF assms(1)] PasswordKey_takeWhile(1) [OF assms(2)] eq by metis
  with eq have eq2: "k @ ''/'' @ u = k' @ ''/'' @ u'" by simp
  have k: "k = k'"
    using PasswordKey_takeWhile(1) [OF assms(3)] PasswordKey_takeWhile(1) [OF assms(4)] eq2 by metis
  with eq2 p show ?thesis by simp
qed

lemma PasswordKey_not_admin:
  assumes "CHR ''/'' \<notin> set k"
  shows "PasswordKey p k u \<noteq> AdminPasswordKey"
proof
  assume "PasswordKey p k u = AdminPasswordKey"
  then have "count_list (PasswordKey p k u) (CHR ''/'') = count_list AdminPasswordKey (CHR ''/'')"
    by simp
  then show False by (simp add: PasswordKey_def AdminPasswordKey_def)
qed

end
