(* ===== verification/Process.thy ===== *)
theory Process
  imports File_Watcher Go_Time Config_Gen
begin

text \<open>
  The supervised process: \<open>internal/wrapper/process.go\<close> without its main loop (which is in \<open>Supervisor\<close>) and
  the scan of \<^verbatim>\<open>/proc\<close> in \<open>internal/wrapper/successor_linux.go\<close>.

  The state extends the wrapper's files with the fields of \<open>Process\<close> and a log of the calls made to the
  operating system. The operating system is the parameter \<open>proc_env\<close>: what a \<open>kill\<close>, a start, a \<open>wait4\<close>, a read of
  the clock or of \<^verbatim>\<open>/proc\<close> answers may depend on the whole log. The mutex makes each method one atomic
  step; \<open>killAdopted\<close>, which releases it before the system call, is split in two for \<open>Supervisor\<close>.
\<close>

section \<open>Constants\<close>

definition initialBackoff :: int where "initialBackoff = 1 * Second"
definition maxBackoff :: int where "maxBackoff = 30 * Second"
definition backoffMultiplier :: int where "backoffMultiplier = 2"
definition backoffResetUptime :: int where "backoffResetUptime = 60 * Second"
definition defaultShutdownTimeout :: int where "defaultShutdownTimeout = 10 * Second"
definition shutdownWaitMargin :: int where "shutdownWaitMargin = 5 * Second"
definition successorSearchTimeout :: int where "successorSearchTimeout = 5 * Second"
definition successorPollInterval :: int where "successorPollInterval = 200 * Millisecond"
definition adoptedLivenessInterval :: int where "adoptedLivenessInterval = 200 * Millisecond"

lemmas backoff_constants =
  initialBackoff_def maxBackoff_def backoffMultiplier_def backoffResetUptime_def Second_def

section \<open>The operating system\<close>

datatype signal = SIGTERM | SIGKILL | SIGHUP | SIGUSR2 | SIG0

datatype kill_result = KillOk | ESRCH | KillErr string

datatype wait_result = EINTR | ECHILD | WaitErr string | Exited int bool

record proc_entry =
  pe_Name :: string
  pe_Cmdline :: "string option"
  pe_Exe :: "string option"

datatype pevent =
    Kill int signal kill_result
  | Started "string + int"
  | Wait4 int wait_result
  | Clock int
  | Slept int
  | ReadProc "proc_entry list option"
  | ChildExit int
  | Adopted int

record proc_env =
  px_configPath :: string
  px_binary :: string
  px_waitMargin :: int
  px_successorTimeout :: int
  px_self :: int
  px_disk :: disk
  px_unmarshal :: "string \<Rightarrow> string + DoormanConfig"
  px_frac :: "nat \<Rightarrow> nat \<Rightarrow> nat \<Rightarrow> nat"
  px_kill :: "pevent list \<Rightarrow> int \<Rightarrow> signal \<Rightarrow> kill_result"
  px_start :: "pevent list \<Rightarrow> string + int"
  px_wait4 :: "pevent list \<Rightarrow> int \<Rightarrow> wait_result"
  px_now :: "pevent list \<Rightarrow> int"
  px_proc :: "pevent list \<Rightarrow> proc_entry list option"
  px_done :: "pevent list \<Rightarrow> bool"

record cmd =
  cm_Pid :: "int option"
  cm_WaitDelay :: int

record process = sys +
  p_cmd :: "cmd option"
  p_adoptedPid :: int
  p_upgradeRequested :: bool
  p_upgradeRequestedAt :: int
  p_log :: "pevent list"

datatype proc_error =
    NotRunning
  | NotStarted
  | KillFailed kill_result
  | StartFailed string
  | Wait4Failed int string
  | AdoptedExited int bool
  | AdoptedNotChild int
  | StillAlive int

type_synonym 'a proc = "(process, proc_error, 'a) st"

definition log_ev :: "pevent \<Rightarrow> process \<Rightarrow> process" where
  "log_ev e s = s\<lparr>p_log := p_log s @ [e]\<rparr>"

definition sys_kill :: "proc_env \<Rightarrow> int \<Rightarrow> signal \<Rightarrow> process \<Rightarrow> kill_result \<times> process" where
  "sys_kill P pid sig s = (let r = px_kill P (p_log s) pid sig in (r, log_ev (Kill pid sig r) s))"

definition now :: "proc_env \<Rightarrow> process \<Rightarrow> int \<times> process" where
  "now P s = (let t = px_now P (p_log s) in (t, log_ev (Clock t) s))"

definition sleep :: "int \<Rightarrow> process \<Rightarrow> process" where
  "sleep d s = log_ev (Slept d) s"

section \<open>Starting and signalling\<close>

definition waitDelay :: "proc_env \<Rightarrow> process \<Rightarrow> int \<times> process" where
  "waitDelay P s =
     (case ReadFile (px_disk P) (px_configPath P) s of
        (Inl _, s') \<Rightarrow> (wrap64 (defaultShutdownTimeout + px_waitMargin P), s')
      | (Inr data, s') \<Rightarrow>
          (wrap64 ((case px_unmarshal P data of
              Inl _ \<Rightarrow> defaultShutdownTimeout
            | Inr cfg \<Rightarrow>
                (case ParseDuration (px_frac P) (ge_ShutdownTimeout (dc_General cfg)) of
                   None \<Rightarrow> defaultShutdownTimeout | Some d \<Rightarrow> d)) + px_waitMargin P), s'))"

definition Start :: "proc_env \<Rightarrow> unit proc" where
  "Start P s =
     (let (delay, s1) = waitDelay P s;
          r = (if px_done P (p_log s1) then Inl ''context canceled'' else px_start P (p_log s1));
          s2 = log_ev (Started r) (s1\<lparr>p_adoptedPid := 0\<rparr>)
      in case r of
           Inl e \<Rightarrow> (Inl (StartFailed e), s2\<lparr>p_cmd := Some \<lparr>cm_Pid = None, cm_WaitDelay = delay\<rparr>\<rparr>)
         | Inr pid \<Rightarrow> (Inr (), s2\<lparr>p_cmd := Some \<lparr>cm_Pid = Some pid, cm_WaitDelay = delay\<rparr>\<rparr>))"

definition pidLocked :: "process \<Rightarrow> int" where
  "pidLocked s =
     (if p_adoptedPid s \<noteq> 0 then p_adoptedPid s
      else (case p_cmd s of
              None \<Rightarrow> 0
            | Some c \<Rightarrow> (case cm_Pid c of None \<Rightarrow> 0 | Some pid \<Rightarrow> pid)))"

definition signalLocked :: "proc_env \<Rightarrow> signal \<Rightarrow> unit proc" where
  "signalLocked P sig s =
     (let pid = pidLocked s in
      if pid = 0 then (Inl NotRunning, s)
      else (case sys_kill P pid sig s of
              (KillOk, s') \<Rightarrow> (Inr (), s') | (r, s') \<Rightarrow> (Inl (KillFailed r), s')))"

definition Restart :: "proc_env \<Rightarrow> unit proc" where
  "Restart P s = (if pidLocked s = 0 then (Inl NotRunning, s) else signalLocked P SIGTERM s)"

definition Reload :: "proc_env \<Rightarrow> unit proc" where
  "Reload P s = (if pidLocked s = 0 then (Inl NotRunning, s) else signalLocked P SIGHUP s)"

definition Upgrade :: "proc_env \<Rightarrow> unit proc" where
  "Upgrade P =
     bindS (signalLocked P SIGUSR2) (\<lambda>_ s.
       let (t, s') = now P s
       in (Inr (), s'\<lparr>p_upgradeRequested := True, p_upgradeRequestedAt := t\<rparr>))"

definition upgradeRequestFreshLocked :: "proc_env \<Rightarrow> process \<Rightarrow> bool \<times> process" where
  "upgradeRequestFreshLocked P s =
     (if \<not> p_upgradeRequested s then (False, s)
      else
        let (t, s1) = now P s;
            (delay, s2) = waitDelay P s1
        in (t - p_upgradeRequestedAt s \<le> wrap64 (delay + px_successorTimeout P), s2))"

definition consumeUpgradeRequest :: "proc_env \<Rightarrow> process \<Rightarrow> bool \<times> process" where
  "consumeUpgradeRequest P s =
     (let (fresh, s') = upgradeRequestFreshLocked P s in (fresh, s'\<lparr>p_upgradeRequested := False\<rparr>))"

definition UpgradeInFlight :: "proc_env \<Rightarrow> process \<Rightarrow> bool \<times> process" where
  "UpgradeInFlight P s = upgradeRequestFreshLocked P s"

text \<open>\<open>killAdopted\<close> reads the supervised pid under the mutex and sends the signal after releasing it.\<close>

definition killAdopted_check :: "int \<Rightarrow> process \<Rightarrow> bool" where
  "killAdopted_check pid s = (p_adoptedPid s = pid)"

definition killAdopted :: "proc_env \<Rightarrow> int \<Rightarrow> signal \<Rightarrow> process \<Rightarrow> process" where
  "killAdopted P pid sig s = (if killAdopted_check pid s then snd (sys_kill P pid sig s) else s)"

text \<open>\<open>terminateIfAdopted\<close>: the second component is the delay and pid of the SIGKILL timer it arms.\<close>

definition terminateIfAdopted :: "proc_env \<Rightarrow> process \<Rightarrow> (int \<times> int) option \<times> process" where
  "terminateIfAdopted P s =
     (let pid = p_adoptedPid s in
      if pid = 0 then (None, s)
      else
        let s1 = killAdopted P pid SIGTERM s;
            (delay, s2) = waitDelay P s1
        in (Some (delay, pid), s2))"

section \<open>Waiting\<close>

text \<open>The polling loops run as long as the operating system keeps them; \<open>fuel\<close> bounds the iterations and
  \<open>None\<close> means that it ran out.\<close>

text \<open>One round of \<open>waitUntilGone\<close>: \<open>Inl\<close> is the error it returns, \<open>Inr\<close> the deadline it goes on with.\<close>

definition gone_poll :: "proc_env \<Rightarrow> int \<Rightarrow> int \<Rightarrow> int option \<Rightarrow> process \<Rightarrow> (proc_error + int option) \<times> process" where
  "gone_poll P pid drain giveUp s =
     (case sys_kill P pid SIG0 s of
        (ESRCH, s1) \<Rightarrow> (Inl (AdoptedNotChild pid), s1)
      | (_, s1) \<Rightarrow>
          let (giveUp1, s2) =
                (if giveUp = None \<and> px_done P (p_log s1)
                 then (let (t, s') = now P s1 in (Some (t + drain), s')) else (giveUp, s1))
          in case giveUp1 of
               None \<Rightarrow> (Inr None, sleep adoptedLivenessInterval s2)
             | Some deadline \<Rightarrow>
                 let (t, s3) = now P s2 in
                 if t > deadline then (Inl (StillAlive pid), s3)
                 else (Inr (Some deadline), sleep adoptedLivenessInterval s3))"

fun waitUntilGone :: "nat \<Rightarrow> proc_env \<Rightarrow> int \<Rightarrow> int \<Rightarrow> int option \<Rightarrow> process \<Rightarrow> (proc_error \<times> process) option" where
  "waitUntilGone 0 P pid drain giveUp s = None"
| "waitUntilGone (Suc fuel) P pid drain giveUp s =
     (case gone_poll P pid drain giveUp s of
        (Inl e, s1) \<Rightarrow> Some (e, s1)
      | (Inr giveUp1, s1) \<Rightarrow> waitUntilGone fuel P pid drain giveUp1 s1)"

fun waitPid :: "nat \<Rightarrow> proc_env \<Rightarrow> int \<Rightarrow> int \<Rightarrow> process \<Rightarrow> ((proc_error + unit) \<times> process) option" where
  "waitPid 0 P pid drain s = None"
| "waitPid (Suc fuel) P pid drain s =
     (let r = px_wait4 P (p_log s) pid;
          s1 = log_ev (Wait4 pid r) s
      in case r of
           EINTR \<Rightarrow> waitPid fuel P pid drain s1
         | ECHILD \<Rightarrow> map_option (\<lambda>(e, s2). (Inl e, s2)) (waitUntilGone fuel P pid drain None s1)
         | WaitErr e \<Rightarrow> Some (Inl (Wait4Failed pid e), s1)
         | Exited status signaled \<Rightarrow>
             if status \<noteq> 0 \<or> signaled then Some (Inl (AdoptedExited status signaled), s1)
             else Some (Inr (), s1))"

text \<open>The adopted branch of \<open>waitCtx\<close>; a direct child is waited for by \<open>exec.Cmd\<close>.\<close>

definition waitCtx_adopted :: "nat \<Rightarrow> proc_env \<Rightarrow> process \<Rightarrow> ((proc_error + unit) \<times> process) option" where
  "waitCtx_adopted fuel P s =
     (let adopted = p_adoptedPid s;
          (delay, s1) = waitDelay P s
      in map_option (\<lambda>(r, s2).
           (r, if p_adoptedPid s2 = adopted then s2\<lparr>p_adoptedPid := 0\<rparr> else s2))
           (waitPid fuel P adopted delay s1))"

section \<open>The scan of the process table\<close>

definition ValidateConfigFlag :: string where "ValidateConfigFlag = ''--test-config''"
definition validateConfigShortFlag :: string where "validateConfigShortFlag = ''-t''"

definition readCmdline :: "proc_entry \<Rightarrow> string list option" where
  "readCmdline e =
     (case pe_Cmdline e of
        None \<Rightarrow> None
      | Some data \<Rightarrow>
          if data = [] then None
          else Some (split_at (CHR 0x00) (TrimSuffix data [CHR 0x00])))"

definition runsBinary :: "proc_entry \<Rightarrow> string \<Rightarrow> bool" where
  "runsBinary e binaryPath =
     (case readCmdline e of
        None \<Rightarrow> False
      | Some args \<Rightarrow>
          if ValidateConfigFlag \<in> set args \<or> validateConfigShortFlag \<in> set args then False
          else if (case pe_Exe e of None \<Rightarrow> False | Some exe \<Rightarrow> TrimSuffix exe '' (deleted)'' = binaryPath) then True
          else binaryPath \<in> set (take (min 2 (length args)) args))"

definition pid_of :: "proc_env \<Rightarrow> int \<Rightarrow> proc_entry \<Rightarrow> int option" where
  "pid_of P excludePid e =
     (case Atoi (pe_Name e) of
        None \<Rightarrow> None
      | Some pid \<Rightarrow> if pid = excludePid \<or> pid = px_self P then None else Some pid)"

fun scan_entries :: "proc_env \<Rightarrow> string \<Rightarrow> int \<Rightarrow> proc_entry list \<Rightarrow> int option" where
  "scan_entries P binaryPath excludePid [] = None"
| "scan_entries P binaryPath excludePid (e # es) =
     (case pid_of P excludePid e of
        None \<Rightarrow> scan_entries P binaryPath excludePid es
      | Some pid \<Rightarrow> if runsBinary e binaryPath then Some pid else scan_entries P binaryPath excludePid es)"

definition findSuccessorPid :: "proc_env \<Rightarrow> string \<Rightarrow> int \<Rightarrow> process \<Rightarrow> int option \<times> process" where
  "findSuccessorPid P binaryPath excludePid s =
     (let r = px_proc P (p_log s);
          s1 = log_ev (ReadProc r) s
      in (case r of None \<Rightarrow> None | Some es \<Rightarrow> scan_entries P binaryPath excludePid es, s1))"

fun kill_entries :: "proc_env \<Rightarrow> string \<Rightarrow> int \<Rightarrow> proc_entry list \<Rightarrow> process \<Rightarrow> int list \<times> process" where
  "kill_entries P binaryPath excludePid [] s = ([], s)"
| "kill_entries P binaryPath excludePid (e # es) s =
     (case pid_of P excludePid e of
        None \<Rightarrow> kill_entries P binaryPath excludePid es s
      | Some pid \<Rightarrow>
          if \<not> runsBinary e binaryPath then kill_entries P binaryPath excludePid es s
          else
            let (r, s1) = sys_kill P pid SIGKILL s;
                (killed, s2) = kill_entries P binaryPath excludePid es s1
            in (if r = KillOk then pid # killed else killed, s2))"

definition killStrays :: "proc_env \<Rightarrow> string \<Rightarrow> int \<Rightarrow> process \<Rightarrow> int list \<times> process" where
  "killStrays P binaryPath excludePid s =
     (let r = px_proc P (p_log s);
          s1 = log_ev (ReadProc r) s
      in case r of None \<Rightarrow> ([], s1) | Some es \<Rightarrow> kill_entries P binaryPath excludePid es s1)"

definition sweepStrays :: "proc_env \<Rightarrow> process \<Rightarrow> process" where
  "sweepStrays P s = snd (killStrays P (px_binary P) 0 s)"

section \<open>Adoption\<close>

text \<open>One round of \<open>adoptSuccessor\<close>: \<open>Some\<close> is the value it returns.\<close>

definition adopt_poll :: "proc_env \<Rightarrow> int \<Rightarrow> int \<Rightarrow> process \<Rightarrow> bool option \<times> process" where
  "adopt_poll P oldPid deadline s =
     (case findSuccessorPid P (px_binary P) oldPid s of
        (Some pid, s1) \<Rightarrow> (Some True, log_ev (Adopted pid) (s1\<lparr>p_cmd := None, p_adoptedPid := pid\<rparr>))
      | (None, s1) \<Rightarrow>
          let (t, s2) = now P s1 in
          if t > deadline then (Some False, s2)
          else if px_done P (p_log s2) then (Some False, s2)
          else (None, sleep successorPollInterval s2))"

fun adopt_loop :: "nat \<Rightarrow> proc_env \<Rightarrow> int \<Rightarrow> int \<Rightarrow> process \<Rightarrow> (bool \<times> process) option" where
  "adopt_loop 0 P oldPid deadline s = None"
| "adopt_loop (Suc fuel) P oldPid deadline s =
     (case adopt_poll P oldPid deadline s of
        (Some adopted, s1) \<Rightarrow> Some (adopted, s1)
      | (None, s1) \<Rightarrow> adopt_loop fuel P oldPid deadline s1)"

definition adoptSuccessor :: "nat \<Rightarrow> proc_env \<Rightarrow> int \<Rightarrow> process \<Rightarrow> (bool \<times> process) option" where
  "adoptSuccessor fuel P oldPid s =
     (let (t, s1) = now P s in adopt_loop fuel P oldPid (t + px_successorTimeout P) s1)"

section \<open>Back-off\<close>

definition backoffAfterExit :: "int \<Rightarrow> int \<Rightarrow> int" where
  "backoffAfterExit current uptime =
     (if uptime \<ge> backoffResetUptime then initialBackoff
      else min (wrap64 (current * backoffMultiplier)) maxBackoff)"

section \<open>Signals leave files alone\<close>

lemma log_ev_fields [simp]:
  "sy_fs (log_ev e s) = sy_fs s" "p_cmd (log_ev e s) = p_cmd s" "p_adoptedPid (log_ev e s) = p_adoptedPid s"
  "p_upgradeRequested (log_ev e s) = p_upgradeRequested s" "p_upgradeRequestedAt (log_ev e s) = p_upgradeRequestedAt s"
  "p_log (log_ev e s) = p_log s @ [e]" "pidLocked (log_ev e s) = pidLocked s"
  by (simp_all add: log_ev_def pidLocked_def)

lemma signalLocked_files: "sy_fs (snd (signalLocked P sig s)) = sy_fs s"
  by (auto simp: signalLocked_def sys_kill_def Let_def split: kill_result.split)

interpretation process_signals: reloader "Reload P" "Restart P" for P
  by unfold_locales (auto simp: Reload_def Restart_def signalLocked_files)

text \<open>The watcher over the real process keeps its invariant.\<close>

interpretation fw_run: invariant_system "fw_init V" "fw_step V (Reload P) (Restart P)" "fw_inv V"
  for V :: "'k watch_env" and P
  by unfold_locales (auto intro: fw_init_inv process_signals.fw_step_inv)


section \<open>Upgrade requests\<close>

text \<open>An upgrade request explains at most one exit: the check after an exit consumes it, so a second
  check without a new request reports none, and no upgrade is in flight any more; a request older than the
  drain plus the search window is not reported at all.\<close>

theorem upgrade_request_consumed:
  "\<not> fst (consumeUpgradeRequest P (snd (consumeUpgradeRequest P s))) \<and>
   \<not> fst (UpgradeInFlight P (snd (consumeUpgradeRequest P s))) \<and>
   (fst (consumeUpgradeRequest P s) \<longleftrightarrow>
      p_upgradeRequested s \<and>
      px_now P (p_log s) - p_upgradeRequestedAt s \<le>
        wrap64 (fst (waitDelay P (snd (now P s))) + px_successorTimeout P))"
  by (auto simp: consumeUpgradeRequest_def UpgradeInFlight_def upgradeRequestFreshLocked_def now_def Let_def
      split: prod.split)

section \<open>The process table\<close>

definition is_pooler :: "proc_env \<Rightarrow> string \<Rightarrow> int \<Rightarrow> proc_entry \<Rightarrow> int \<Rightarrow> bool" where
  "is_pooler P binaryPath excludePid e pid \<longleftrightarrow>
     Atoi (pe_Name e) = Some pid \<and> pid \<noteq> excludePid \<and> pid \<noteq> px_self P \<and> runsBinary e binaryPath"

lemma pid_of_iff: "pid_of P x e = Some pid \<longleftrightarrow> Atoi (pe_Name e) = Some pid \<and> pid \<noteq> x \<and> pid \<noteq> px_self P"
  by (auto simp: pid_of_def split: option.split)

lemma scan_entries_Some:
  "scan_entries P b x es = Some pid \<Longrightarrow> \<exists>e \<in> set es. is_pooler P b x e pid"
  by (induction es) (auto simp: is_pooler_def pid_of_iff split: option.splits if_splits)

lemma scan_entries_None:
  "scan_entries P b x es = None \<longleftrightarrow> (\<forall>e \<in> set es. \<forall>pid. \<not> is_pooler P b x e pid)"
proof (induction es)
  case (Cons e es)
  then show ?case
    by (cases "pid_of P x e") (auto simp: is_pooler_def pid_of_iff pid_of_def split: option.splits if_splits)
qed simp

lemma runsBinary_args:
  "runsBinary e b \<Longrightarrow> \<exists>args. readCmdline e = Some args \<and> ValidateConfigFlag \<notin> set args \<and> validateConfigShortFlag \<notin> set args"
  by (auto simp: runsBinary_def split: option.splits if_splits)

text \<open>The successor scan is sound and complete over the table it read: it returns a pid exactly when some
  entry is a process of the runtime binary other than the wrapper and the old process, the pid is such an
  entry's, and a configuration test run of the same binary is never one.\<close>

theorem findSuccessorPid_correct:
  assumes "px_proc P (p_log s) = Some es"
  shows "case fst (findSuccessorPid P b old s) of
      None \<Rightarrow> \<forall>e \<in> set es. \<forall>pid. \<not> is_pooler P b old e pid
    | Some pid \<Rightarrow> \<exists>e \<in> set es. is_pooler P b old e pid \<and> pid \<noteq> old \<and> pid \<noteq> px_self P \<and>
        (\<exists>args. readCmdline e = Some args \<and> ValidateConfigFlag \<notin> set args)"
proof (cases "scan_entries P b old es")
  case None
  with assms scan_entries_None [of P b old es] show ?thesis
    by (simp add: findSuccessorPid_def Let_def)
next
  case (Some pid)
  from scan_entries_Some [OF Some] obtain e where e: "e \<in> set es" "is_pooler P b old e pid" by blast
  with runsBinary_args [of e b] have "\<exists>args. readCmdline e = Some args \<and> ValidateConfigFlag \<notin> set args"
    by (auto simp: is_pooler_def)
  with e assms Some show ?thesis
    by (auto simp: findSuccessorPid_def Let_def is_pooler_def)
qed

lemma kill_entries_log:
  "\<exists>ks. p_log (snd (kill_entries P b x es s)) = p_log s @ ks \<and>
     (\<forall>k \<in> set ks. \<exists>e \<in> set es. \<exists>pid r. k = Kill pid SIGKILL r \<and> is_pooler P b x e pid) \<and>
     (\<forall>e \<in> set es. \<forall>pid. is_pooler P b x e pid \<longrightarrow> (\<exists>r. Kill pid SIGKILL r \<in> set ks)) \<and>
     set (fst (kill_entries P b x es s)) = {pid. Kill pid SIGKILL KillOk \<in> set ks}"
proof (induction es arbitrary: s)
  case (Cons e es)
  show ?case
  proof (cases "\<exists>pid. is_pooler P b x e pid")
    case True
    then obtain pid where pid: "is_pooler P b x e pid" by blast
    then have eq: "pid_of P x e = Some pid" "runsBinary e b" "\<And>q. is_pooler P b x e q \<longleftrightarrow> q = pid"
      by (auto simp: is_pooler_def pid_of_iff)
    let ?r = "px_kill P (p_log s) pid SIGKILL" and ?s1 = "log_ev (Kill pid SIGKILL (px_kill P (p_log s) pid SIGKILL)) s"
    from Cons.IH [of ?s1] obtain ks where ks: "p_log (snd (kill_entries P b x es ?s1)) = p_log ?s1 @ ks"
      "\<forall>k \<in> set ks. \<exists>e \<in> set es. \<exists>pid r. k = Kill pid SIGKILL r \<and> is_pooler P b x e pid"
      "\<forall>e \<in> set es. \<forall>pid. is_pooler P b x e pid \<longrightarrow> (\<exists>r. Kill pid SIGKILL r \<in> set ks)"
      "set (fst (kill_entries P b x es ?s1)) = {pid. Kill pid SIGKILL KillOk \<in> set ks}" by blast
    show ?thesis
      using ks eq
      by (intro exI [of _ "Kill pid SIGKILL ?r # ks"]) (auto simp: sys_kill_def Let_def case_prod_unfold, blast+)
  next
    case False
    then have skip: "kill_entries P b x (e # es) s = kill_entries P b x es s"
      by (auto simp: is_pooler_def pid_of_iff split: option.splits)
    from Cons.IH [of s] False show ?thesis unfolding skip by auto
  qed
qed simp

text \<open>No survivor is left alone. When the process table can be read, the sweep before a restart sends SIGKILL
  to every process of the runtime binary in it other than the wrapper, to nothing else, and reports exactly the
  ones it killed.\<close>

theorem killStrays_complete:
  assumes "px_proc P (p_log s) = Some es"
  shows "\<exists>ks. p_log (snd (killStrays P b x s)) = p_log s @ ReadProc (Some es) # ks \<and>
    (\<forall>e \<in> set es. \<forall>pid. is_pooler P b x e pid \<longrightarrow> (\<exists>r. Kill pid SIGKILL r \<in> set ks)) \<and>
    (\<forall>k \<in> set ks. \<exists>e \<in> set es. \<exists>pid r. k = Kill pid SIGKILL r \<and> is_pooler P b x e pid) \<and>
    set (fst (killStrays P b x s)) = {pid. Kill pid SIGKILL KillOk \<in> set ks}"
  using kill_entries_log [of P b x es "log_ev (ReadProc (Some es)) s"] assms
  by (auto simp: killStrays_def Let_def)

section \<open>The polling loops end\<close>

text \<open>A clock that does not run backwards and advances at least by the time slept.\<close>

definition clock_ok :: "proc_env \<Rightarrow> bool" where
  "clock_ok P \<longleftrightarrow>
     (\<forall>l e. px_now P l \<le> px_now P (l @ [e])) \<and> (\<forall>l d. px_now P l + d \<le> px_now P (l @ [Slept d]))"

lemma clock_mono: "clock_ok P \<Longrightarrow> px_now P (p_log s) \<le> px_now P (p_log (log_ev e s))"
  by (simp add: clock_ok_def)

lemma clock_sleep: "clock_ok P \<Longrightarrow> px_now P (p_log s) + d \<le> px_now P (p_log (sleep d s))"
  by (simp add: clock_ok_def sleep_def)

lemma adopt_loop_ends:
  assumes "clock_ok P"
  shows "deadline - px_now P (p_log s) < int n * successorPollInterval \<Longrightarrow>
    adopt_loop (Suc n) P old deadline s \<noteq> None"
proof (induction n arbitrary: s)
  case 0
  let ?s1 = "log_ev (ReadProc (px_proc P (p_log s))) s"
  from 0 clock_mono [OF assms, of s "ReadProc (px_proc P (p_log s))"]
  have "deadline < px_now P (p_log ?s1)" by simp
  then show ?case
    by (auto simp: adopt_poll_def findSuccessorPid_def now_def Let_def split: option.split)
next
  case (Suc n)
  let ?s1 = "log_ev (ReadProc (px_proc P (p_log s))) s"
  let ?s2 = "log_ev (Clock (px_now P (p_log ?s1))) ?s1"
  have "px_now P (p_log s) + successorPollInterval \<le> px_now P (p_log (sleep successorPollInterval ?s2))"
    using clock_mono [OF assms, of s] clock_mono [OF assms, of ?s1] clock_sleep [OF assms, of ?s2]
    by (meson add_mono_thms_linordered_semiring(3) order_trans)
  with Suc.prems have "deadline - px_now P (p_log (sleep successorPollInterval ?s2)) < int n * successorPollInterval"
    by (simp add: algebra_simps)
  from Suc.IH [OF this] show ?case
    by (subst adopt_loop.simps) (auto simp: adopt_poll_def findSuccessorPid_def now_def Let_def split: option.split)
qed

lemma gone_loop_ends:
  assumes "clock_ok P"
  shows "deadline - px_now P (p_log s) < int n * adoptedLivenessInterval \<Longrightarrow>
    waitUntilGone (Suc n) P pid drain (Some deadline) s \<noteq> None"
proof (induction n arbitrary: s)
  case 0
  let ?s1 = "log_ev (Kill pid SIG0 (px_kill P (p_log s) pid SIG0)) s"
  from 0 clock_mono [OF assms, of s "Kill pid SIG0 (px_kill P (p_log s) pid SIG0)"]
  have "deadline < px_now P (p_log ?s1)" by simp
  then show ?case
    by (auto simp: gone_poll_def sys_kill_def now_def Let_def split: kill_result.split)
next
  case (Suc n)
  let ?s1 = "log_ev (Kill pid SIG0 (px_kill P (p_log s) pid SIG0)) s"
  let ?s2 = "log_ev (Clock (px_now P (p_log ?s1))) ?s1"
  have "px_now P (p_log s) + adoptedLivenessInterval \<le> px_now P (p_log (sleep adoptedLivenessInterval ?s2))"
    using clock_mono [OF assms, of s] clock_mono [OF assms, of ?s1] clock_sleep [OF assms, of ?s2]
    by (meson add_mono_thms_linordered_semiring(3) order_trans)
  with Suc.prems have "deadline - px_now P (p_log (sleep adoptedLivenessInterval ?s2)) < int n * adoptedLivenessInterval"
    by (simp add: algebra_simps)
  from Suc.IH [OF this] show ?case
    by (subst waitUntilGone.simps) (auto simp: gone_poll_def sys_kill_def now_def Let_def split: kill_result.split)
qed

text \<open>The search for a successor ends. With such a clock, polling takes at most as many rounds as
  fit into the search window, plus one, and then \<open>adoptSuccessor\<close> returns; if it adopted, the adopted pid is the
  supervised one, and it is neither the old process nor the wrapper.\<close>

theorem adoptSuccessor_ends:
  assumes "clock_ok P" and "px_successorTimeout P < int n * successorPollInterval"
  shows "\<exists>adopted s'. adoptSuccessor (Suc n) P old s = Some (adopted, s') \<and>
    (if adopted then p_adoptedPid s' \<noteq> old \<and> p_adoptedPid s' \<noteq> px_self P \<and> p_cmd s' = None
     else p_adoptedPid s' = p_adoptedPid s \<and> p_cmd s' = p_cmd s)"
proof -
  have result: "adopt_loop m P old dl t = Some (ad, t') \<Longrightarrow>
      (if ad then p_adoptedPid t' \<noteq> old \<and> p_adoptedPid t' \<noteq> px_self P \<and> p_cmd t' = None
       else p_adoptedPid t' = p_adoptedPid t \<and> p_cmd t' = p_cmd t)" for m dl t ad t'
  proof (induction m arbitrary: t)
    case (Suc m)
    from Suc.prems Suc.IH show ?case
      by (fastforce simp: adopt_poll_def findSuccessorPid_def now_def sleep_def Let_def is_pooler_def
          dest: scan_entries_Some split: option.splits if_splits)
  qed simp
  let ?s1 = "log_ev (Clock (px_now P (p_log s))) s"
  have "px_now P (p_log s) + px_successorTimeout P - px_now P (p_log ?s1) < int n * successorPollInterval"
    using clock_mono [OF assms(1), of s "Clock (px_now P (p_log s))"] assms(2) by simp
  from adopt_loop_ends [OF assms(1) this, of old] obtain ad t where
    "adopt_loop (Suc n) P old (px_now P (p_log s) + px_successorTimeout P) ?s1 = Some (ad, t)" by auto
  with result [OF this] show ?thesis
    by (auto simp: adoptSuccessor_def now_def Let_def)
qed

definition cancelled_by :: "proc_env \<Rightarrow> process \<Rightarrow> bool" where
  "cancelled_by P s \<longleftrightarrow> list_ex (px_done P) (prefixes (p_log s))"

lemma cancelled_by_mono [simp]:
  "px_done P (p_log s) \<Longrightarrow> cancelled_by P s"
  "cancelled_by P s \<Longrightarrow> cancelled_by P (log_ev e s)"
  "cancelled_by P s \<Longrightarrow> cancelled_by P (sleep d s)"
  by (auto simp: cancelled_by_def list_ex_iff sleep_def)

text \<open>Waiting for an adopted process that is not a child does not lie: the wait reports a disappearance
  only when the last system call said that the process does not exist, and gives up on a living one only
  after a cancellation. An exit reported too early would start a second pooler.\<close>

theorem waitUntilGone_correct:
  assumes "waitUntilGone fuel P pid drain None s = Some (e, s')"
  shows "e = AdoptedNotChild pid \<and> Kill pid SIG0 ESRCH = last (p_log s') \<or>
    e = StillAlive pid \<and> cancelled_by P s'"
proof -
  have "waitUntilGone fuel P pid drain g s = Some (e, s') \<Longrightarrow> g = None \<or> cancelled_by P s \<Longrightarrow>
      e = AdoptedNotChild pid \<and> Kill pid SIG0 ESRCH = last (p_log s') \<or> e = StillAlive pid \<and> cancelled_by P s'"
    for g s
  proof (induction fuel arbitrary: g s)
    case (Suc fuel)
    from Suc.prems show ?case
      by (auto simp: gone_poll_def sys_kill_def now_def Let_def split: kill_result.splits option.splits if_splits
          dest!: Suc.IH)
  qed simp
  from this [OF assms] show ?thesis by simp
qed

text \<open>Nor does it hang: once the context is cancelled, the wait ends after at most the polls that fit into
  the drain, plus one, whatever the process does.\<close>

theorem waitUntilGone_bounded:
  assumes "clock_ok P" and "\<And>l. px_done P l" and "drain < int n * adoptedLivenessInterval"
  shows "waitUntilGone (Suc n) P pid drain None s \<noteq> None"
proof -
  let ?s1 = "log_ev (Kill pid SIG0 (px_kill P (p_log s) pid SIG0)) s"
  let ?t = "px_now P (p_log ?s1)"
  let ?s2 = "log_ev (Clock ?t) ?s1"
  let ?s3 = "log_ev (Clock (px_now P (p_log ?s2))) ?s2"
  have later: "?t \<le> px_now P (p_log ?s2)" "px_now P (p_log ?s2) \<le> px_now P (p_log ?s3)"
    "px_now P (p_log ?s3) + adoptedLivenessInterval \<le> px_now P (p_log (sleep adoptedLivenessInterval ?s3))"
    using clock_mono [OF assms(1), of ?s1] clock_mono [OF assms(1), of ?s2] clock_sleep [OF assms(1), of ?s3]
    by blast+
  show ?thesis
  proof (cases n)
    case 0
    with assms(3) later(1) have "?t + drain < px_now P (p_log ?s2)" by simp
    with assms(2) 0 show ?thesis
      by (auto simp: gone_poll_def sys_kill_def now_def Let_def split: kill_result.split)
  next
    case (Suc m)
    have "?t + drain - px_now P (p_log (sleep adoptedLivenessInterval ?s3)) < int m * adoptedLivenessInterval"
      using later assms(3) by (simp add: Suc algebra_simps)
    from gone_loop_ends [OF assms(1) this, of pid drain] assms(2) Suc show ?thesis
      by (subst waitUntilGone.simps) (auto simp: gone_poll_def sys_kill_def now_def Let_def split: kill_result.split)
  qed
qed

section \<open>Back-off and drain\<close>

lemma wrap64_id: "- (2 ^ 63) \<le> n \<Longrightarrow> n < 2 ^ 63 \<Longrightarrow> wrap64 n = n"
  by (simp add: wrap64_def mod_pos_pos_trivial)

definition backoff_ok :: "int \<Rightarrow> bool" where
  "backoff_ok b \<longleftrightarrow> initialBackoff \<le> b \<and> b \<le> maxBackoff"

lemma backoff_double: "backoff_ok b \<Longrightarrow> wrap64 (b * backoffMultiplier) = 2 * b"
  by (simp add: backoff_ok_def backoff_constants wrap64_id)

lemma backoffAfterExit_ok: "backoff_ok b \<Longrightarrow> backoff_ok (backoffAfterExit b uptime)"
  using backoff_double [of b]
  by (auto simp: backoffAfterExit_def) (auto simp: backoff_ok_def backoff_constants)

fun crash_backoffs :: "int \<Rightarrow> int list \<Rightarrow> int list" where
  "crash_backoffs b [] = []"
| "crash_backoffs b (u # us) = (let b' = backoffAfterExit b u in b' # crash_backoffs b' us)"

lemma crash_backoffs_ok: "backoff_ok b \<Longrightarrow> list_all backoff_ok (crash_backoffs b us)"
proof (induction us arbitrary: b)
  case (Cons u us)
  from Cons.IH [OF backoffAfterExit_ok [OF Cons.prems]] backoffAfterExit_ok [OF Cons.prems]
  show ?case by (simp add: Let_def)
qed simp


lemma waitDelay_value:
  assumes "dk_error (px_disk P) (sy_n s) = None" and "sy_fs s (px_configPath P) = Some f"
    and "px_unmarshal P (fi_data f) = Inr cfg"
  shows "fst (waitDelay P s) = wrap64 ((case ParseDuration (px_frac P) (ge_ShutdownTimeout (dc_General cfg)) of
    None \<Rightarrow> defaultShutdownTimeout | Some d \<Rightarrow> d) + px_waitMargin P)"
  using assms by (simp add: waitDelay_def ReadFile_def syscall_def)

text \<open>The drain before SIGKILL honours the configured shutdown timeout when it is written with the unit
  ms, s, m or h, plus the margin.\<close>

theorem waitDelay_units:
  assumes "dk_error (px_disk P) (sy_n s) = None" and "sy_fs s (px_configPath P) = Some f"
    and "px_unmarshal P (fi_data f) = Inr cfg"
    and "ge_ShutdownTimeout (dc_General cfg) = ds @ u" and "list_all is_digit ds" "ds \<noteq> []"
    and "u \<in> set [''ms'', ''s'', ''m'', ''h'']"
    and "0 \<le> px_waitMargin P" and "int (dec_value ds * the (unitMap u)) + px_waitMargin P < 2 ^ 63"
  shows "fst (waitDelay P s) = int (dec_value ds * the (unitMap u)) + px_waitMargin P"
proof -
  obtain k where k: "unitMap u = Some k" using assms(7) by (auto simp: unitMap_def)
  have "u \<noteq> []" "ds @ u \<noteq> ''0''" using assms(7) by (auto simp: append_eq_Cons_conv)
  moreover have "int (dec_value ds * k) < 2 ^ 63" using assms(8,9) k by simp
  then have "int (dec_value ds * k) < int (2 ^ 63)" by simp
  then have "dec_value ds * k < 2 ^ 63" by (simp only: of_nat_less_iff)
  ultimately have "ParseDuration (px_frac P) (ds @ u) = Some (int (dec_value ds * k))"
    using ParseDuration_digits [OF assms(5,6) unit_chars, of u "px_frac P"] assms(7) k by auto
  with waitDelay_value [OF assms(1-3)] assms(4,8,9) k show ?thesis
    by (simp add: wrap64_id [OF order_trans [of _ 0]])
qed

text \<open>A shutdown timeout in plain milliseconds or in days is accepted by the validator but not honoured: the
  wrapper cannot parse it and kills the pooler after the default of ten seconds plus the margin.\<close>

theorem waitDelay_ignores_plain:
  assumes "dk_error (px_disk P) (sy_n s) = None" and "sy_fs s (px_configPath P) = Some f"
    and "px_unmarshal P (fi_data f) = Inr cfg"
    and "ge_ShutdownTimeout (dc_General cfg) = ds @ u" and "list_all is_digit ds" "ds \<noteq> []"
    and "u \<in> set [[], ''d'']" and "ds @ u \<noteq> ''0''" and "px_waitMargin P = shutdownWaitMargin"
  shows "duration_ok (ge_ShutdownTimeout (dc_General cfg)) \<and> fst (waitDelay P s) = 15 * Second"
proof -
  have "digits_unit [''ms'', ''s'', ''m'', ''h'', ''d''] (ds @ u)"
    using durationPattern_iff [of "ds @ u"] assms(5-7) unfolding durationPattern_def by auto
  then have ok: "duration_ok (ds @ u)" by (rule duration_ok_digits)
  have "unitMap u = None" using assms(7) by (auto simp: unitMap_def)
  then have "ParseDuration (px_frac P) (ds @ u) = None"
    using ParseDuration_digits [OF assms(5,6) unit_chars assms(8), of "px_frac P"] assms(7) by auto
  with waitDelay_value [OF assms(1-3)] assms(4,9) ok show ?thesis
    by (simp add: wrap64_def defaultShutdownTimeout_def shutdownWaitMargin_def Second_def)
qed

section \<open>A concrete operating system\<close>

text \<open>A container with the wrapper as process 1, an old pooler 20 and its successor 30, in which every call
  succeeds, the context is cancelled and time passes only while sleeping.\<close>

definition slept_time :: "pevent list \<Rightarrow> int" where
  "slept_time l = sum_list (map (\<lambda>e. case e of Slept d \<Rightarrow> max 0 d | _ \<Rightarrow> 0) l)"

definition demo_table :: "proc_entry list" where
  "demo_table =
     [\<lparr>pe_Name = ''1'', pe_Cmdline = Some ''wrapper'', pe_Exe = Some ''/wrapper''\<rparr>,
      \<lparr>pe_Name = ''20'', pe_Cmdline = Some ''/tmp/bin/pg_doorman'', pe_Exe = Some ''/tmp/bin/pg_doorman (deleted)''\<rparr>,
      \<lparr>pe_Name = ''30'', pe_Cmdline = Some ''/tmp/bin/pg_doorman'', pe_Exe = Some ''/tmp/bin/pg_doorman''\<rparr>]"

definition demo_config :: "string \<Rightarrow> DoormanConfig" where
  "demo_config timeout =
     (let c = the (build_config (example_spec ''doorman'') 6432 9127 Map.empty None)
      in c\<lparr>dc_General := (dc_General c)\<lparr>ge_ShutdownTimeout := timeout\<rparr>\<rparr>)"

definition demo_env :: "string \<Rightarrow> proc_env" where
  "demo_env timeout =
     \<lparr>px_configPath = ''run'', px_binary = ''/tmp/bin/pg_doorman'', px_waitMargin = shutdownWaitMargin,
      px_successorTimeout = successorSearchTimeout, px_self = 1, px_disk = quiet_disk,
      px_unmarshal = (\<lambda>_. Inr (demo_config timeout)), px_frac = (\<lambda>_ _ _. 0), px_kill = (\<lambda>_ _ _. KillOk),
      px_start = (\<lambda>_. Inr 20), px_wait4 = (\<lambda>_ _. ECHILD), px_now = slept_time,
      px_proc = (\<lambda>_. Some demo_table), px_done = (\<lambda>_. True)\<rparr>"

definition demo_process :: process where
  "demo_process =
     \<lparr>sy_fs = [''run'' \<mapsto> \<lparr>fi_data = ''yaml'', fi_mode = 384\<rparr>, ''src'' \<mapsto> \<lparr>fi_data = ''yaml'', fi_mode = 384\<rparr>],
      sy_hist = [], sy_n = 0, p_cmd = None, p_adoptedPid = 0, p_upgradeRequested = False, p_upgradeRequestedAt = 0,
      p_log = []\<rparr>"

definition demo_watch :: "unit watch_env" where
  "demo_watch = \<lparr>wv_disk = quiet_disk, wv_codec = null_codec, wv_unmarshal = (\<lambda>_. Inr (demo_config ''30s'')),
     wv_rank = (\<lambda>_. 0), wv_exec = (\<lambda>_ _ f. if f = None then Some ''missing'' else None)\<rparr>"

lemma demo_clock: "clock_ok (demo_env t)"
  by (auto simp: clock_ok_def demo_env_def slept_time_def split: pevent.split)

lemma demo_initial: "\<not> isl (fst (ApplyInitial demo_watch example_watcher demo_process))"
  by code_simp


theorem findSuccessorPid_witness:
  "fst (findSuccessorPid (demo_env ''30s'') ''/tmp/bin/pg_doorman'' 20 demo_process) = Some 30 \<and>
   (\<exists>e \<in> set demo_table. is_pooler (demo_env ''30s'') ''/tmp/bin/pg_doorman'' 20 e 30)"
proof -
  have t: "px_proc (demo_env ''30s'') (p_log demo_process) = Some demo_table" by (simp add: demo_env_def)
  have r: "fst (findSuccessorPid (demo_env ''30s'') ''/tmp/bin/pg_doorman'' 20 demo_process) = Some 30"
    by code_simp
  from findSuccessorPid_correct [OF t, of "''/tmp/bin/pg_doorman''" 20] r show ?thesis by auto
qed

theorem killStrays_witness:
  "\<exists>ks. p_log (snd (killStrays (demo_env ''30s'') ''/tmp/bin/pg_doorman'' 0 demo_process)) =
      ReadProc (Some demo_table) # ks \<and> Kill 20 SIGKILL KillOk \<in> set ks \<and> Kill 30 SIGKILL KillOk \<in> set ks"
proof -
  have t: "px_proc (demo_env ''30s'') (p_log demo_process) = Some demo_table" by (simp add: demo_env_def)
  have r: "fst (killStrays (demo_env ''30s'') ''/tmp/bin/pg_doorman'' 0 demo_process) = [20, 30]" by code_simp
  from killStrays_complete [OF t, of "''/tmp/bin/pg_doorman''" 0] r show ?thesis
    by (auto simp: demo_process_def)
qed

theorem adoptSuccessor_ends_witness:
  "\<exists>adopted s'. adoptSuccessor 27 (demo_env ''30s'') 20 demo_process = Some (adopted, s') \<and> p_adoptedPid s' \<noteq> 20"
proof -
  have "px_successorTimeout (demo_env ''30s'') < int 26 * successorPollInterval"
    by (simp add: demo_env_def successorSearchTimeout_def successorPollInterval_def Second_def Millisecond_def)
  from adoptSuccessor_ends [OF demo_clock this, of 20 demo_process] show ?thesis
    by (auto simp: demo_process_def split: if_splits)
qed

theorem waitUntilGone_bounded_witness:
  "waitUntilGone 77 (demo_env ''30s'') 30 (15 * Second) None demo_process \<noteq> None"
proof -
  have "15 * Second < int 76 * adoptedLivenessInterval" "\<And>l. px_done (demo_env ''30s'') l"
    by (simp_all add: adoptedLivenessInterval_def Second_def Millisecond_def demo_env_def)
  with waitUntilGone_bounded [OF demo_clock, of "''30s''" "15 * Second" 76 30 demo_process] show ?thesis by simp
qed

theorem waitUntilGone_witness:
  "\<exists>e s'. waitUntilGone 3 (demo_env ''30s'') 30 Millisecond None demo_process = Some (e, s') \<and>
     (e = AdoptedNotChild 30 \<and> Kill 30 SIG0 ESRCH = last (p_log s') \<or>
      e = StillAlive 30 \<and> cancelled_by (demo_env ''30s'') s')"
proof -
  have "waitUntilGone 3 (demo_env ''30s'') 30 Millisecond None demo_process \<noteq> None"
    by code_simp
  then obtain e s' where run: "waitUntilGone 3 (demo_env ''30s'') 30 Millisecond None demo_process = Some (e, s')"
    by auto
  from waitUntilGone_correct [OF run] run show ?thesis by blast
qed

lemma demo_reads:
  "dk_error (px_disk (demo_env t)) (sy_n demo_process) = None"
  "sy_fs demo_process (px_configPath (demo_env t)) = Some \<lparr>fi_data = ''yaml'', fi_mode = 384\<rparr>"
  "px_unmarshal (demo_env t) d = Inr (demo_config t)"
  "ge_ShutdownTimeout (dc_General (demo_config t)) = t"
  by (simp_all add: demo_env_def demo_process_def quiet_disk_def demo_config_def Let_def)

theorem waitDelay_units_witness: "fst (waitDelay (demo_env ''30s'') demo_process) = 35 * Second"
proof -
  have "ge_ShutdownTimeout (dc_General (demo_config ''30s'')) = ''30'' @ ''s''" by (simp add: demo_reads)
  from waitDelay_units [OF demo_reads(1-3) this]
  show ?thesis
    by (simp add: demo_env_def shutdownWaitMargin_def Second_def unitMap_def is_digit_def dec_value_def digit_val_def)
qed

theorem waitDelay_ignores_plain_witness:
  "duration_ok ''60000'' \<and> fst (waitDelay (demo_env ''60000'') demo_process) = 15 * Second"
proof -
  have "ge_ShutdownTimeout (dc_General (demo_config ''60000'')) = ''60000'' @ []" by (simp add: demo_reads)
  from waitDelay_ignores_plain [OF demo_reads(1-3) this]
  show ?thesis by (simp add: demo_env_def is_digit_def demo_reads)
qed

end
