(* ===== verification/Binary_Spec.thy ===== *)
theory Binary_Spec
  imports Prelude
begin

text \<open>
  The contract about the desired pg_doorman binary that the controller publishes and the wrapper
  reads: \<open>internal/wrapper/binaryspec.go\<close>. \<open>SHA256\<close> maps an architecture to a hex digest; the JSON
  decoder is a parameter.
\<close>

record BinarySpec =
  bs_URL :: string
  bs_SHA256 :: "(string \<times> string) list"
  bs_CABundle :: string

definition BinarySpecKey :: string where "BinarySpecKey = ''binary.json''"

datatype spec_error = InvalidBinarySpec string | URLRequired | SHA256Required

definition ParseBinarySpec :: "(string \<Rightarrow> string + BinarySpec) \<Rightarrow> string \<Rightarrow> spec_error + BinarySpec" where
  "ParseBinarySpec decode data =
     (case decode data of
        Inl e \<Rightarrow> Inl (InvalidBinarySpec e)
      | Inr spec \<Rightarrow>
          if bs_URL spec = [] then Inl URLRequired
          else if bs_SHA256 spec = [] then Inl SHA256Required
          else Inr spec)"

text \<open>\<open>spec.SHA256[arch]\<close>: a missing architecture reads as the empty string.\<close>

definition digest_for :: "BinarySpec \<Rightarrow> string \<Rightarrow> string" where
  "digest_for spec arch = (case map_of (bs_SHA256 spec) arch of None \<Rightarrow> [] | Some d \<Rightarrow> d)"

lemma ParseBinarySpec_ok:
  "ParseBinarySpec decode data = Inr spec \<longleftrightarrow>
     decode data = Inr spec \<and> bs_URL spec \<noteq> [] \<and> bs_SHA256 spec \<noteq> []"
  by (auto simp: ParseBinarySpec_def split: sum.splits)

end
