(* ===== verification/Binary_Sync.thy ===== *)
theory Binary_Sync
  imports Process Binary_Spec
begin

text \<open>
  Delivery of the pg_doorman binary in the wrapper: \<open>FileSHA256\<close> of \<open>internal/wrapper/binaryspec.go\<close>,
  \<open>internal/wrapper/binarysync.go\<close>, \<open>internal/wrapper/startup.go\<close> and the poll of
  \<open>internal/wrapper/binarywatcher.go\<close>.

  The digest, the JSON decoder, the certificate parser and the HTTP exchange are parameters; an exchange may
  answer differently at every moment. The gauge \<open>BinaryStale\<close> is threaded through explicitly. The operations
  run on the file system of \<open>Files\<close>, so they may fail at every system call, and the watcher calls the
  \<open>Upgrader\<close> as a pair of operations on the same state.
\<close>

section \<open>Environment\<close>

record http_response =
  hr_StatusCode :: int
  hr_ContentLength :: int
  hr_Body :: string
  hr_BodyError :: "string option"

record bin_env =
  be_disk :: disk
  be_sha256 :: "string \<Rightarrow> string"
  be_decode :: "string \<Rightarrow> string + BinarySpec"
  be_certs :: "string \<Rightarrow> bool"
  be_http :: "nat \<Rightarrow> string \<Rightarrow> string + http_response"
  be_maxBytes :: nat

definition maxBinaryBytes :: nat where "maxBinaryBytes = 256 * 2 ^ 20"

definition RuntimeBinaryDir :: string where "RuntimeBinaryDir = ''/tmp/bin''"
definition RuntimeBinaryPath :: string where "RuntimeBinaryPath = RuntimeBinaryDir @ ''/pg_doorman''"
definition ImageBinaryPath :: string where "ImageBinaryPath = ''/usr/bin/pg_doorman''"
definition RuntimeConfigPath :: string where "RuntimeConfigPath = ''/tmp/pg_doorman.yaml''"
definition ConfigSourcePath :: string where "ConfigSourcePath = ''/etc/pg-doorman-config/pg_doorman.yaml''"

record binary_syncer =
  sn_specPath :: string
  sn_imagePath :: string
  sn_runtimePath :: string
  sn_arch :: string

definition NewBinarySyncer :: "string \<Rightarrow> string \<Rightarrow> string \<Rightarrow> string \<Rightarrow> binary_syncer" where
  "NewBinarySyncer specPath imagePath runtimePath arch =
     \<lparr>sn_specPath = specPath, sn_imagePath = imagePath, sn_runtimePath = runtimePath, sn_arch = arch\<rparr>"

datatype bin_error =
    BinIO io_error
  | BadCABundle
  | RequestFailed string
  | BadStatus int
  | DeclaredTooLarge int
  | TooLarge
  | BodyFailed string
  | DigestMismatch string string
  | HashImage io_error
  | ImageMismatch string string

type_synonym ('z, 'a) bin = "('z sys_scheme, bin_error, 'a) st"

section \<open>Digests\<close>

definition FileSHA256 :: "bin_env \<Rightarrow> string \<Rightarrow> ('z, string) io" where
  "FileSHA256 E path = bindS (ReadFile (be_disk E) path) (\<lambda>data. retS (be_sha256 E data))"

section \<open>Download\<close>

definition httpClientFor :: "bin_env \<Rightarrow> BinarySpec \<Rightarrow> bin_error + unit" where
  "httpClientFor E spec = guard_err (bs_CABundle spec \<noteq> [] \<and> \<not> be_certs E (bs_CABundle spec)) BadCABundle"

text \<open>The request, one numbered event of the environment.\<close>

definition http_do :: "bin_env \<Rightarrow> string \<Rightarrow> ('z, http_response) bin" where
  "http_do E url s =
     (case be_http E (sy_n s) url of Inl e \<Rightarrow> Inl (RequestFailed e) | Inr r \<Rightarrow> Inr r, s\<lparr>sy_n := Suc (sy_n s)\<rparr>)"

definition create_temp :: "bin_env \<Rightarrow> string \<Rightarrow> ('z, string) bin" where
  "create_temp E destPath =
     mapErrS BinIO
      (bindS (tryS (CreateTemp (be_disk E) (dir_of destPath) ''.pg_doorman-'')) (\<lambda>r.
        case r of
          Inr tmp \<Rightarrow> retS tmp
        | Inl _ \<Rightarrow>
            bindS (MkdirAll (be_disk E) (dir_of destPath)) (\<lambda>_.
              CreateTemp (be_disk E) (dir_of destPath) ''.pg_doorman-'')))"

text \<open>\<open>io.Copy\<close> from the limited body into the file and the hash: at most \<open>maxBinaryBytes + 1\<close> bytes are read,
  and an error of the body is seen only if the limit was not reached before it.\<close>

definition copy_body :: "bin_env \<Rightarrow> string \<Rightarrow> http_response \<Rightarrow> ('z, string) bin" where
  "copy_body E tmp resp =
     (let limited = take (Suc (be_maxBytes E)) (hr_Body resp) in
      bindS (mapErrS BinIO (Write (be_disk E) tmp limited)) (\<lambda>_.
        case hr_BodyError resp of
          Some e \<Rightarrow> if length (hr_Body resp) \<le> be_maxBytes E then throwS (BodyFailed e) else retS limited
        | None \<Rightarrow> retS limited))"

definition fill_temp :: "bin_env \<Rightarrow> string \<Rightarrow> http_response \<Rightarrow> string \<Rightarrow> ('z, unit) bin" where
  "fill_temp E wantSHA resp tmp =
     bindS (copy_body E tmp resp) (\<lambda>written.
     if length written > be_maxBytes E then throwS TooLarge
     else if be_sha256 E written \<noteq> wantSHA then throwS (DigestMismatch (be_sha256 E written) wantSHA)
     else
       bindS (mapErrS BinIO (Chmod (be_disk E) tmp 493)) (\<lambda>_.
       bindS (mapErrS BinIO (Sync (be_disk E))) (\<lambda>_.
         mapErrS BinIO (Close (be_disk E)))))"

definition install_body :: "bin_env \<Rightarrow> string \<Rightarrow> string \<Rightarrow> http_response \<Rightarrow> ('z, unit) bin" where
  "install_body E wantSHA destPath resp =
     bindS (create_temp E destPath) (\<lambda>tmp.
       deferring (bindS (fill_temp E wantSHA resp tmp) (\<lambda>_. mapErrS BinIO (Rename (be_disk E) tmp destPath)))
         (bindS (tryS (Close (be_disk E))) (\<lambda>_. Remove (be_disk E) tmp)))"

definition Download :: "bin_env \<Rightarrow> binary_syncer \<Rightarrow> BinarySpec \<Rightarrow> string \<Rightarrow> string \<Rightarrow> ('z, unit) bin" where
  "Download E y spec wantSHA destPath =
     (case httpClientFor E spec of
        Inl e \<Rightarrow> throwS e
      | Inr _ \<Rightarrow>
          bindS (http_do E (bs_URL spec @ ''/binaries/'' @ sn_arch y)) (\<lambda>resp.
          if hr_StatusCode resp \<noteq> 200 then throwS (BadStatus (hr_StatusCode resp))
          else if hr_ContentLength resp > int (be_maxBytes E) then throwS (DeclaredTooLarge (hr_ContentLength resp))
          else install_body E wantSHA destPath resp))"

section \<open>The image binary\<close>

definition runtime_has :: "bin_env \<Rightarrow> string \<Rightarrow> string \<Rightarrow> ('z sys_scheme, 'e, bool) st" where
  "runtime_has E path digest = bindS (tryS (FileSHA256 E path)) (\<lambda>r. retS (r = Inr digest))"

definition installFromImage :: "bin_env \<Rightarrow> binary_syncer \<Rightarrow> string \<Rightarrow> ('z, unit) bin" where
  "installFromImage E y wantSHA =
     bindS (mapErrS HashImage (FileSHA256 E (sn_imagePath y))) (\<lambda>imgSHA.
     if wantSHA \<noteq> [] \<and> imgSHA \<noteq> wantSHA then throwS (ImageMismatch imgSHA wantSHA)
     else
       bindS (runtime_has E (sn_runtimePath y) imgSHA) (\<lambda>same.
       if same then retS ()
       else
         bindS (mapErrS BinIO (ReadFile (be_disk E) (sn_imagePath y))) (\<lambda>src.
           mapErrS BinIO (atomicInstall (be_disk E) (sn_runtimePath y) src))))"

definition RevertToImage :: "bin_env \<Rightarrow> binary_syncer \<Rightarrow> ('z, bool) bin" where
  "RevertToImage E y =
     bindS (mapErrS HashImage (FileSHA256 E (sn_imagePath y))) (\<lambda>imgSHA.
     bindS (runtime_has E (sn_runtimePath y) imgSHA) (\<lambda>same.
     if same then retS False
     else bindS (installFromImage E y []) (\<lambda>_. retS True)))"

section \<open>Start-up\<close>

text \<open>The seed is \<open>None\<close> for Go's \<open>nil\<close>. The last component of a result is the gauge.\<close>

definition with_gauge :: "bool \<Rightarrow> ('s, 'e, 'a) st \<Rightarrow> 's \<Rightarrow> ('e + 'a) \<times> bool \<times> 's" where
  "with_gauge stale m s = (case m s of (r, s') \<Rightarrow> (r, stale, s'))"

definition desired_digest :: "bin_env \<Rightarrow> binary_syncer \<Rightarrow> string option \<Rightarrow> (BinarySpec \<times> string) option" where
  "desired_digest E y data =
     (case data of
        None \<Rightarrow> None
      | Some d \<Rightarrow>
          (case ParseBinarySpec (be_decode E) d of
             Inl _ \<Rightarrow> None
           | Inr spec \<Rightarrow>
               if digest_for spec (sn_arch y) = [] then None else Some (spec, digest_for spec (sn_arch y))))"

definition ensure_digest ::
  "bin_env \<Rightarrow> binary_syncer \<Rightarrow> BinarySpec \<Rightarrow> string \<Rightarrow> string option \<Rightarrow> bool \<Rightarrow> 'z sys_scheme \<Rightarrow>
   (bin_error + string option) \<times> bool \<times> 'z sys_scheme" where
  "ensure_digest E y spec desired data stale s =
     (case FileSHA256 E (sn_runtimePath y) s of
        (cur, s1) \<Rightarrow>
          if cur = Inr desired then (Inr data, stale, s1)
          else
            (case FileSHA256 E (sn_imagePath y) s1 of
               (img, s2) \<Rightarrow>
                 if img = Inr desired
                 then with_gauge stale (bindS (installFromImage E y desired) (\<lambda>_. retS data)) s2
                 else
                   (case Download E y spec desired (sn_runtimePath y) s2 of
                      (Inl _, s3) \<Rightarrow> with_gauge True (bindS (installFromImage E y []) (\<lambda>_. retS None)) s3
                    | (Inr _, s3) \<Rightarrow> (Inr data, False, s3))))"

definition EnsureAtStartup ::
  "bin_env \<Rightarrow> binary_syncer \<Rightarrow> bool \<Rightarrow> 'z sys_scheme \<Rightarrow> (bin_error + string option) \<times> bool \<times> 'z sys_scheme" where
  "EnsureAtStartup E y stale s =
     (case ReadFile (be_disk E) (sn_specPath y) s of
        (Inl (IOError e), s1) \<Rightarrow> (Inl (BinIO (IOError e)), stale, s1)
      | (r, s1) \<Rightarrow>
          let data = (case r of Inl _ \<Rightarrow> None | Inr d \<Rightarrow> Some d) in
          case desired_digest E y data of
            None \<Rightarrow> with_gauge stale (bindS (installFromImage E y []) (\<lambda>_. retS data)) s1
          | Some (spec, desired) \<Rightarrow> ensure_digest E y spec desired data stale s1)"

datatype startup_error = ConfigRejected apply_error | RevertFailed apply_error bin_error

definition ApplyInitialConfig ::
  "bin_env \<Rightarrow> 'k watch_env \<Rightarrow> file_watcher \<Rightarrow> binary_syncer \<Rightarrow> string option \<Rightarrow> bool \<Rightarrow> 'z sys_scheme \<Rightarrow>
   (startup_error + file_watcher \<times> string option) \<times> bool \<times> 'z sys_scheme" where
  "ApplyInitialConfig E V w y seed stale s =
     (case ApplyInitial V w s of
        (Inr w1, s1) \<Rightarrow> (Inr (w1, seed), stale, s1)
      | (Inl err, s1) \<Rightarrow>
          (case RevertToImage E y s1 of
             (Inl revertErr, s2) \<Rightarrow> (Inl (RevertFailed err revertErr), stale, s2)
           | (Inr reverted, s2) \<Rightarrow>
               if \<not> reverted then (Inl (ConfigRejected err), stale, s2)
               else
                 (case ApplyInitial V w s2 of
                    (Inl err2, s3) \<Rightarrow> (Inl (ConfigRejected err2), True, s3)
                  | (Inr w1, s3) \<Rightarrow> (Inr (w1, None), True, s3))))"

section \<open>The watcher\<close>

record binary_watcher =
  bw_specPath :: string
  bw_runtimePath :: string
  bw_configPath :: string
  bw_arch :: string
  bw_syncer :: binary_syncer
  bw_lastSpec :: string
  bw_stale :: bool

definition NewBinaryWatcher :: "string \<Rightarrow> binary_syncer \<Rightarrow> string \<Rightarrow> bool \<Rightarrow> binary_watcher" where
  "NewBinaryWatcher specPath y arch stale =
     \<lparr>bw_specPath = specPath, bw_runtimePath = RuntimeBinaryPath, bw_configPath = RuntimeConfigPath, bw_arch = arch,
      bw_syncer = y, bw_lastSpec = [], bw_stale = stale\<rparr>"

text \<open>\<open>bytes.Equal\<close> does not tell \<open>nil\<close> from an empty slice.\<close>

definition Seed :: "string option \<Rightarrow> binary_watcher \<Rightarrow> binary_watcher" where
  "Seed lastSpec w = w\<lparr>bw_lastSpec := (case lastSpec of None \<Rightarrow> [] | Some d \<Rightarrow> d)\<rparr>"

definition binaryCandidateSuffix :: string where "binaryCandidateSuffix = ''.next''"

definition bin_candidate :: "binary_watcher \<Rightarrow> string" where
  "bin_candidate w = bw_runtimePath w @ binaryCandidateSuffix"

text \<open>Testing the candidate, swapping it in and signalling.\<close>

definition swap_binary ::
  "bin_env \<Rightarrow> 'k watch_env \<Rightarrow> ('z sys_scheme, 'e, unit) st \<Rightarrow> binary_watcher \<Rightarrow> string \<Rightarrow> 'z sys_scheme \<Rightarrow>
   binary_watcher \<times> 'z sys_scheme" where
  "swap_binary E V upgrade w data s =
     (case NewBinaryConfigTester V (bin_candidate w) (bw_configPath w) s of
        (Inl _, s1) \<Rightarrow> (w, snd (Remove (be_disk E) (bin_candidate w) s1))
      | (Inr _, s1) \<Rightarrow>
          (case Rename (be_disk E) (bin_candidate w) (bw_runtimePath w) s1 of
             (Inl _, s2) \<Rightarrow> (w, s2)
           | (Inr _, s2) \<Rightarrow>
               (case upgrade s2 of
                  (Inl _, s3) \<Rightarrow> (w, s3)
                | (Inr _, s3) \<Rightarrow> (w\<lparr>bw_lastSpec := data, bw_stale := False\<rparr>, s3))))"

definition apply_spec ::
  "bin_env \<Rightarrow> 'k watch_env \<Rightarrow> ('z sys_scheme, 'e, unit) st \<Rightarrow> ('z sys_scheme \<Rightarrow> bool \<times> 'z sys_scheme) \<Rightarrow>
   binary_watcher \<Rightarrow> string \<Rightarrow> BinarySpec \<Rightarrow> string \<Rightarrow> 'z sys_scheme \<Rightarrow> binary_watcher \<times> 'z sys_scheme" where
  "apply_spec E V upgrade inFlight w data spec desired s =
     (case FileSHA256 E (bw_runtimePath w) s of
        (cur, s1) \<Rightarrow>
          if cur = Inr desired then (w\<lparr>bw_lastSpec := data, bw_stale := False\<rparr>, s1)
          else
            let w1 = w\<lparr>bw_stale := True\<rparr> in
            case inFlight s1 of
              (True, s2) \<Rightarrow> (w1, s2)
            | (False, s2) \<Rightarrow>
                (case Download E (bw_syncer w) spec desired (bin_candidate w) s2 of
                   (Inl _, s3) \<Rightarrow> (w1, s3)
                 | (Inr _, s3) \<Rightarrow> swap_binary E V upgrade w1 data s3))"

definition bin_check ::
  "bin_env \<Rightarrow> 'k watch_env \<Rightarrow> ('z sys_scheme, 'e, unit) st \<Rightarrow> ('z sys_scheme \<Rightarrow> bool \<times> 'z sys_scheme) \<Rightarrow>
   binary_watcher \<Rightarrow> 'z sys_scheme \<Rightarrow> binary_watcher \<times> 'z sys_scheme" where
  "bin_check E V upgrade inFlight w s =
     (case ReadFile (be_disk E) (bw_specPath w) s of
        (Inl _, s1) \<Rightarrow> (w, s1)
      | (Inr data, s1) \<Rightarrow>
          if data = bw_lastSpec w then (w, s1)
          else
            (case ParseBinarySpec (be_decode E) data of
               Inl _ \<Rightarrow> (w, s1)
             | Inr spec \<Rightarrow>
                 let desired = digest_for spec (bw_arch w) in
                 if desired = [] then (w\<lparr>bw_lastSpec := data\<rparr>, s1)
                 else apply_spec E V upgrade inFlight w data spec desired s1))"

section \<open>What the operations leave alone\<close>

definition no_temp :: "string \<Rightarrow> string \<Rightarrow> bool" where
  "no_temp dest p \<longleftrightarrow> \<not> prefix (dir_of dest @ ''/.pg_doorman-'') p"

lemma no_temp_neq: "no_temp dest p \<Longrightarrow> p \<noteq> dir_of dest @ ''/'' @ ''.pg_doorman-'' @ x"
proof
  assume "no_temp dest p"
  moreover assume "p = dir_of dest @ ''/'' @ ''.pg_doorman-'' @ x"
  then have "prefix (dir_of dest @ ''/.pg_doorman-'') p" by (auto simp: prefix_def)
  ultimately show False by (simp add: no_temp_def)
qed

lemma plain_dest_no_temp: "plain_dest dest \<longleftrightarrow> no_temp dest dest"
  by (simp add: plain_dest_def no_temp_def)

lemma framedD: "framed R m \<Longrightarrow> R s (snd (m s))"
  by (simp add: framed_def)

lemma framed_FileSHA256 [intro]: "framed (keeps p) (FileSHA256 E q)"
  unfolding FileSHA256_def by (intro keeps_intros)

lemma framed_runtime_has [intro]: "framed (keeps p) (runtime_has E q d)"
  unfolding runtime_has_def by (intro keeps_intros framed_FileSHA256)

lemma framed_http_do [intro]: "framed (keeps p) (http_do E url)"
  by (simp add: framed_def http_do_def keeps_tick)

lemma framed_create_temp: "no_temp dest p \<Longrightarrow> framed (keeps p) (create_temp E dest)"
proof -
  assume "no_temp dest p"
  then have "framed (keeps p) (CreateTemp (be_disk E) (dir_of dest) ''.pg_doorman-'')"
    by (intro framed_io(10) no_temp_neq)
  then show ?thesis
    unfolding create_temp_def
    by (intro keeps_combinators) (auto split: sum.split intro!: keeps_combinators framed_io(6))
qed

lemma framed_fill_temp: "p \<noteq> tmp \<Longrightarrow> framed (keeps p) (fill_temp E want resp tmp)"
  unfolding fill_temp_def copy_body_def Let_def
  by (intro keeps_intros) (auto split: option.split intro!: keeps_intros)

lemma create_temp_made:
  assumes "create_temp E dest s = (Inr tmp, s')"
  shows "\<exists>x. tmp = dir_of dest @ ''/'' @ ''.pg_doorman-'' @ x \<and> sy_fs s' tmp = Some \<lparr>fi_data = [], fi_mode = 384\<rparr>"
proof -
  let ?mk = "CreateTemp (be_disk E) (dir_of dest) ''.pg_doorman-''"
  obtain r s1 where c: "?mk s = (r, s1)" by (rule prod.exhaust)
  then have "\<exists>t. ?mk t = (Inr tmp, s')"
    using assms unfolding create_temp_def mapErrS_iff
    by (cases r) (auto simp: bindS_def [of "tryS _"] bindS_Inr_iff)
  then show ?thesis using io_ok(6) by blast
qed

definition verified :: "bin_env \<Rightarrow> string \<Rightarrow> disk_file \<Rightarrow> bool" where
  "verified E want f \<longleftrightarrow> be_sha256 E (fi_data f) = want \<and> length (fi_data f) \<le> be_maxBytes E \<and> fi_mode f = 493"

lemma fill_temp_ok:
  assumes "sy_fs s tmp = Some \<lparr>fi_data = [], fi_mode = 384\<rparr>" "fill_temp E want resp tmp s = (Inr u, s')"
  shows "\<exists>f. sy_fs s' tmp = Some f \<and> verified E want f"
proof -
  let ?rest = "bindS (mapErrS BinIO (Chmod (be_disk E) tmp 493)) (\<lambda>_. bindS (mapErrS BinIO (Sync (be_disk E))) (\<lambda>_.
         mapErrS BinIO (Close (be_disk E))))"
  from assms(2) have "\<exists>s1 written. copy_body E tmp resp s = (Inr written, s1) \<and> length written \<le> be_maxBytes E \<and>
      be_sha256 E written = want \<and> ?rest s1 = (Inr u, s')"
    unfolding fill_temp_def bindS_Inr_iff [of "copy_body E tmp resp"] by (auto split: if_splits)
  then obtain s1 written where c: "copy_body E tmp resp s = (Inr written, s1)" "length written \<le> be_maxBytes E"
    "be_sha256 E written = want" and rest: "?rest s1 = (Inr u, s')" by blast
  from c(1) assms(1) have "sy_fs s1 tmp = Some \<lparr>fi_data = written, fi_mode = 384\<rparr>"
    by (auto simp: copy_body_def Let_def bindS_Inr_iff mapErrS_iff simp del: mapErrS_apply dest!: io_ok(2) split: option.splits if_splits)
  with c rest show ?thesis
    by (auto simp: verified_def bindS_Inr_iff mapErrS_iff simp del: mapErrS_apply dest!: io_ok)
qed

lemma install_body_replaces:
  assumes "plain_dest dest" and "install_body E want dest resp s = (r, s')"
  shows "replaces dest (verified E want) r s s'"
  using assms(2) unfolding install_body_def
  by (rule temp_install_replaces [OF assms(1), rotated -1])
    (use assms(1) in \<open>auto intro: framed_create_temp framed_fill_temp dest: create_temp_made fill_temp_ok
      simp: plain_dest_no_temp\<close>)

lemma Download_replaces:
  assumes "plain_dest dest" and run: "Download E y spec want dest s = (r, s')"
  shows "replaces dest (verified E want) r s s'"
proof (cases "\<exists>resp s1. http_do E (bs_URL spec @ ''/binaries/'' @ sn_arch y) s = (Inr resp, s1) \<and>
    install_body E want dest resp s1 = (r, s')")
  case True
  then obtain resp s1 where h: "http_do E (bs_URL spec @ ''/binaries/'' @ sn_arch y) s = (Inr resp, s1)"
    and b: "install_body E want dest resp s1 = (r, s')" by blast
  from keeps_replaces [OF keeps_run [OF framed_http_do h] install_body_replaces [OF assms(1) b]] show ?thesis .
next
  case False
  obtain x s1 where h: "http_do E (bs_URL spec @ ''/binaries/'' @ sn_arch y) s = (x, s1)" by (rule prod.exhaust)
  from False run h have "isl r" "s' = s \<or> s' = s1"
    by (cases "httpClientFor E spec"; auto simp: Download_def bindS_def split: sum.splits if_splits)+
  with keeps_run [OF framed_http_do h, of dest] show ?thesis
    by (cases r) (auto simp: replaces_def keeps_def)
qed

text \<open>A body that runs on a fresh name leaves every other path alone.\<close>

lemma framed_via_temp:
  assumes mk: "framed (keeps p) mk" and made: "\<And>s tmp s1. mk s = (Inr tmp, s1) \<Longrightarrow> p \<noteq> tmp"
    and body: "\<And>tmp. p \<noteq> tmp \<Longrightarrow> framed (keeps p) (body tmp)"
  shows "framed (keeps p) (bindS mk body)"
proof (unfold framed_def, intro allI)
  fix s
  obtain x s1 where m: "mk s = (x, s1)" by (rule prod.exhaust)
  have k: "keeps p s s1" by (rule keeps_run [OF mk m])
  show "keeps p s (snd (bindS mk body s))"
  proof (cases x)
    case (Inl e)
    with m k show ?thesis by (simp add: bindS_err [of mk])
  next
    case (Inr tmp)
    with made m have "keeps p s1 (snd (body tmp s1))" by (blast intro: framedD [of "keeps p"] body)
    with transpD [OF keeps_trans k] m Inr show ?thesis by (simp add: bindS_ok [of mk])
  qed
qed

lemma framed_install_body:
  assumes "no_temp dest p" "p \<noteq> dest"
  shows "framed (keeps p) (install_body E want dest resp)"
  unfolding install_body_def
proof (rule framed_via_temp)
  show "framed (keeps p) (create_temp E dest)" by (rule framed_create_temp [OF assms(1)])
  show "p \<noteq> tmp" if "create_temp E dest s = (Inr tmp, s1)" for s tmp s1
    using create_temp_made [OF that] no_temp_neq [OF assms(1)] by blast
qed (use assms(2) in \<open>intro framed_deferring keeps_combinators framed_fill_temp framed_io; simp\<close>)

lemma framed_atomicInstall:
  assumes "no_temp dest p" "p \<noteq> dest"
  shows "framed (keeps p) (atomicInstall D dest src)"
proof -
  let ?mk = "bindS (MkdirAll D (dir_of dest)) (\<lambda>_. CreateTemp D (dir_of dest) ''.pg_doorman-'')"
  have "framed (keeps p) (bindS ?mk (\<lambda>tmp. deferring (bindS (Write D tmp src) (\<lambda>_. bindS (Chmod D tmp 493) (\<lambda>_.
      bindS (Sync D) (\<lambda>_. bindS (Close D) (\<lambda>_. Rename D tmp dest))))) (bindS (tryS (Close D)) (\<lambda>_. Remove D tmp))))"
  proof (rule framed_via_temp)
    show "framed (keeps p) ?mk" using no_temp_neq [OF assms(1)] by (intro keeps_combinators framed_io) auto
    show "p \<noteq> tmp" if "?mk s = (Inr tmp, s1)" for s tmp s1
    proof -
      from that obtain s0 where "CreateTemp D (dir_of dest) ''.pg_doorman-'' s0 = (Inr tmp, s1)"
        unfolding bindS_Inr_iff by blast
      from io_ok(6) [OF this] no_temp_neq [OF assms(1)] show ?thesis by blast
    qed
  qed (use assms(2) in \<open>intro framed_deferring keeps_combinators framed_io; simp\<close>)
  then show ?thesis by (simp add: atomicInstall_def bindS_assoc)
qed

lemma framed_Download:
  assumes "no_temp dest p" "p \<noteq> dest"
  shows "framed (keeps p) (Download E y spec want dest)"
  unfolding Download_def
  by (auto split: sum.split intro!: keeps_combinators framed_http_do framed_install_body [OF assms])

section \<open>Reading changes nothing\<close>

definition same_files :: "'z sys_scheme \<Rightarrow> 'z sys_scheme \<Rightarrow> bool" where
  "same_files s s' \<longleftrightarrow> sy_fs s' = sy_fs s \<and> sy_hist s' = sy_hist s"

lemma same_files_replaces: "same_files s s1 \<Longrightarrow> replaces p c r s1 s2 = replaces p c r s s2"
  by (simp add: same_files_def replaces_def split: sum.split)

lemma same_files_trans: "same_files s t \<Longrightarrow> same_files t u \<Longrightarrow> same_files s u"
  by (simp add: same_files_def)

lemma ReadFile_run:
  "ReadFile D p s = (r, s') \<Longrightarrow>
     same_files s s' \<and> (case r of Inl NotExist \<Rightarrow> sy_fs s p = None | Inl (IOError e) \<Rightarrow> True
       | Inr d \<Rightarrow> \<exists>f. sy_fs s p = Some f \<and> d = fi_data f)"
  by (auto simp: ReadFile_def syscall_def same_files_def Let_def split: option.splits)

lemma FileSHA256_run:
  "FileSHA256 E p s = (r, s') \<Longrightarrow>
     same_files s s' \<and> (case r of Inl e \<Rightarrow> True | Inr d \<Rightarrow> \<exists>f. sy_fs s p = Some f \<and> d = be_sha256 E (fi_data f))"
  by (auto simp: FileSHA256_def bindS_def split: prod.splits sum.splits dest!: ReadFile_run)

lemma replaces_mono: "replaces p c r s s' \<Longrightarrow> (\<And>f. c f \<Longrightarrow> c' f) \<Longrightarrow> replaces p c' r s s'"
  unfolding replaces_def by (auto split: sum.splits) blast+

lemma replaces_after_error: "replaces p c (Inl e) s s1 \<Longrightarrow> replaces p c r s1 s2 \<Longrightarrow> replaces p c r s s2"
proof -
  assume "replaces p c (Inl e) s s1" "replaces p c r s1 s2"
  then obtain xs ys where "sy_hist s1 = sy_hist s @ xs" "\<forall>h \<in> set xs. h p = sy_fs s p \<or> (\<exists>f. h p = Some f \<and> c f)"
    "sy_fs s1 p = sy_fs s p" "sy_hist s2 = sy_hist s1 @ ys"
    "\<forall>h \<in> set ys. h p = sy_fs s1 p \<or> (\<exists>f. h p = Some f \<and> c f)"
    "case r of Inl _ \<Rightarrow> sy_fs s2 p = sy_fs s1 p | Inr _ \<Rightarrow> \<exists>f. sy_fs s2 p = Some f \<and> c f"
    by (auto simp: replaces_def)
  then show ?thesis unfolding replaces_def by (auto intro!: exI [of _ "xs @ ys"] split: sum.splits)
qed

lemma same_files_fail: "same_files s s' \<Longrightarrow> replaces p c (Inl e) s s'"
  by (auto simp: same_files_def replaces_def)

section \<open>The image binary, proved\<close>

definition apart :: "binary_syncer \<Rightarrow> bool" where
  "apart y \<longleftrightarrow> plain_dest (sn_runtimePath y) \<and> no_temp (sn_runtimePath y) (sn_imagePath y) \<and>
     sn_imagePath y \<noteq> sn_runtimePath y"

definition has_digest :: "bin_env \<Rightarrow> string \<Rightarrow> disk_file \<Rightarrow> bool" where
  "has_digest E d f \<longleftrightarrow> be_sha256 E (fi_data f) = d"

lemma installFromImage_replaces:
  assumes "apart y" and img: "sy_fs s (sn_imagePath y) = Some img" and run: "installFromImage E y want s = (r, s')"
  shows "replaces (sn_runtimePath y) (has_digest E (be_sha256 E (fi_data img))) r s s'"
proof -
  obtain h s1 where h: "FileSHA256 E (sn_imagePath y) s = (h, s1)" by (rule prod.exhaust)
  note h1 = FileSHA256_run [OF h]
  show ?thesis
  proof (cases "\<exists>d. h = Inr d \<and> (want = [] \<or> d = want)")
    case False
    with run h h1 show ?thesis
      by (cases h) (auto simp: installFromImage_def bindS_def intro!: same_files_fail split: if_splits)
  next
    case True
    with h1 img have d: "h = Inr (be_sha256 E (fi_data img))" "want = [] \<or> be_sha256 E (fi_data img) = want" by auto
    obtain c s2 where c: "FileSHA256 E (sn_runtimePath y) s1 = (c, s2)" by (rule prod.exhaust)
    note c1 = FileSHA256_run [OF c]
    have s2: "same_files s s2" using h1 c1 same_files_trans by blast
    show ?thesis
    proof (cases "c = Inr (be_sha256 E (fi_data img))")
      case True
      with run h d c have "r = Inr ()" "s' = s2"
        by (auto simp: installFromImage_def runtime_has_def bindS_def split: if_splits)
      with True c1 h1 s2 show ?thesis
        by (auto simp: replaces_def same_files_def has_digest_def)
    next
      case False
      obtain x s3 where rd: "ReadFile (be_disk E) (sn_imagePath y) s2 = (x, s3)" by (rule prod.exhaust)
      note x1 = ReadFile_run [OF rd]
      have s3: "same_files s s3" using s2 x1 same_files_trans by blast
      show ?thesis
      proof (cases x)
        case (Inl e)
        with run h d c False rd have "isl r" "s' = s3"
          by (auto simp: installFromImage_def runtime_has_def bindS_def)
        with s3 show ?thesis by (cases r) (auto intro: same_files_fail)
      next
        case (Inr src)
        with x1 s2 img have src: "src = fi_data img" by (auto simp: same_files_def)
        obtain r' where inst: "atomicInstall (be_disk E) (sn_runtimePath y) src s3 = (r', s')" "r = map_sum BinIO id r'"
          using run h d c False rd Inr
          by (cases "atomicInstall (be_disk E) (sn_runtimePath y) src s3")
            (auto simp: installFromImage_def runtime_has_def bindS_def)
        from assms(1) have "plain_dest (sn_runtimePath y)" by (simp add: apart_def)
        from atomicInstall_replaces [OF this inst(1)] same_files_replaces [OF s3]
        have "replaces (sn_runtimePath y) (\<lambda>f. fi_data f = src \<and> fi_mode f = 493) r' s s'" by blast
        then show ?thesis unfolding src inst(2) replaces_def has_digest_def
          by (cases r') (auto, metis+)
      qed
    qed
  qed
qed

lemma framed_installFromImage:
  assumes "no_temp (sn_runtimePath y) p" "p \<noteq> sn_runtimePath y"
  shows "framed (keeps p) (installFromImage E y want)"
  using assms unfolding installFromImage_def
  by (auto intro!: keeps_combinators framed_io framed_atomicInstall)

section \<open>Start-up, proved\<close>

lemma with_gauge_run:
  "with_gauge stale (bindS m (\<lambda>_. retS a)) s = (Inr b, stale', s') \<longleftrightarrow>
     (\<exists>u. m s = (Inr u, s')) \<and> b = a \<and> stale' = stale"
  by (auto simp: with_gauge_def bindS_def split: prod.splits sum.splits)

lemma with_gauge_keeps: "framed (keeps p) m \<Longrightarrow> keeps p s (snd (snd (with_gauge stale m s)))"
  using keeps_run [of p m s] by (auto simp: with_gauge_def split: prod.split)

text \<open>Only the runtime binary and temporary files beside it are touched.\<close>

lemma ensure_digest_keeps:
  assumes "no_temp (sn_runtimePath y) p" "p \<noteq> sn_runtimePath y"
  shows "keeps p s (snd (snd (ensure_digest E y spec d data stale s)))"
proof -
  let ?p = p
  obtain cur s1 where cur: "FileSHA256 E (sn_runtimePath y) s = (cur, s1)" by (rule prod.exhaust)
  obtain im s2 where im: "FileSHA256 E (sn_imagePath y) s1 = (im, s2)" by (rule prod.exhaust)
  obtain x s3 where dl: "Download E y spec d (sn_runtimePath y) s2 = (x, s3)" by (rule prod.exhaust)
  note trans = transpD [OF keeps_trans]
  have k: "keeps ?p s s1" "keeps ?p s1 s2" "keeps ?p s2 s3"
    using keeps_run [OF framed_FileSHA256 cur] keeps_run [OF framed_FileSHA256 im]
      keeps_run [OF framed_Download [OF assms] dl] .
  have inst: "keeps ?p t (snd (snd (with_gauge b (bindS (installFromImage E y want) (\<lambda>_. retS a)) t)))"
    for b want t and a :: "string option"
    by (intro with_gauge_keeps keeps_combinators framed_installFromImage assms)
  show ?thesis
    using cur im dl k trans [OF k(1,2)] trans [OF trans [OF k(1,2)] k(3)]
      trans [OF trans [OF k(1,2)] inst] trans [OF trans [OF trans [OF k(1,2)] k(3)] inst]
    by (auto simp: ensure_digest_def split: sum.split)
qed

lemma EnsureAtStartup_keeps:
  assumes "no_temp (sn_runtimePath y) p" "p \<noteq> sn_runtimePath y"
  shows "keeps p s (snd (snd (EnsureAtStartup E y stale s)))"
proof -
  let ?p = p
  obtain r s1 where rd: "ReadFile (be_disk E) (sn_specPath y) s = (r, s1)" by (rule prod.exhaust)
  have k: "keeps ?p s s1" using keeps_run [OF framed_io(1) rd] .
  note trans = transpD [OF keeps_trans k]
  have "keeps ?p s1 (snd (snd (with_gauge stale (bindS (installFromImage E y []) (\<lambda>_. retS data)) s1)))" for data :: "string option"
    by (intro with_gauge_keeps keeps_combinators framed_installFromImage assms)
  from trans [OF this] trans [OF ensure_digest_keeps [OF assms]] k rd show ?thesis
    by (auto simp: EnsureAtStartup_def Let_def split: sum.splits io_error.splits option.split)
qed

lemma ensure_digest_result:
  assumes y: "apart y" and img: "sy_fs s (sn_imagePath y) = Some img"
    and run: "ensure_digest E y spec d data stale s = (Inr seed, stale', s')"
  shows "\<exists>f. sy_fs s' (sn_runtimePath y) = Some f \<and>
    (has_digest E d f \<and> seed = data \<or> has_digest E (be_sha256 E (fi_data img)) f \<and> seed = None \<and> stale')"
proof -
  obtain cur s1 where cur: "FileSHA256 E (sn_runtimePath y) s = (cur, s1)" by (rule prod.exhaust)
  obtain im s2 where im: "FileSHA256 E (sn_imagePath y) s1 = (im, s2)" by (rule prod.exhaust)
  note c1 = FileSHA256_run [OF cur] and i1 = FileSHA256_run [OF im]
  have s2: "same_files s s2" using c1 i1 same_files_trans by blast
  consider (current) "cur = Inr d" | (image) "cur \<noteq> Inr d" "im = Inr d" | (download) "cur \<noteq> Inr d" "im \<noteq> Inr d" by blast
  then show ?thesis
  proof cases
    case current
    with run cur c1 show ?thesis by (auto simp: ensure_digest_def same_files_def has_digest_def)
  next
    case image
    with run cur im obtain u where "installFromImage E y d s2 = (Inr u, s')" "seed = data"
      by (auto simp: ensure_digest_def with_gauge_run)
    moreover have "sy_fs s2 (sn_imagePath y) = Some img" using s2 img by (simp add: same_files_def)
    moreover have "be_sha256 E (fi_data img) = d" using image i1 c1 img by (auto simp: same_files_def)
    ultimately show ?thesis using installFromImage_replaces [OF y] by (fastforce simp: replaces_def)
  next
    case download
    obtain x s3 where dl: "Download E y spec d (sn_runtimePath y) s2 = (x, s3)" by (rule prod.exhaust)
    have plain: "plain_dest (sn_runtimePath y)" "no_temp (sn_runtimePath y) (sn_imagePath y)"
      "sn_imagePath y \<noteq> sn_runtimePath y" using y by (simp_all add: apart_def)
    show ?thesis
    proof (cases x)
      case (Inl e)
      with download run cur im dl obtain u where "installFromImage E y [] s3 = (Inr u, s')" "seed = None" "stale'"
        by (auto simp: ensure_digest_def with_gauge_run)
      moreover have "sy_fs s3 (sn_imagePath y) = Some img"
        using keeps_run [OF framed_Download [OF plain(2,3)] dl] s2 img by (simp add: same_files_def keeps_def)
      ultimately show ?thesis using installFromImage_replaces [OF y] by (fastforce simp: replaces_def)
    next
      case (Inr u)
      with download run cur im dl have "seed = data" "s' = s3" by (auto simp: ensure_digest_def)
      with Download_replaces [OF plain(1) dl] Inr show ?thesis
        by (auto simp: replaces_def verified_def has_digest_def)
    qed
  qed
qed

text \<open>A started wrapper has a binary it can account for. When \<open>EnsureAtStartup\<close> succeeds, the runtime path holds
  the binary with the digest the mounted spec asks for, and the seed is the spec; or, when the download failed, the image
  binary, with no seed, so that the watcher tries again, and with the staleness gauge set; without a usable digest
  it is the image binary. System calls may fail anywhere and the endpoint may answer anything.\<close>

theorem EnsureAtStartup_correct:
  assumes "apart y" and "sy_fs s (sn_imagePath y) = Some img"
    and "EnsureAtStartup E y stale s = (Inr seed, stale', s')"
  shows "\<exists>f. sy_fs s' (sn_runtimePath y) = Some f \<and>
    (case desired_digest E y (map_option fi_data (sy_fs s (sn_specPath y))) of
       None \<Rightarrow> has_digest E (be_sha256 E (fi_data img)) f \<and> seed = map_option fi_data (sy_fs s (sn_specPath y))
     | Some (spec, d) \<Rightarrow>
         has_digest E d f \<and> seed = map_option fi_data (sy_fs s (sn_specPath y)) \<or>
         has_digest E (be_sha256 E (fi_data img)) f \<and> seed = None \<and> stale')"
proof -
  obtain r s1 where rd: "ReadFile (be_disk E) (sn_specPath y) s = (r, s1)" by (rule prod.exhaust)
  note r1 = ReadFile_run [OF rd]
  define data where "data = map_option fi_data (sy_fs s (sn_specPath y))"
  let ?go = "\<lambda>data. case desired_digest E y data of
      None \<Rightarrow> with_gauge stale (bindS (installFromImage E y []) (\<lambda>_. retS data)) s1
    | Some (spec, d) \<Rightarrow> ensure_digest E y spec d data stale s1"
  from rd r1 assms(3) have start: "?go (case r of Inl _ \<Rightarrow> None | Inr d \<Rightarrow> Some d) = (Inr seed, stale', s')"
    and eq: "(case r of Inl _ \<Rightarrow> None | Inr d \<Rightarrow> Some d) = data"
    by (auto simp: EnsureAtStartup_def Let_def data_def split: sum.splits io_error.splits)
  from start have go: "?go data = (Inr seed, stale', s')" unfolding eq .
  have img: "sy_fs s1 (sn_imagePath y) = Some img" using r1 assms(2) by (simp add: same_files_def)
  show ?thesis
  proof (cases "desired_digest E y data")
    case None
    with go obtain u where "installFromImage E y [] s1 = (Inr u, s')" "seed = data"
      by (auto simp: with_gauge_run)
    with installFromImage_replaces [OF assms(1) img] None show ?thesis by (fastforce simp: replaces_def simp flip: data_def)
  next
    case (Some sd)
    with go ensure_digest_result [OF assms(1) img, of E "fst sd" "snd sd" data stale seed stale' s'] show ?thesis
      by (cases sd) (auto simp flip: data_def)
  qed
qed

section \<open>The watcher, proved\<close>

text \<open>The \<open>Upgrader\<close> interface: its operations do not touch files.\<close>

locale upgrader =
  fixes upgrade :: "('z sys_scheme, 'e, unit) st"
    and inFlight :: "'z sys_scheme \<Rightarrow> bool \<times> 'z sys_scheme"
  assumes upgrade_files: "sy_fs (snd (upgrade s)) = sy_fs s"
    and inFlight_files: "sy_fs (snd (inFlight s)) = sy_fs s"
begin

lemma swap_binary_files:
  assumes "swap_binary E V upgrade w data s = (w', s')" "bin_candidate w \<noteq> bw_runtimePath w"
  shows "sy_fs s' (bw_runtimePath w) = sy_fs s (bw_runtimePath w) \<or>
    sy_fs s' (bw_runtimePath w) = sy_fs s (bin_candidate w) \<and>
    (\<exists>n. wv_exec V n (sy_fs s (bin_candidate w)) (sy_fs s (bw_configPath w)) = None)"
proof -
  obtain t s1 where t: "NewBinaryConfigTester V (bin_candidate w) (bw_configPath w) s = (t, s1)" by (rule prod.exhaust)
  then have s1: "sy_fs s1 = sy_fs s"
    and accepted: "t = Inr () \<Longrightarrow> wv_exec V (sy_n s) (sy_fs s (bin_candidate w)) (sy_fs s (bw_configPath w)) = None"
    by (auto simp: NewBinaryConfigTester_def split: option.splits)
  obtain x s2 where x: "Rename (be_disk E) (bin_candidate w) (bw_runtimePath w) s1 = (x, s2)" by (rule prod.exhaust)
  have "keeps (bw_runtimePath w) s1 (snd (Remove (be_disk E) (bin_candidate w) s1))"
    using assms(2) by (intro framedD [of "keeps _"] framed_io) auto
  with t x s1 accepted Rename_cases [OF x] upgrade_files [of s2] assms show ?thesis
    by (auto simp: swap_binary_def keeps_def split: sum.splits prod.splits)
qed

text \<open>One poll either leaves the runtime binary alone or replaces it by a binary that has the digest of the mounted
  spec and has itself accepted the current configuration.\<close>

lemma bin_check_runtime:
  assumes "plain_dest (bw_runtimePath w)" "plain_dest (bin_candidate w)" "no_temp (bin_candidate w) (bw_runtimePath w)"
    "no_temp (bin_candidate w) (bw_configPath w)" "bin_candidate w \<notin> {bw_runtimePath w, bw_configPath w}"
    and run: "bin_check E V upgrade inFlight w s = (w', s')"
  shows "sy_fs s' (bw_runtimePath w) = sy_fs s (bw_runtimePath w) \<or>
    (\<exists>f doc spec. sy_fs s' (bw_runtimePath w) = Some f \<and> sy_fs s (bw_specPath w) = Some doc \<and>
       ParseBinarySpec (be_decode E) (fi_data doc) = Inr spec \<and> verified E (digest_for spec (bw_arch w)) f \<and>
       (\<exists>n. wv_exec V n (Some f) (sy_fs s (bw_configPath w)) = None))"
proof -
  obtain r s1 where rd: "ReadFile (be_disk E) (bw_specPath w) s = (r, s1)" by (rule prod.exhaust)
  note r1 = ReadFile_run [OF rd]
  show ?thesis
  proof (cases "\<exists>doc spec. r = Inr (fi_data doc) \<and> sy_fs s (bw_specPath w) = Some doc \<and>
      ParseBinarySpec (be_decode E) (fi_data doc) = Inr spec \<and>
      apply_spec E V upgrade inFlight w (fi_data doc) spec (digest_for spec (bw_arch w)) s1 = (w', s')")
    case False
    with run rd r1 have "sy_fs s' = sy_fs s"
      by (auto simp: bin_check_def same_files_def Let_def split: sum.splits if_splits)
    then show ?thesis by simp
  next
    case True
    then obtain doc spec where doc: "sy_fs s (bw_specPath w) = Some doc"
      and spec: "ParseBinarySpec (be_decode E) (fi_data doc) = Inr spec"
      and ap: "apply_spec E V upgrade inFlight w (fi_data doc) spec (digest_for spec (bw_arch w)) s1 = (w', s')" by blast
    let ?d = "digest_for spec (bw_arch w)" and ?w = "w\<lparr>bw_stale := True\<rparr>"
    obtain c s2 where c: "FileSHA256 E (bw_runtimePath w) s1 = (c, s2)" by (rule prod.exhaust)
    obtain b s3 where b: "inFlight s2 = (b, s3)" by (rule prod.exhaust)
    obtain x s4 where dl: "Download E (bw_syncer w) spec ?d (bin_candidate w) s3 = (x, s4)" by (rule prod.exhaust)
    have s3: "sy_fs s2 = sy_fs s" "sy_fs s3 = sy_fs s"
      using r1 FileSHA256_run [OF c] inFlight_files [of s2] b by (auto simp: same_files_def)
    have s4: "sy_fs s4 (bw_runtimePath w) = sy_fs s (bw_runtimePath w)" "sy_fs s4 (bw_configPath w) = sy_fs s (bw_configPath w)"
      using keeps_run [OF framed_Download [OF assms(3)] dl] keeps_run [OF framed_Download [OF assms(4)] dl] assms(5) s3
      by (auto simp: keeps_def)
    show ?thesis
    proof (cases "c \<noteq> Inr ?d \<and> \<not> b \<and> x = Inr ()")
      case False
      with ap c b dl s3 s4 show ?thesis
        by (auto simp: apply_spec_def Let_def split: sum.splits if_splits bool.splits)
    next
      case True
      with Download_replaces [OF assms(2) dl] obtain f where f: "sy_fs s4 (bin_candidate w) = Some f" "verified E ?d f"
        by (auto simp: replaces_def)
      have cand: "bin_candidate ?w = bin_candidate w" by (simp add: bin_candidate_def)
      from True ap c b dl have "swap_binary E V upgrade ?w (fi_data doc) s4 = (w', s')"
        by (auto simp: apply_spec_def Let_def)
      from swap_binary_files [OF this] assms(5) f s4 doc spec show ?thesis
        unfolding cand by auto
    qed
  qed
qed

end

interpretation process_upgrades: upgrader "Upgrade P" "UpgradeInFlight P" for P
proof unfold_locales
  show "sy_fs (snd (Upgrade P s)) = sy_fs s" for s
    using signalLocked_files [of P SIGUSR2 s]
    by (cases "signalLocked P SIGUSR2 s")
      (auto simp: Upgrade_def bindS_def now_def Let_def split: sum.splits)
  show "sy_fs (snd (UpgradeInFlight P s)) = sy_fs s" for s
    by (auto simp: UpgradeInFlight_def upgradeRequestFreshLocked_def waitDelay_def now_def ReadFile_def syscall_def Let_def
        split: option.splits)
qed

text \<open>The paths of the wrapper: temporary files of a download and the candidate never hide another file.\<close>

lemma wrapper_paths:
  "plain_dest RuntimeBinaryPath" "plain_dest (RuntimeBinaryPath @ binaryCandidateSuffix)"
  "no_temp (RuntimeBinaryPath @ binaryCandidateSuffix) RuntimeBinaryPath"
  "no_temp (RuntimeBinaryPath @ binaryCandidateSuffix) RuntimeConfigPath"
  "RuntimeBinaryPath @ binaryCandidateSuffix \<notin> {RuntimeBinaryPath, RuntimeConfigPath}"
  by (code_simp, code_simp, code_simp, code_simp, code_simp)

interpretation delivery: atomic_install "\<lambda>want. Download E y spec want RuntimeBinaryPath" RuntimeBinaryPath "verified E"
  for E y spec
  by unfold_locales (rule Download_replaces [OF wrapper_paths(1)])

text \<open>Delivery is atomic and verified. Through any sequence of downloads to the runtime path, whatever the endpoint
  sends and whichever system calls fail, every state of the file system has there the original binary or a
  complete executable file, within the size limit, with one of the requested digests.\<close>

theorem Download_atomic:
  "\<exists>hs. sy_hist (fold (\<lambda>want s. snd (Download E y spec want RuntimeBinaryPath s)) wants s) = sy_hist s @ hs \<and>
     {h RuntimeBinaryPath | h. h \<in> set (sy_fs (fold (\<lambda>want s. snd (Download E y spec want RuntimeBinaryPath s)) wants s) # hs)} \<subseteq>
       {sy_fs s RuntimeBinaryPath} \<union>
       {Some f | f. be_sha256 E (fi_data f) \<in> set wants \<and> length (fi_data f) \<le> be_maxBytes E \<and> fi_mode f = 493}"
proof -
  from delivery.reader_sees_whole [of E y spec wants s] obtain hs where
    "sy_hist (fold (\<lambda>want s. snd (Download E y spec want RuntimeBinaryPath s)) wants s) = sy_hist s @ hs"
    "\<forall>h \<in> set (sy_fs (fold (\<lambda>want s. snd (Download E y spec want RuntimeBinaryPath s)) wants s) # hs).
        h RuntimeBinaryPath = sy_fs s RuntimeBinaryPath \<or>
        (\<exists>d \<in> set wants. \<exists>f. h RuntimeBinaryPath = Some f \<and> verified E d f)"
    by blast
  then show ?thesis by (intro exI [of _ hs]) (fastforce simp: verified_def)
qed

text \<open>(C14) Only vetted binaries are swapped in. One poll of the watcher the wrapper creates, over the real process, either
  leaves the runtime binary alone or replaces it by one whose digest is the one the mounted spec has for this
  architecture and which itself accepted the running configuration.\<close>

theorem binary_swap_vetted:
  assumes "bin_check E V (Upgrade P) (UpgradeInFlight P) (Seed seed (NewBinaryWatcher specPath y arch stale)) s = (w', s')"
  shows "sy_fs s' RuntimeBinaryPath = sy_fs s RuntimeBinaryPath \<or>
    (\<exists>f doc spec. sy_fs s' RuntimeBinaryPath = Some f \<and> sy_fs s specPath = Some doc \<and>
       ParseBinarySpec (be_decode E) (fi_data doc) = Inr spec \<and> be_sha256 E (fi_data f) = digest_for spec arch \<and>
       (\<exists>n. wv_exec V n (Some f) (sy_fs s RuntimeConfigPath) = None))"
proof -
  let ?w = "Seed seed (NewBinaryWatcher specPath y arch stale)"
  have w: "bw_runtimePath ?w = RuntimeBinaryPath" "bw_configPath ?w = RuntimeConfigPath" "bw_specPath ?w = specPath"
    "bw_arch ?w = arch" "bin_candidate ?w = RuntimeBinaryPath @ binaryCandidateSuffix"
    by (simp_all add: Seed_def NewBinaryWatcher_def bin_candidate_def)
  from process_upgrades.bin_check_runtime [of ?w E V P s w' s', unfolded w, OF wrapper_paths assms] show ?thesis
    by (auto simp: verified_def)
qed

text \<open>A swap waits for the running handover. While an upgrade is in flight, a poll of the binary watcher changes no
  file and sends no signal, and it leaves the spec unapplied, so that the next poll tries again.\<close>

theorem upgrade_deferred:
  assumes "\<And>n. fst (UpgradeInFlight P (s\<lparr>sy_n := n\<rparr>))"
    and "bin_check E V (Upgrade P) (UpgradeInFlight P) w s = (w', s')"
    and "ReadFile (be_disk E) (bw_specPath w) s = (Inr data, s1)"
    and "ParseBinarySpec (be_decode E) data = Inr spec" and "digest_for spec (bw_arch w) \<noteq> []"
    and "data \<noteq> bw_lastSpec w" and "fst (FileSHA256 E (bw_runtimePath w) s1) \<noteq> Inr (digest_for spec (bw_arch w))"
  shows "sy_fs s' = sy_fs s \<and> bw_lastSpec w' = bw_lastSpec w \<and> bw_stale w' \<and>
    filter (\<lambda>e. case e of Kill _ _ _ \<Rightarrow> True | _ \<Rightarrow> False) (p_log s') =
    filter (\<lambda>e. case e of Kill _ _ _ \<Rightarrow> True | _ \<Rightarrow> False) (p_log s)"
proof -
  have s1: "\<exists>n. s1 = s\<lparr>sy_n := n\<rparr>"
    using assms(3) by (auto simp: ReadFile_def syscall_def Let_def split: option.splits)
  obtain c s2 where c: "FileSHA256 E (bw_runtimePath w) s1 = (c, s2)" by (rule prod.exhaust)
  then have s2: "\<exists>n. s2 = s\<lparr>sy_n := n\<rparr>"
    using s1 by (auto simp: FileSHA256_def bindS_def ReadFile_def syscall_def Let_def split: option.splits sum.splits prod.splits)
  then obtain n where n: "s2 = s\<lparr>sy_n := n\<rparr>" by blast
  from assms(1) [of n] obtain s3 where s3: "UpgradeInFlight P s2 = (True, s3)" using n by (metis prod.collapse)
  have "filter (\<lambda>e. case e of Kill _ _ _ \<Rightarrow> True | _ \<Rightarrow> False) (p_log s3) =
      filter (\<lambda>e. case e of Kill _ _ _ \<Rightarrow> True | _ \<Rightarrow> False) (p_log s2)"
    using s3 by (auto simp: UpgradeInFlight_def upgradeRequestFreshLocked_def waitDelay_def now_def ReadFile_def syscall_def
        Let_def log_ev_def split: if_splits option.splits sum.splits prod.splits)
  moreover have "sy_fs s3 = sy_fs s2" using process_upgrades.inFlight_files [of P s2] s3 by simp
  moreover have "(w', s') = (w\<lparr>bw_stale := True\<rparr>, s3)"
    using assms(2-7) c s3 by (simp add: bin_check_def apply_spec_def Let_def)
  ultimately show ?thesis using n by simp
qed

section \<open>The first configuration\<close>

definition fw_writes :: "file_watcher \<Rightarrow> string list" where
  "fw_writes w = [fw_runtimePath w, candidate_path w, tmp_path (candidate_path w), fw_keyPath w, tmp_path (fw_keyPath w)]"

lemma framed_materialize: "p \<notin> set (fw_writes w) \<Longrightarrow> framed (keeps p) (materialize V w data)"
  unfolding materialize_def fw_writes_def
  by (intro keeps_combinators framed_io)
    (auto split: option.split sum.split
      intro!: keeps_combinators framed_io framed_EnsurePKCS8Key framed_AtomicWrite framed_tester)

lemma framed_ApplyInitial: "p \<notin> set (fw_writes w) \<Longrightarrow> framed (keeps p) (ApplyInitial V w)"
  unfolding ApplyInitial_def by (intro keeps_combinators framed_io framed_materialize)

lemma ApplyInitial_tested:
  assumes "fw_setup w" "ApplyInitial V w s = (Inr w', s')"
  shows "\<exists>f. sy_fs s' (fw_runtimePath w) = Some f \<and> tested V f"
proof -
  have "fw_init V (w', s')" using assms unfolding fw_init_def by auto
  from fw_init_inv [OF this] have "\<exists>f. sy_fs s' (fw_runtimePath w') = Some f \<and> tested V f" by (simp add: fw_inv_def)
  moreover have "fw_runtimePath w' = fw_runtimePath w"
    using assms(2) by (auto simp: ApplyInitial_def bindS_Inr_iff)
  ultimately show ?thesis by simp
qed

lemma ApplyInitialConfig_keeps:
  assumes "no_temp (sn_runtimePath y) p" "p \<noteq> sn_runtimePath y" "p \<notin> set (fw_writes w)"
  shows "keeps p s (snd (snd (ApplyInitialConfig E V w y seed stale s)))"
proof -
  note ap = keeps_run [OF framed_ApplyInitial [OF assms(3)]]
  have "framed (keeps p) (RevertToImage E y)"
    unfolding RevertToImage_def by (auto intro!: keeps_combinators framed_installFromImage assms split: sum.split)
  note rv = keeps_run [OF this]
  show ?thesis unfolding ApplyInitialConfig_def
    by (auto split: prod.splits sum.splits dest!: ap rv intro: transpD [OF keeps_trans])
qed

lemma RevertToImage_result:
  assumes "apart y" "sy_fs s (sn_imagePath y) = Some img" "RevertToImage E y s = (Inr True, s')"
  shows "\<exists>f. sy_fs s' (sn_runtimePath y) = Some f \<and> has_digest E (be_sha256 E (fi_data img)) f"
proof -
  obtain h s1 where h: "FileSHA256 E (sn_imagePath y) s = (h, s1)" by (rule prod.exhaust)
  with assms(3) obtain d where d: "h = Inr d" by (cases h) (auto simp: RevertToImage_def bindS_def)
  obtain c s2 where c: "FileSHA256 E (sn_runtimePath y) s1 = (c, s2)" by (rule prod.exhaust)
  from assms(3) h d c have inst: "installFromImage E y [] s2 = (Inr (), s')"
    by (auto simp: RevertToImage_def runtime_has_def bindS_def split: if_splits prod.splits sum.splits)
  have "sy_fs s2 (sn_imagePath y) = Some img"
    using FileSHA256_run [OF h] FileSHA256_run [OF c] assms(2) by (simp add: same_files_def)
  from installFromImage_replaces [OF assms(1) this inst] show ?thesis by (simp add: replaces_def)
qed

text \<open>A wrapper that starts serves a tested configuration. When \<open>ApplyInitialConfig\<close> succeeds, the configuration at the
  runtime path was accepted by the binary then installed; either the first attempt succeeded, and binary, seed and
  gauge are unchanged, or the image binary was put back, the gauge is set, and the missing seed makes the
  watcher retry the desired binary.\<close>

theorem ApplyInitialConfig_correct:
  assumes "fw_setup w" "apart y" "set [sn_runtimePath y, sn_imagePath y] \<inter> set (fw_writes w) = {}"
    and "sy_fs s (sn_imagePath y) = Some img"
    and run: "ApplyInitialConfig E V w y seed stale s = (Inr (w', seed'), stale', s')"
  shows "(\<exists>f. sy_fs s' (fw_runtimePath w) = Some f \<and> tested V f) \<and>
    (seed' = seed \<and> stale' = stale \<and> sy_fs s' (sn_runtimePath y) = sy_fs s (sn_runtimePath y) \<or>
     seed' = None \<and> stale' \<and> (\<exists>f. sy_fs s' (sn_runtimePath y) = Some f \<and> has_digest E (be_sha256 E (fi_data img)) f))"
proof -
  obtain a s1 where a: "ApplyInitial V w s = (a, s1)" by (rule prod.exhaust)
  have p: "sn_runtimePath y \<notin> set (fw_writes w)" "sn_imagePath y \<notin> set (fw_writes w)" using assms(3) by auto
  have s1: "sy_fs s1 (sn_runtimePath y) = sy_fs s (sn_runtimePath y)" "sy_fs s1 (sn_imagePath y) = Some img"
    using keeps_run [OF framed_ApplyInitial [OF p(1)] a] keeps_run [OF framed_ApplyInitial [OF p(2)] a] assms(4)
    by (simp_all add: keeps_def)
  show ?thesis
  proof (cases a)
    case (Inr w1)
    with a run have "seed' = seed" "stale' = stale" "s' = s1" by (auto simp: ApplyInitialConfig_def)
    with ApplyInitial_tested [OF assms(1)] a Inr s1 show ?thesis by blast
  next
    case (Inl err)
    obtain v s2 where v: "RevertToImage E y s1 = (v, s2)" by (rule prod.exhaust)
    obtain b s3 where b: "ApplyInitial V w s2 = (b, s3)" by (rule prod.exhaust)
    from run a Inl v b have end_state: "v = Inr True" "\<exists>w1. b = Inr w1" "seed' = None" "stale'" "s' = s3"
      by (auto simp: ApplyInitialConfig_def split: sum.splits if_splits)
    from keeps_run [OF framed_ApplyInitial [OF p(1)] b]
    have "sy_fs s3 (sn_runtimePath y) = sy_fs s2 (sn_runtimePath y)" by (simp add: keeps_def)
    with RevertToImage_result [OF assms(2) s1(2)] v end_state ApplyInitial_tested [OF assms(1)] b show ?thesis by auto
  qed
qed

section \<open>A concrete delivery\<close>

definition demo_spec :: BinarySpec where
  "demo_spec = \<lparr>bs_URL = ''https://plugin'', bs_SHA256 = [(''amd64'', ''#new'')], bs_CABundle = []\<rparr>"

definition demo_bin :: bin_env where
  "demo_bin = \<lparr>be_disk = quiet_disk, be_sha256 = (\<lambda>d. CHR ''#'' # d),
     be_decode = (\<lambda>d. if d = ''spec'' then Inr demo_spec else Inl ''bad''), be_certs = (\<lambda>_. True),
     be_http = (\<lambda>_ _. Inr \<lparr>hr_StatusCode = 200, hr_ContentLength = 3, hr_Body = ''new'', hr_BodyError = None\<rparr>),
     be_maxBytes = 10\<rparr>"

definition demo_syncer :: binary_syncer where
  "demo_syncer = NewBinarySyncer ''/etc/binary.json'' ImageBinaryPath RuntimeBinaryPath ''amd64''"

definition demo_disk :: process where
  "demo_disk = demo_process\<lparr>sy_fs :=
     [''/etc/binary.json'' \<mapsto> \<lparr>fi_data = ''spec'', fi_mode = 420\<rparr>,
      ImageBinaryPath \<mapsto> \<lparr>fi_data = ''old'', fi_mode = 493\<rparr>,
      RuntimeBinaryPath \<mapsto> \<lparr>fi_data = ''old'', fi_mode = 493\<rparr>,
      RuntimeConfigPath \<mapsto> \<lparr>fi_data = ''yaml'', fi_mode = 384\<rparr>,
      ''src'' \<mapsto> \<lparr>fi_data = ''yaml'', fi_mode = 384\<rparr>],
    p_cmd := Some \<lparr>cm_Pid = Some 20, cm_WaitDelay = 0\<rparr>\<rparr>"

lemma demo_apart: "apart demo_syncer"
  by code_simp

lemma demo_image: "sy_fs demo_disk (sn_imagePath demo_syncer) = Some \<lparr>fi_data = ''old'', fi_mode = 493\<rparr>"
  by code_simp

theorem EnsureAtStartup_witness:
  "\<exists>f. sy_fs (snd (snd (EnsureAtStartup demo_bin demo_syncer False demo_disk))) RuntimeBinaryPath = Some f \<and>
     be_sha256 demo_bin (fi_data f) = ''#new''"
proof -
  have "fst (EnsureAtStartup demo_bin demo_syncer False demo_disk) = Inr (Some ''spec'')" by code_simp
  then obtain stale' s' where run: "EnsureAtStartup demo_bin demo_syncer False demo_disk = (Inr (Some ''spec''), stale', s')"
    by (metis prod.collapse)
  have "desired_digest demo_bin demo_syncer (map_option fi_data (sy_fs demo_disk (sn_specPath demo_syncer))) =
      Some (demo_spec, ''#new'')" by code_simp
  with EnsureAtStartup_correct [OF demo_apart demo_image run] run show ?thesis
    by (auto simp: has_digest_def demo_syncer_def NewBinarySyncer_def)
qed

theorem binary_swap_witness:
  "\<exists>f. sy_fs (snd (bin_check demo_bin demo_watch (Upgrade (demo_env [])) (UpgradeInFlight (demo_env []))
        (Seed None (NewBinaryWatcher ''/etc/binary.json'' demo_syncer ''amd64'' False)) demo_disk)) RuntimeBinaryPath = Some f \<and>
     be_sha256 demo_bin (fi_data f) = ''#new''"
proof -
  let ?w = "Seed None (NewBinaryWatcher ''/etc/binary.json'' demo_syncer ''amd64'' False)"
  obtain w' s' where run: "bin_check demo_bin demo_watch (Upgrade (demo_env [])) (UpgradeInFlight (demo_env [])) ?w demo_disk = (w', s')"
    by (rule prod.exhaust)
  have "sy_fs (snd (bin_check demo_bin demo_watch (Upgrade (demo_env [])) (UpgradeInFlight (demo_env [])) ?w demo_disk)) RuntimeBinaryPath \<noteq>
      sy_fs demo_disk RuntimeBinaryPath" by code_simp
  moreover have "ParseBinarySpec (be_decode demo_bin) ''spec'' = Inr demo_spec" "digest_for demo_spec ''amd64'' = ''#new''"
    "sy_fs demo_disk ''/etc/binary.json'' = Some \<lparr>fi_data = ''spec'', fi_mode = 420\<rparr>"
    by (code_simp, code_simp, code_simp)
  ultimately show ?thesis using binary_swap_vetted [OF run] run by auto
qed

theorem ApplyInitialConfig_witness:
  "\<exists>f. sy_fs (snd (snd (ApplyInitialConfig demo_bin demo_watch example_watcher demo_syncer None False demo_disk))) ''run'' = Some f \<and>
     tested demo_watch f"
proof -
  have "\<not> isl (fst (ApplyInitialConfig demo_bin demo_watch example_watcher demo_syncer None False demo_disk))" by code_simp
  then obtain w' seed' stale' s' where run: "ApplyInitialConfig demo_bin demo_watch example_watcher demo_syncer None False demo_disk =
      (Inr (w', seed'), stale', s')"
    by (metis prod.collapse sum.collapse(2))
  have "fw_setup example_watcher \<and> set [sn_runtimePath demo_syncer, sn_imagePath demo_syncer] \<inter> set (fw_writes example_watcher) = {}"
    by code_simp
  with ApplyInitialConfig_correct [OF _ demo_apart _ demo_image run] run show ?thesis
    by (auto simp: example_watcher_def)
qed

end
