(* ===== verification/Binary_Server.thy ===== *)
theory Binary_Server
  imports Binary_Sync
begin

text \<open>
  The plugin's side of binary delivery: \<open>LoadManifest\<close> and the handler of \<open>internal/binaries/binaries.go\<close>, and
  \<open>loadBinarySpec\<close> of \<open>cmd/plugin/plugin.go\<close>. The last theorem joins it with the wrapper's side: what
  the plugin publishes is what the wrapper asks for, verifies and installs.

  Reading a directory is a parameter; \<open>filepath.Join\<close> on the plain names used here is concatenation with slashes.
  TLS, the listener and its timeouts are the environment.
\<close>

section \<open>The manifest\<close>

record dir_entry =
  de_Name :: string
  de_IsDir :: bool

definition DefaultDir :: string where "DefaultDir = ''/binaries''"

definition binary_path :: "string \<Rightarrow> string \<Rightarrow> string" where
  "binary_path dir arch = dir @ ''/'' @ arch @ ''/pg_doorman''"

definition map_put :: "'k \<Rightarrow> 'v \<Rightarrow> ('k \<times> 'v) list \<Rightarrow> ('k \<times> 'v) list" where
  "map_put k v m = filter (\<lambda>(k', _). k' \<noteq> k) m @ [(k, v)]"

fun hash_entries ::
  "bin_env \<Rightarrow> string \<Rightarrow> dir_entry list \<Rightarrow> (string \<times> string) list \<Rightarrow> ('z, (string \<times> string) list) io" where
  "hash_entries E dir [] manifest = retS manifest"
| "hash_entries E dir (e # es) manifest =
     (if \<not> de_IsDir e then hash_entries E dir es manifest
      else
        bindS (tryS (FileSHA256 E (binary_path dir (de_Name e)))) (\<lambda>r.
          case r of
            Inl NotExist \<Rightarrow> hash_entries E dir es manifest
          | Inl (IOError x) \<Rightarrow> throwS (IOError x)
          | Inr digest \<Rightarrow> hash_entries E dir es (map_put (de_Name e) digest manifest)))"

definition LoadManifest ::
  "bin_env \<Rightarrow> (string \<Rightarrow> io_error + dir_entry list) \<Rightarrow> string \<Rightarrow> ('z, (string \<times> string) list option) io" where
  "LoadManifest E readDir dir =
     (case readDir dir of
        Inl NotExist \<Rightarrow> retS None
      | Inl (IOError x) \<Rightarrow> throwS (IOError x)
      | Inr entries \<Rightarrow>
          bindS (hash_entries E dir entries []) (\<lambda>manifest.
            if manifest = [] then retS None else retS (Some manifest)))"

definition loadBinarySpec ::
  "bin_env \<Rightarrow> (string \<Rightarrow> io_error + dir_entry list) \<Rightarrow> string \<Rightarrow> string \<Rightarrow> ('z, BinarySpec option) io" where
  "loadBinarySpec E readDir baseURL caFile =
     bindS (LoadManifest E readDir DefaultDir) (\<lambda>manifest.
       case manifest of
         None \<Rightarrow> retS None
       | Some m \<Rightarrow>
           if baseURL = [] then retS None
           else if caFile = [] then retS (Some \<lparr>bs_URL = baseURL, bs_SHA256 = m, bs_CABundle = []\<rparr>)
           else bindS (ReadFile (be_disk E) caFile) (\<lambda>ca.
             retS (Some \<lparr>bs_URL = baseURL, bs_SHA256 = m, bs_CABundle = ca\<rparr>)))"

section \<open>The endpoint\<close>

definition plain_arch :: "string \<Rightarrow> bool" where
  "plain_arch arch \<longleftrightarrow> \<not> list_ex (\<lambda>c. c \<in> set [CHR ''/'', CHR 0x5C, CHR ''.'']) arch"

definition http_answer :: "int \<Rightarrow> string \<Rightarrow> http_response" where
  "http_answer status body =
     \<lparr>hr_StatusCode = status, hr_ContentLength = int (length body), hr_Body = body, hr_BodyError = None\<rparr>"

definition serve_binary :: "bin_env \<Rightarrow> string \<Rightarrow> string \<Rightarrow> 'z sys_scheme \<Rightarrow> http_response \<times> 'z sys_scheme" where
  "serve_binary E dir arch s =
     (if \<not> plain_arch arch then (http_answer 404 [], s)
      else
        (case ReadFile (be_disk E) (binary_path dir arch) s of
           (Inr data, s') \<Rightarrow> (http_answer 200 data, s')
         | (Inl NotExist, s') \<Rightarrow> (http_answer 404 [], s')
         | (Inl (IOError _), s') \<Rightarrow> (http_answer 500 [], s')))"

section \<open>The listener\<close>

text \<open>\<open>GetCertificate\<close> runs at every handshake; parsing the pair is Go's \<^verbatim>\<open>crypto/tls\<close> (\<open>parse\<close>).\<close>

datatype cert_error = CertRead io_error | CertParse string

definition GetCertificate ::
  "bin_env \<Rightarrow> (string \<Rightarrow> string \<Rightarrow> string + 'c) \<Rightarrow> string \<Rightarrow> string \<Rightarrow> ('z sys_scheme, cert_error, 'c) st" where
  "GetCertificate E parse certPath keyPath =
     bindS (mapErrS CertRead (ReadFile (be_disk E) certPath)) (\<lambda>cert.
     bindS (mapErrS CertRead (ReadFile (be_disk E) keyPath)) (\<lambda>key.
       case parse cert key of Inl e \<Rightarrow> throwS (CertParse e) | Inr c \<Rightarrow> retS c))"

text \<open>The configuration that \<open>Start\<close> hands to the HTTP server; durations are nanoseconds.\<close>

record Server =
  sr_Dir :: string
  sr_Addr :: string
  sr_CertPath :: string
  sr_KeyPath :: string

record http_server =
  hs_Addr :: string
  hs_ReadHeaderTimeout :: int
  hs_ReadTimeout :: int
  hs_WriteTimeout :: int
  hs_IdleTimeout :: int
  hs_MaxHeaderBytes :: int
  hs_MinTLS :: "(nat \<times> nat) option"

definition readTimeout :: int where "readTimeout = 30 * Second"
definition writeTimeout :: int where "writeTimeout = 5 * 60 * Second"
definition idleTimeout :: int where "idleTimeout = 60 * Second"
definition maxHeaderBytes :: int where "maxHeaderBytes = 16 * 2 ^ 10"

definition delivery_server :: "Server \<Rightarrow> http_server" where
  "delivery_server sv =
     \<lparr>hs_Addr = sr_Addr sv, hs_ReadHeaderTimeout = 5 * Second, hs_ReadTimeout = readTimeout, hs_WriteTimeout = writeTimeout,
      hs_IdleTimeout = idleTimeout, hs_MaxHeaderBytes = maxHeaderBytes, hs_MinTLS = Some (1, 3)\<rparr>"

text \<open>\<open>ListenAndServeTLS\<close> (\<open>listen\<close>) always returns an error; it gets the server and whether \<open>Shutdown\<close> is called on it, which the
  goroutine of \<open>Start\<close> does when the context is done. The error of a shutdown is not reported.\<close>

datatype serve_error = ErrServerClosed | ServeFailed string

definition Server_Start :: "(http_server \<Rightarrow> bool \<Rightarrow> serve_error) \<Rightarrow> bool \<Rightarrow> Server \<Rightarrow> serve_error option" where
  "Server_Start listen ctxDone sv =
     (let err = listen (delivery_server sv) ctxDone in if err \<noteq> ErrServerClosed then Some err else None)"

text \<open>The time-outs of the wrapper's client, \<open>binarysync.go\<close>.\<close>

definition downloadTimeout :: int where "downloadTimeout = 2 * 60 * Second"
definition idleConnTimeout :: int where "idleConnTimeout = 30 * Second"

text \<open>The server never cuts off a client that still waits, neither a download nor an idle connection.\<close>

lemma server_outlasts_client:
  "downloadTimeout < hs_WriteTimeout (delivery_server sv)" "idleConnTimeout < hs_IdleTimeout (delivery_server sv)"
  by (simp_all add: delivery_server_def downloadTimeout_def writeTimeout_def idleConnTimeout_def idleTimeout_def Second_def)

lemma Server_Start_shutdown:
  assumes "\<And>srv. listen srv True = ErrServerClosed"
  shows "Server_Start listen True sv = None"
  using assms by (simp add: Server_Start_def)

definition NeedLeaderElection :: bool where "NeedLeaderElection = False"

text \<open>Every handshake presents the pair that is on disk at that moment, so a renewed certificate needs no restart.\<close>

lemma GetCertificate_current:
  assumes "\<And>n. dk_error (be_disk E) n = None" "sy_fs s certPath = Some cert" "sy_fs s keyPath = Some key"
    and "parse (fi_data cert) (fi_data key) = Inr c"
  shows "fst (GetCertificate E parse certPath keyPath s) = Inr c"
  using assms by (simp add: GetCertificate_def bindS_def ReadFile_def syscall_def Let_def)

section \<open>The manifest is about the files\<close>

lemma map_put_set: "set (map_put k v m) \<subseteq> insert (k, v) (set m)"
  by (auto simp: map_put_def)

lemma hash_entries_sound:
  assumes "hash_entries E dir es m s = (Inr m', s')"
    and "\<And>a d. (a, d) \<in> set m \<Longrightarrow> \<exists>f. sy_fs s (binary_path dir a) = Some f \<and> d = be_sha256 E (fi_data f)"
  shows "same_files s s' \<and>
    (\<forall>(a, d) \<in> set m'. \<exists>f. sy_fs s (binary_path dir a) = Some f \<and> d = be_sha256 E (fi_data f))"
  using assms
proof (induction es arbitrary: m s)
  case Nil
  then show ?case by (auto simp: same_files_def)
next
  case (Cons e es)
  show ?case
  proof (cases "de_IsDir e")
    case False
    with Cons show ?thesis by simp
  next
    case True
    obtain r s1 where h: "FileSHA256 E (binary_path dir (de_Name e)) s = (r, s1)" by (rule prod.exhaust)
    note h1 = FileSHA256_run [OF h]
    then have s1: "same_files s s1" by simp
    obtain m1 where m1: "hash_entries E dir es m1 s1 = (Inr m', s')"
      and ok: "\<And>a d. (a, d) \<in> set m1 \<Longrightarrow> \<exists>f. sy_fs s1 (binary_path dir a) = Some f \<and> d = be_sha256 E (fi_data f)"
    proof (cases r)
      case (Inl x)
      with Cons.prems True h s1 that [of m] show thesis
        by (cases x) (auto simp: bindS_def same_files_def)
    next
      case (Inr d)
      have "\<exists>f. sy_fs s1 (binary_path dir a) = Some f \<and> d' = be_sha256 E (fi_data f)"
        if "(a, d') \<in> set (map_put (de_Name e) d m)" for a d'
        using that map_put_set [of "de_Name e" d m] Cons.prems(2) [of a d'] h1 Inr s1 by (auto simp: same_files_def)
      with Cons.prems(1) True h Inr that [of "map_put (de_Name e) d m"] show thesis
        by (auto simp: bindS_def)
    qed
    from Cons.IH [OF m1 ok] s1 show ?thesis by (auto simp: same_files_def)
  qed
qed

lemma loadBinarySpec_sound:
  assumes "loadBinarySpec E readDir baseURL caFile s = (Inr (Some spec), s')" "map_of (bs_SHA256 spec) arch = Some d"
  shows "bs_URL spec = baseURL \<and> baseURL \<noteq> [] \<and> bs_SHA256 spec \<noteq> [] \<and>
    (\<exists>f. sy_fs s (binary_path DefaultDir arch) = Some f \<and> d = be_sha256 E (fi_data f))"
proof -
  from assms(1) obtain m s1 where m: "LoadManifest E readDir DefaultDir s = (Inr (Some m), s1)"
    and spec: "bs_URL spec = baseURL" "bs_SHA256 spec = m" "baseURL \<noteq> []"
    unfolding loadBinarySpec_def bindS_Inr_iff
    by (auto simp: bindS_Inr_iff split: option.splits if_splits)
  from m obtain entries where e: "hash_entries E DefaultDir entries [] s = (Inr m, s1)" "m \<noteq> []"
    unfolding LoadManifest_def
    by (auto simp: bindS_Inr_iff split: sum.splits io_error.splits if_splits)
  from hash_entries_sound [OF e(1)] assms(2) spec e(2) show ?thesis by (auto dest: map_of_SomeD)
qed

section \<open>Delivery, end to end\<close>

lemma no_faults_temp:
  assumes "\<And>n. dk_error D n = None" "\<And>x. sy_fs s (dir @ ''/'' @ pre @ x) = None"
  shows "CreateTemp D dir pre s = (Inr (dir @ ''/'' @ pre @ dk_temp D (Suc (sy_n s))),
    set_fs ((sy_fs s)(dir @ ''/'' @ pre @ dk_temp D (Suc (sy_n s)) \<mapsto> \<lparr>fi_data = [], fi_mode = 384\<rparr>)) (s\<lparr>sy_n := Suc (sy_n s)\<rparr>))"
  using assms by (simp add: CreateTemp_def syscall_def Let_def)

lemma fill_temp_run:
  assumes none: "\<And>n. dk_error (be_disk W) n = None" and "length data \<le> be_maxBytes W"
    and "sy_fs s tmp = Some \<lparr>fi_data = [], fi_mode = 384\<rparr>"
  shows "\<exists>s'. fill_temp W (be_sha256 W data) (http_answer 200 data) tmp s = (Inr (), s') \<and>
    sy_fs s' = (sy_fs s)(tmp \<mapsto> \<lparr>fi_data = data, fi_mode = 493\<rparr>)"
  using assms
  by (simp add: fill_temp_def copy_body_def http_answer_def bindS_def Chmod_def syscall_def no_faults_io [OF none]
      append_data_def set_fs_def)

lemma Download_installs:
  assumes "plain_dest dest" and none: "\<And>n. dk_error (be_disk W) n = None"
    and temp: "\<And>x. sy_fs s (dir_of dest @ ''/'' @ ''.pg_doorman-'' @ x) = None"
    and ca: "bs_CABundle spec = [] \<or> be_certs W (bs_CABundle spec)" and body: "length data \<le> be_maxBytes W"
    and http: "be_http W (sy_n s) (bs_URL spec @ ''/binaries/'' @ sn_arch y) = Inr (http_answer 200 data)"
  shows "\<exists>s'. Download W y spec (be_sha256 W data) dest s = (Inr (), s') \<and>
    sy_fs s' dest = Some \<lparr>fi_data = data, fi_mode = 493\<rparr>"
proof -
  let ?s = "s\<lparr>sy_n := Suc (sy_n s)\<rparr>" and ?D = "be_disk W"
  define tmp where "tmp = dir_of dest @ ''/'' @ ''.pg_doorman-'' @ dk_temp ?D (Suc (Suc (sy_n s)))"
  define s1 where "s1 = set_fs ((sy_fs s)(tmp \<mapsto> \<lparr>fi_data = [], fi_mode = 384\<rparr>)) (s\<lparr>sy_n := Suc (Suc (sy_n s))\<rparr>)"
  have "CreateTemp ?D (dir_of dest) ''.pg_doorman-'' ?s = (Inr tmp, s1)"
    using no_faults_temp [of ?D ?s "dir_of dest" "''.pg_doorman-''"] none temp by (simp add: tmp_def s1_def)
  then have mk: "create_temp W dest ?s = (Inr tmp, s1)" by (simp add: create_temp_def bindS_def)
  have neq: "dest \<noteq> tmp" using plain_dest_temp [OF assms(1)] unfolding tmp_def by blast
  have "sy_fs s1 tmp = Some \<lparr>fi_data = [], fi_mode = 384\<rparr>" by (simp add: s1_def set_fs_def)
  from fill_temp_run [OF none body this] obtain s2
    where fill: "fill_temp W (be_sha256 W data) (http_answer 200 data) tmp s1 = (Inr (), s2)"
      and s2: "sy_fs s2 tmp = Some \<lparr>fi_data = data, fi_mode = 493\<rparr>" by auto
  define s3 where "s3 = set_fs ((sy_fs s2)(tmp := None, dest \<mapsto> \<lparr>fi_data = data, fi_mode = 493\<rparr>)) (s2\<lparr>sy_n := Suc (sy_n s2)\<rparr>)"
  have ren: "Rename ?D tmp dest s2 = (Inr (), s3)"
    unfolding s3_def by (rule no_faults_io(5) [OF none s2])
  let ?clean = "bindS (tryS (Close ?D)) (\<lambda>_. Remove ?D tmp)"
  have "keeps dest s3 (snd (?clean s3))"
    using neq by (intro framedD [of "keeps dest"] keeps_combinators framed_io) auto
  then have "sy_fs (snd (?clean s3)) dest = Some \<lparr>fi_data = data, fi_mode = 493\<rparr>"
    by (simp add: keeps_def s3_def set_fs_def)
  moreover have "Download W y spec (be_sha256 W data) dest s = (Inr (), snd (?clean s3))"
    using ca http body mk fill ren
    by (auto simp: Download_def httpClientFor_def guard_err_def http_do_def install_body_def bindS_def deferring_def
        http_answer_def split: sum.splits prod.splits)
  ultimately show ?thesis by blast
qed

text \<open>(C15) Delivery round-trips. When the plugin publishes a spec with a digest for an architecture, the wrapper reads from its
  encoding exactly the digest of the plugin's binary file, asks the endpoint that serves that very file, and, if
  nothing fails on the way, has it byte for byte at the destination, executable.\<close>

theorem delivery_roundtrip:
  assumes published: "loadBinarySpec E readDir baseURL caFile sp = (Inr (Some spec), sp')"
    and arch: "map_of (bs_SHA256 spec) (sn_arch y) = Some d" "plain_arch (sn_arch y)"
    and json: "json spec = Inr doc" "be_decode W doc = Inr spec"
    and sha: "be_sha256 W = be_sha256 E" "\<And>data. be_sha256 E data \<noteq> []"
    and http: "\<And>n. be_http W n (baseURL @ ''/binaries/'' @ sn_arch y) = Inr (fst (serve_binary E DefaultDir (sn_arch y) sp))"
    and wrapper: "plain_dest dest" "\<And>n. dk_error (be_disk W) n = None"
      "\<And>x. sy_fs s (dir_of dest @ ''/'' @ ''.pg_doorman-'' @ x) = None"
      "bs_CABundle spec = [] \<or> be_certs W (bs_CABundle spec)"
    and plugin: "\<And>n. dk_error (be_disk E) n = None"
      "\<And>f. sy_fs sp (binary_path DefaultDir (sn_arch y)) = Some f \<Longrightarrow> length (fi_data f) \<le> be_maxBytes W"
  shows "\<exists>f s'. sy_fs sp (binary_path DefaultDir (sn_arch y)) = Some f \<and>
    desired_digest W y (Some doc) = Some (spec, be_sha256 W (fi_data f)) \<and>
    Download W y spec (be_sha256 W (fi_data f)) dest s = (Inr (), s') \<and>
    sy_fs s' dest = Some \<lparr>fi_data = fi_data f, fi_mode = 493\<rparr>"
proof -
  from loadBinarySpec_sound [OF published arch(1)] obtain f where
    f: "sy_fs sp (binary_path DefaultDir (sn_arch y)) = Some f" "d = be_sha256 E (fi_data f)"
    and spec: "bs_URL spec = baseURL" "baseURL \<noteq> []" "bs_SHA256 spec \<noteq> []" by blast
  have "fst (serve_binary E DefaultDir (sn_arch y) sp) = http_answer 200 (fi_data f)"
    using arch(2) f(1) plugin(1) by (simp add: serve_binary_def ReadFile_def syscall_def)
  with http spec have "be_http W (sy_n s) (bs_URL spec @ ''/binaries/'' @ sn_arch y) = Inr (http_answer 200 (fi_data f))"
    by simp
  from Download_installs [OF wrapper(1,2,3,4) plugin(2) [OF f(1)] this] obtain s' where
    "Download W y spec (be_sha256 W (fi_data f)) dest s = (Inr (), s')"
    "sy_fs s' dest = Some \<lparr>fi_data = fi_data f, fi_mode = 493\<rparr>" by blast
  moreover have "desired_digest W y (Some doc) = Some (spec, be_sha256 W (fi_data f))"
    using json spec arch(1) sha f(2) by (simp add: desired_digest_def ParseBinarySpec_def digest_for_def)
  ultimately show ?thesis using f(1) by blast
qed

definition demo_plugin_files :: sys where
  "demo_plugin_files = \<lparr>sy_fs = [binary_path DefaultDir ''amd64'' \<mapsto> \<lparr>fi_data = ''new'', fi_mode = 493\<rparr>], sy_hist = [], sy_n = 0\<rparr>"

definition demo_read_dir :: "string \<Rightarrow> io_error + dir_entry list" where
  "demo_read_dir _ = Inr [\<lparr>de_Name = ''README'', de_IsDir = False\<rparr>, \<lparr>de_Name = ''amd64'', de_IsDir = True\<rparr>]"

definition demo_wrapper_env :: bin_env where
  "demo_wrapper_env = demo_bin\<lparr>be_http := (\<lambda>_ _. Inr (fst (serve_binary demo_bin DefaultDir ''amd64'' demo_plugin_files)))\<rparr>"

theorem delivery_roundtrip_witness:
  "\<exists>s'. Download demo_wrapper_env demo_syncer demo_spec ''#new'' RuntimeBinaryPath (demo_plugin_files\<lparr>sy_fs := Map.empty\<rparr>) = (Inr (), s') \<and>
     sy_fs s' RuntimeBinaryPath = Some \<lparr>fi_data = ''new'', fi_mode = 493\<rparr>"
proof -
  have "fst (loadBinarySpec demo_bin demo_read_dir ''https://plugin'' [] demo_plugin_files) = Inr (Some demo_spec)"
    by code_simp
  then obtain sp' where pub: "loadBinarySpec demo_bin demo_read_dir ''https://plugin'' [] demo_plugin_files = (Inr (Some demo_spec), sp')"
    by (metis prod.collapse)
  have arch: "map_of (bs_SHA256 demo_spec) (sn_arch demo_syncer) = Some ''#new''" "plain_arch (sn_arch demo_syncer)"
    by (code_simp, code_simp)
  have content: "sy_fs demo_plugin_files (binary_path DefaultDir (sn_arch demo_syncer)) = Some \<lparr>fi_data = ''new'', fi_mode = 493\<rparr>"
    by (simp add: demo_plugin_files_def demo_syncer_def NewBinarySyncer_def)
  have json: "(\<lambda>_. Inr ''spec'' :: string + string) demo_spec = Inr ''spec''" "be_decode demo_wrapper_env ''spec'' = Inr demo_spec"
    by (simp_all add: demo_wrapper_env_def demo_bin_def)
  have env: "be_sha256 demo_wrapper_env = be_sha256 demo_bin" "\<And>d. be_sha256 demo_bin d \<noteq> []"
    "\<And>n. be_http demo_wrapper_env n (''https://plugin'' @ ''/binaries/'' @ sn_arch demo_syncer) =
       Inr (fst (serve_binary demo_bin DefaultDir (sn_arch demo_syncer) demo_plugin_files))"
    "\<And>n. dk_error (be_disk demo_wrapper_env) n = None" "\<And>n. dk_error (be_disk demo_bin) n = None"
    by (simp_all add: demo_wrapper_env_def demo_bin_def demo_syncer_def NewBinarySyncer_def quiet_disk_def)
  have rest: "bs_CABundle demo_spec = [] \<or> be_certs demo_wrapper_env (bs_CABundle demo_spec)"
    "\<And>f. sy_fs demo_plugin_files (binary_path DefaultDir (sn_arch demo_syncer)) = Some f \<Longrightarrow>
       length (fi_data f) \<le> be_maxBytes demo_wrapper_env"
    using content by (auto simp: demo_spec_def demo_wrapper_env_def demo_bin_def)
  have temp: "\<And>x. sy_fs (demo_plugin_files\<lparr>sy_fs := Map.empty\<rparr>) (dir_of RuntimeBinaryPath @ ''/'' @ ''.pg_doorman-'' @ x) = None"
    by simp
  from delivery_roundtrip [OF pub arch json env(1,2,3) wrapper_paths(1) env(4) temp rest(1) env(5) rest(2)] content
  show ?thesis by (auto simp: demo_wrapper_env_def demo_bin_def)
qed

end
