(* ===== verification/Kube_Client.thy ===== *)
theory Kube_Client
  imports Specs
begin

text \<open>
  The Kubernetes API as the plugin uses it (controller-runtime's \<open>client.Client\<close>, the event recorder
  and \<open>crypto/rand\<close>). The API server and its informer cache are a service outside the repository, so
  they are a parameter: \<open>client\<close> holds one arbitrary function per call, which may answer differently
  each time because it is given the log of everything the plugin did before. Stale caches, concurrent
  writers and transient failures are all instances.

  The state that the plugin's code threads is that log: every call is recorded with its answer, so a
  theorem about a run speaks about which calls were made, in which order, and with what.
\<close>

section \<open>Objects\<close>

record Secret =
  se_Namespace :: string
  se_Name :: string
  se_Labels :: "string \<rightharpoonup> string"
  se_Type :: string
  se_Data :: "string \<rightharpoonup> string"
  se_Owner :: "string option"
  se_ResourceVersion :: string

record Condition =
  co_Type :: string
  co_Status :: bool
  co_Reason :: string
  co_Message :: string
  co_ObservedGeneration :: int

record PgDoorman =
  pd_Namespace :: string
  pd_Name :: string
  pd_Generation :: int
  pd_Deleting :: bool
  pd_Finalizers :: "string list"
  pd_Spec :: PgDoormanSpec
  pd_Conditions :: "Condition list"
  pd_ObservedGeneration :: int

type_synonym key = "string \<times> string" \<comment> \<open>namespace and name\<close>

datatype api_error = NotFound | AlreadyExists | OtherError string

datatype kind = KRole | KRoleBinding | KService | KSecret

section \<open>Calls, answers and the log\<close>

datatype event =
    GetSecret key "api_error + Secret"
  | CreateSecret Secret "api_error option"
  | PatchSecret Secret Secret "api_error option"
  | GetPgDoorman key "api_error + PgDoorman"
  | PatchPgDoorman PgDoorman PgDoorman "api_error + PgDoorman"
  | UpdateStatus PgDoorman "api_error option"
  | ListPgDoormen string "api_error + PgDoorman list"
  | GetCluster key "api_error + Cluster"
  | GetService key "api_error + Service"
  | CreateService Service "api_error option"
  | PatchService Service Service "api_error option"
  | Delete kind key "api_error option"
  | RandRead nat "string option"
  | RecordEvent string string

type_synonym log = "event list"

record client =
  on_get_secret :: "log \<Rightarrow> key \<Rightarrow> api_error + Secret"
  on_create_secret :: "log \<Rightarrow> Secret \<Rightarrow> api_error option"
  on_patch_secret :: "log \<Rightarrow> Secret \<Rightarrow> Secret \<Rightarrow> api_error option"
  on_get_pgdoorman :: "log \<Rightarrow> key \<Rightarrow> api_error + PgDoorman"
  on_patch_pgdoorman :: "log \<Rightarrow> PgDoorman \<Rightarrow> PgDoorman \<Rightarrow> api_error + PgDoorman"
  on_update_status :: "log \<Rightarrow> PgDoorman \<Rightarrow> api_error option"
  on_list_pgdoormen :: "log \<Rightarrow> string \<Rightarrow> api_error + PgDoorman list"
  on_get_cluster :: "log \<Rightarrow> key \<Rightarrow> api_error + Cluster"
  on_get_service :: "log \<Rightarrow> key \<Rightarrow> api_error + Service"
  on_create_service :: "log \<Rightarrow> Service \<Rightarrow> api_error option"
  on_patch_service :: "log \<Rightarrow> Service \<Rightarrow> Service \<Rightarrow> api_error option"
  on_delete :: "log \<Rightarrow> kind \<Rightarrow> key \<Rightarrow> api_error option"
  on_rand_read :: "log \<Rightarrow> nat \<Rightarrow> string option"

type_synonym 'a call = "(log, api_error, 'a) st"

definition done_or :: "'e option \<Rightarrow> 'e + unit" where
  "done_or r = (case r of None \<Rightarrow> Inr () | Some e \<Rightarrow> Inl e)"

definition get_secret :: "client \<Rightarrow> key \<Rightarrow> Secret call" where
  "get_secret C k l = (let r = on_get_secret C l k in (r, l @ [GetSecret k r]))"

definition create_secret :: "client \<Rightarrow> Secret \<Rightarrow> unit call" where
  "create_secret C s l = (let r = on_create_secret C l s in (done_or r, l @ [CreateSecret s r]))"

definition patch_secret :: "client \<Rightarrow> Secret \<Rightarrow> Secret \<Rightarrow> unit call" where
  "patch_secret C old new l =
     (let r = on_patch_secret C l old new in (done_or r, l @ [PatchSecret old new r]))"

definition get_pgdoorman :: "client \<Rightarrow> key \<Rightarrow> PgDoorman call" where
  "get_pgdoorman C k l = (let r = on_get_pgdoorman C l k in (r, l @ [GetPgDoorman k r]))"

text \<open>A patch overwrites the object in memory with the server's answer.\<close>

definition patch_pgdoorman :: "client \<Rightarrow> PgDoorman \<Rightarrow> PgDoorman \<Rightarrow> PgDoorman call" where
  "patch_pgdoorman C old new l =
     (let r = on_patch_pgdoorman C l old new in (r, l @ [PatchPgDoorman old new r]))"

definition update_status :: "client \<Rightarrow> PgDoorman \<Rightarrow> unit call" where
  "update_status C pd l = (let r = on_update_status C l pd in (done_or r, l @ [UpdateStatus pd r]))"

definition list_pgdoormen :: "client \<Rightarrow> string \<Rightarrow> PgDoorman list call" where
  "list_pgdoormen C ns l = (let r = on_list_pgdoormen C l ns in (r, l @ [ListPgDoormen ns r]))"

definition get_cluster :: "client \<Rightarrow> key \<Rightarrow> Cluster call" where
  "get_cluster C k l = (let r = on_get_cluster C l k in (r, l @ [GetCluster k r]))"

definition get_service :: "client \<Rightarrow> key \<Rightarrow> Service call" where
  "get_service C k l = (let r = on_get_service C l k in (r, l @ [GetService k r]))"

definition create_service :: "client \<Rightarrow> Service \<Rightarrow> unit call" where
  "create_service C s l = (let r = on_create_service C l s in (done_or r, l @ [CreateService s r]))"

definition patch_service :: "client \<Rightarrow> Service \<Rightarrow> Service \<Rightarrow> unit call" where
  "patch_service C old new l =
     (let r = on_patch_service C l old new in (done_or r, l @ [PatchService old new r]))"

definition delete_object :: "client \<Rightarrow> kind \<Rightarrow> key \<Rightarrow> unit call" where
  "delete_object C kd k l = (let r = on_delete C l kd k in (done_or r, l @ [Delete kd k r]))"

definition rand_read :: "client \<Rightarrow> nat \<Rightarrow> (log, unit, string) st" where
  "rand_read C n l =
     (let r = on_rand_read C l n
      in (case r of None \<Rightarrow> Inl () | Some b \<Rightarrow> Inr b, l @ [RandRead n r]))"

definition record_event :: "string \<Rightarrow> string \<Rightarrow> (log, 'e, unit) st" where
  "record_event type reason l = (Inr (), l @ [RecordEvent type reason])"

lemmas call_defs =
  get_secret_def create_secret_def patch_secret_def get_pgdoorman_def patch_pgdoorman_def
  update_status_def list_pgdoormen_def get_cluster_def get_service_def create_service_def
  patch_service_def delete_object_def rand_read_def record_event_def

lemma done_or_simps [simp]: "done_or None = Inr ()" "done_or (Some e) = Inl e"
  by (simp_all add: done_or_def)

lemma done_or_eq [simp]: "done_or r = Inr u \<longleftrightarrow> r = None" "done_or r = Inl e \<longleftrightarrow> r = Some e"
  by (cases r; simp)+

section \<open>Logs only grow\<close>

text \<open>\<open>adds P\<close>: the run appends calls that all satisfy \<open>P\<close>.\<close>

definition adds :: "(event \<Rightarrow> bool) \<Rightarrow> log \<Rightarrow> log \<Rightarrow> bool" where
  "adds P l l' \<longleftrightarrow> (\<exists>xs. l' = l @ xs \<and> list_all P xs)"

lemma adds_refl: "reflp (adds P)"
  by (auto simp: reflp_def adds_def intro: exI [of _ "[]"])

lemma adds_trans: "transp (adds P)"
proof (rule transpI)
  fix a b c assume "adds P a b" "adds P b c"
  then obtain xs ys where "b = a @ xs" "list_all P xs" "c = b @ ys" "list_all P ys"
    by (auto simp: adds_def)
  then show "adds P a c" by (auto simp: adds_def intro: exI [of _ "xs @ ys"])
qed

lemma adds_mono: "adds P l l' \<Longrightarrow> (\<And>e. P e \<Longrightarrow> Q e) \<Longrightarrow> adds Q l l'"
  unfolding adds_def by (metis list.pred_mono_strong)

lemma adds_one: "P e \<Longrightarrow> adds P l (l @ [e])"
  by (auto simp: adds_def)

lemma adds_set: "adds P l l' \<Longrightarrow> set l \<subseteq> set l'"
  by (auto simp: adds_def)

lemma adds_new: "adds P l l' \<Longrightarrow> e \<in> set l' \<Longrightarrow> e \<in> set l \<or> P e"
  by (auto simp: adds_def list_all_iff)

lemmas framed_adds_intros =
  framed_retS [OF adds_refl] framed_throwS [OF adds_refl] framed_tryS framed_mapErrS
  framed_bindS [OF adds_trans] framed_forS [OF adds_refl adds_trans]
  framed_foldS [OF adds_refl adds_trans]

lemma framed_calls:
  "(\<And>r. P (GetSecret k r)) \<Longrightarrow> framed (adds P) (get_secret C k)"
  "(\<And>r. P (CreateSecret s r)) \<Longrightarrow> framed (adds P) (create_secret C s)"
  "(\<And>r. P (PatchSecret s t r)) \<Longrightarrow> framed (adds P) (patch_secret C s t)"
  "(\<And>r. P (GetPgDoorman k r)) \<Longrightarrow> framed (adds P) (get_pgdoorman C k)"
  "(\<And>r. P (PatchPgDoorman p q r)) \<Longrightarrow> framed (adds P) (patch_pgdoorman C p q)"
  "(\<And>r. P (UpdateStatus p r)) \<Longrightarrow> framed (adds P) (update_status C p)"
  "(\<And>r. P (ListPgDoormen ns r)) \<Longrightarrow> framed (adds P) (list_pgdoormen C ns)"
  "(\<And>r. P (GetCluster k r)) \<Longrightarrow> framed (adds P) (get_cluster C k)"
  "(\<And>r. P (GetService k r)) \<Longrightarrow> framed (adds P) (get_service C k)"
  "(\<And>r. P (CreateService v r)) \<Longrightarrow> framed (adds P) (create_service C v)"
  "(\<And>r. P (PatchService v w r)) \<Longrightarrow> framed (adds P) (patch_service C v w)"
  "(\<And>r. P (Delete kd k r)) \<Longrightarrow> framed (adds P) (delete_object C kd k)"
  "(\<And>r. P (RandRead n r)) \<Longrightarrow> framed (adds P) (rand_read C n)"
  "P (RecordEvent ty reason) \<Longrightarrow> framed (adds P) (record_event ty reason)"
  by (simp_all add: framed_def call_defs adds_one Let_def)

section \<open>A client over fixed objects\<close>

text \<open>An API server that answers reads from fixed maps and accepts every write; concrete runs are
  evaluated with it.\<close>

definition fixed_client ::
  "(key \<rightharpoonup> Secret) \<Rightarrow> (key \<rightharpoonup> PgDoorman) \<Rightarrow> (key \<rightharpoonup> Cluster) \<Rightarrow> (key \<rightharpoonup> Service) \<Rightarrow> client" where
  "fixed_client secrets pds clusters services =
     \<lparr>on_get_secret = (\<lambda>l k. case secrets k of None \<Rightarrow> Inl NotFound | Some s \<Rightarrow> Inr s),
      on_create_secret = (\<lambda>l s. None), on_patch_secret = (\<lambda>l s t. None),
      on_get_pgdoorman = (\<lambda>l k. case pds k of None \<Rightarrow> Inl NotFound | Some p \<Rightarrow> Inr p),
      on_patch_pgdoorman = (\<lambda>l p q. Inr q), on_update_status = (\<lambda>l p. None),
      on_list_pgdoormen = (\<lambda>l ns. Inr []),
      on_get_cluster = (\<lambda>l k. case clusters k of None \<Rightarrow> Inl NotFound | Some c \<Rightarrow> Inr c),
      on_get_service = (\<lambda>l k. case services k of None \<Rightarrow> Inl NotFound | Some v \<Rightarrow> Inr v),
      on_create_service = (\<lambda>l v. None), on_patch_service = (\<lambda>l v w. None),
      on_delete = (\<lambda>l kd k. None), on_rand_read = (\<lambda>l n. Some (replicate n (CHR 0x07)))\<rparr>"

definition plain_secret :: "string \<Rightarrow> string \<Rightarrow> string \<Rightarrow> Secret" where
  "plain_secret ns name password =
     \<lparr>se_Namespace = ns, se_Name = name, se_Labels = [''cnpg.io/cluster'' \<mapsto> ''pg''], se_Type = [],
      se_Data = [''password'' \<mapsto> password], se_Owner = None, se_ResourceVersion = ''1''\<rparr>"

end
