(* ===== verification/Credentials.thy ===== *)
theory Credentials
  imports Kube_Client Config_Gen
begin

text \<open>
  Resolution of the passwords a spec refers to: \<open>internal/credentials/credentials.go\<close>.
  The lemmas show what the returned map holds for every user of every pool, that only Secrets of the
  spec's namespace that the spec names are read, and that nothing is written.
\<close>

datatype cred_error =
    GettingSecret string api_error
  | MissingKey string string
  | AuthQueryPassword string cred_error
  | UserPassword string string cred_error
  | AdminPassword cred_error

definition ExtractSecretValue ::
  "client \<Rightarrow> SecretKeySelector \<Rightarrow> string \<Rightarrow> (log, cred_error, string) st" where
  "ExtractSecretValue C ref ns =
     bindS (mapErrS (GettingSecret (sk_Name ref)) (get_secret C (ns, sk_Name ref))) (\<lambda>secret.
       case se_Data secret (sk_Key ref) of
         None \<Rightarrow> throwS (MissingKey (sk_Key ref) (sk_Name ref))
       | Some v \<Rightarrow> retS v)"

definition resolve_user ::
  "client \<Rightarrow> string \<Rightarrow> string \<Rightarrow> UserSpec \<Rightarrow> (string \<rightharpoonup> string) \<Rightarrow> (log, cred_error, string \<rightharpoonup> string) st" where
  "resolve_user C ns poolName user passwords =
     bindS (mapErrS (UserPassword poolName (us_Username user))
              (ExtractSecretValue C (us_PasswordSecretRef user) ns))
       (\<lambda>val. retS (passwords(PasswordKey poolName ''user'' (us_Username user) \<mapsto> val)))"

definition resolve_auth_query ::
  "client \<Rightarrow> string \<Rightarrow> string \<Rightarrow> PoolSpec \<Rightarrow> (string \<rightharpoonup> string) \<Rightarrow> (log, cred_error, string \<rightharpoonup> string) st" where
  "resolve_auth_query C ns poolName pool passwords =
     (case pl_AuthQuery pool of None \<Rightarrow> retS passwords
      | Some a \<Rightarrow>
          (case aq_PasswordSecretRef a of None \<Rightarrow> retS passwords
           | Some ref \<Rightarrow>
               bindS (mapErrS (AuthQueryPassword poolName) (ExtractSecretValue C ref ns))
                 (\<lambda>val. retS (passwords(PasswordKey poolName ''auth_query'' (aq_User a) \<mapsto> val)))))"

definition resolve_pool ::
  "client \<Rightarrow> string \<Rightarrow> string \<times> PoolSpec \<Rightarrow> (string \<rightharpoonup> string) \<Rightarrow> (log, cred_error, string \<rightharpoonup> string) st" where
  "resolve_pool C ns e passwords =
     bindS (resolve_auth_query C ns (fst e) (snd e) passwords)
       (foldS (resolve_user C ns (fst e)) (pl_Users (snd e)))"

definition ResolvePasswords ::
  "client \<Rightarrow> string \<Rightarrow> PgDoormanSpec \<Rightarrow> (log, cred_error, string \<rightharpoonup> string) st" where
  "ResolvePasswords C ns spec =
     bindS (foldS (resolve_pool C ns) (ds_Pools spec) Map.empty) (\<lambda>passwords.
       case admin_ref spec of
         None \<Rightarrow> retS passwords
       | Some ref \<Rightarrow> bindS (mapErrS AdminPassword (ExtractSecretValue C ref ns))
           (\<lambda>val. retS (passwords(AdminPasswordKey \<mapsto> val))))"

section \<open>Secret versions\<close>

text \<open>\<open>CollectSecretVersions\<close>: \<open>seen\<close> is an association list from Secret names to resource versions;
  \<open>sha256_hex\<close> stands for the hash, \<open>string_le\<close> is Go's byte order on strings.\<close>

fun string_le :: "string \<Rightarrow> string \<Rightarrow> bool" where
  "string_le [] t = True"
| "string_le (c # s) [] = False"
| "string_le (c # s) (d # t) =
     ((of_char c :: nat) < of_char d \<or> c = d \<and> string_le s t)"

fun insert_string :: "string \<Rightarrow> string list \<Rightarrow> string list" where
  "insert_string x [] = [x]"
| "insert_string x (y # ys) = (if string_le x y then x # y # ys else y # insert_string x ys)"

definition sort_strings :: "string list \<Rightarrow> string list" where
  "sort_strings xs = foldr insert_string xs []"

definition collectRef ::
  "client \<Rightarrow> string \<Rightarrow> SecretKeySelector \<Rightarrow> (string \<times> string) list \<Rightarrow>
   (log, cred_error, (string \<times> string) list) st" where
  "collectRef C ns ref seen =
     (if map_of seen (sk_Name ref) \<noteq> None then retS seen
      else bindS (mapErrS (GettingSecret (sk_Name ref)) (get_secret C (ns, sk_Name ref)))
        (\<lambda>secret. retS (seen @ [(sk_Name ref, se_ResourceVersion secret)])))"

definition CollectSecretVersions ::
  "(string \<Rightarrow> string) \<Rightarrow> client \<Rightarrow> PgDoormanSpec \<Rightarrow> string \<Rightarrow> (log, cred_error, string) st" where
  "CollectSecretVersions sha256_hex C spec namespace =
     bindS (foldS (\<lambda>e. foldS (collectRef C namespace) (pool_refs (snd e))) (ds_Pools spec) []) (\<lambda>seen0.
     bindS (foldS (collectRef C namespace) (case admin_ref spec of None \<Rightarrow> [] | Some r \<Rightarrow> [r]) seen0) (\<lambda>seen.
       if seen = [] then retS []
       else retS (sha256_hex (concat (sort_strings (map (\<lambda>(name, rv). name @ '':'' @ rv) seen))))))"

section \<open>One list of lookups\<close>

text \<open>The nested loops perform one lookup per entry of a flat list: the key to set, the reference to
  read and the context added to an error.\<close>

type_synonym lookup = "string \<times> SecretKeySelector \<times> (cred_error \<Rightarrow> cred_error)"

definition resolve_entry ::
  "client \<Rightarrow> string \<Rightarrow> lookup \<Rightarrow> (string \<rightharpoonup> string) \<Rightarrow> (log, cred_error, string \<rightharpoonup> string) st" where
  "resolve_entry C ns e passwords =
     bindS (mapErrS (snd (snd e)) (ExtractSecretValue C (fst (snd e)) ns))
       (\<lambda>val. retS (passwords(fst e \<mapsto> val)))"

definition user_entry :: "string \<Rightarrow> UserSpec \<Rightarrow> lookup" where
  "user_entry n u =
     (PasswordKey n ''user'' (us_Username u), us_PasswordSecretRef u, UserPassword n (us_Username u))"

definition auth_entries :: "string \<Rightarrow> PoolSpec \<Rightarrow> lookup list" where
  "auth_entries n p =
     (case pl_AuthQuery p of None \<Rightarrow> []
      | Some a \<Rightarrow> (case aq_PasswordSecretRef a of None \<Rightarrow> []
                    | Some ref \<Rightarrow> [(PasswordKey n ''auth_query'' (aq_User a), ref, AuthQueryPassword n)]))"

definition pool_entries :: "string \<times> PoolSpec \<Rightarrow> lookup list" where
  "pool_entries e = auth_entries (fst e) (snd e) @ map (user_entry (fst e)) (pl_Users (snd e))"

definition admin_entries :: "PgDoormanSpec \<Rightarrow> lookup list" where
  "admin_entries spec =
     (case admin_ref spec of None \<Rightarrow> [] | Some ref \<Rightarrow> [(AdminPasswordKey, ref, AdminPassword)])"

definition entries :: "PgDoormanSpec \<Rightarrow> lookup list" where
  "entries spec = concat (map pool_entries (ds_Pools spec)) @ admin_entries spec"

lemma resolve_auth_query_entries:
  "resolve_auth_query C ns n p = foldS (resolve_entry C ns) (auth_entries n p)"
  by (rule ext) (auto simp: resolve_auth_query_def auth_entries_def resolve_entry_def bindS_assoc
      split: option.split)

lemma resolve_pool_entries: "resolve_pool C ns e = foldS (resolve_entry C ns) (pool_entries e)"
proof (rule ext)
  fix pw
  have "resolve_user C ns n = (\<lambda>u. resolve_entry C ns (user_entry n u))" for n
    by (intro ext) (simp add: resolve_user_def resolve_entry_def user_entry_def)
  then have "foldS (resolve_user C ns n) us = foldS (resolve_entry C ns) (map (user_entry n) us)" for n us
    by (simp add: foldS_map)
  then show "resolve_pool C ns e pw = foldS (resolve_entry C ns) (pool_entries e) pw"
    by (simp add: resolve_pool_def pool_entries_def foldS_append resolve_auth_query_entries)
qed

lemma ResolvePasswords_entries:
  "ResolvePasswords C ns spec = foldS (resolve_entry C ns) (entries spec) Map.empty"
proof -
  have "foldS (resolve_pool C ns) ps pw = foldS (resolve_entry C ns) (concat (map pool_entries ps)) pw" for ps pw
    using foldS_concat [of "resolve_entry C ns" pool_entries ps pw]
    by (simp add: resolve_pool_entries [abs_def])
  moreover have "(\<lambda>pw. case admin_ref spec of None \<Rightarrow> retS pw
       | Some ref \<Rightarrow> bindS (mapErrS AdminPassword (ExtractSecretValue C ref ns))
           (\<lambda>val. retS (pw(AdminPasswordKey \<mapsto> val)))) = foldS (resolve_entry C ns) (admin_entries spec)"
    by (rule ext) (auto simp: admin_entries_def resolve_entry_def bindS_assoc split: option.split)
  ultimately show ?thesis
    by (simp add: ResolvePasswords_def entries_def foldS_append)
qed

lemma entries_refs: "map (\<lambda>e. fst (snd e)) (entries spec) = spec_refs spec"
proof -
  have "map (\<lambda>e. fst (snd e)) (pool_entries e) = pool_refs (snd e)" for e
    by (auto simp: pool_entries_def auth_entries_def user_entry_def pool_refs_def split: option.split)
  then show ?thesis
    by (auto simp: entries_def spec_refs_def admin_entries_def map_concat comp_def split: option.split)
qed

section \<open>What the password map holds\<close>

text \<open>A password is backed by the log when the Secret it refers to was read and held that value.\<close>

definition backed :: "log \<Rightarrow> string \<Rightarrow> SecretKeySelector \<Rightarrow> string option \<Rightarrow> bool" where
  "backed l ns ref v \<longleftrightarrow>
     (\<exists>s. GetSecret (ns, sk_Name ref) (Inr s) \<in> set l \<and> v \<noteq> None \<and> se_Data s (sk_Key ref) = v)"

lemma backed_mono: "backed l ns ref v \<Longrightarrow> set l \<subseteq> set l' \<Longrightarrow> backed l' ns ref v"
  unfolding backed_def by blast

lemma ExtractSecretValue_ok:
  "ExtractSecretValue C ref ns l = (Inr v, l') \<longleftrightarrow>
     (\<exists>s. on_get_secret C l (ns, sk_Name ref) = Inr s \<and> se_Data s (sk_Key ref) = Some v \<and>
          l' = l @ [GetSecret (ns, sk_Name ref) (Inr s)])"
  by (auto simp: ExtractSecretValue_def bindS_Inr_iff mapErrS_iff get_secret_def Let_def
      simp del: mapErrS_apply split: option.splits)

lemma resolve_entry_ok:
  "resolve_entry C ns e pw l = (Inr pw', l') \<longleftrightarrow>
     (\<exists>v. ExtractSecretValue C (fst (snd e)) ns l = (Inr v, l') \<and> pw' = pw(fst e \<mapsto> v))"
  by (auto simp: resolve_entry_def bindS_Inr_iff mapErrS_iff simp del: mapErrS_apply)

lemma resolve_entries_backed:
  assumes "foldS (resolve_entry C ns) es pw0 l0 = (Inr pw, l)" and "distinct (map fst es)"
  shows "(\<forall>e \<in> set es. backed l ns (fst (snd e)) (pw (fst e))) \<and>
    (\<forall>k. k \<notin> fst ` set es \<longrightarrow> pw k = pw0 k)"
proof -
  let ?I = "\<lambda>ys pw l. (\<forall>e \<in> set ys. backed l ns (fst (snd e)) (pw (fst e))) \<and>
    (\<forall>k. k \<notin> fst ` set ys \<longrightarrow> pw k = pw0 k)"
  show ?thesis
  proof (rule foldS_inv [where I = ?I, OF assms(1)])
    fix ys x zs pw l pw1 l1
    assume es: "es = ys @ x # zs" and I: "?I ys pw l"
      and run: "resolve_entry C ns x pw l = (Inr pw1, l1)"
    from run obtain v s where v: "pw1 = pw(fst x \<mapsto> v)" "se_Data s (sk_Key (fst (snd x))) = Some v"
      "l1 = l @ [GetSecret (ns, sk_Name (fst (snd x))) (Inr s)]"
      by (auto simp: resolve_entry_ok ExtractSecretValue_ok)
    from es assms(2) have new: "fst x \<notin> fst ` set ys" by auto
    have "backed l1 ns (fst (snd x)) (pw1 (fst x))"
      using v by (auto simp: backed_def)
    moreover have "backed l1 ns (fst (snd e)) (pw1 (fst e))" if "e \<in> set ys" for e
    proof -
      from that new have "fst e \<noteq> fst x" by (metis image_eqI)
      then have "pw1 (fst e) = pw (fst e)" by (simp add: v(1))
      with I that v(3) show ?thesis by (auto intro: backed_mono)
    qed
    moreover have "\<forall>k. k \<notin> fst ` set (ys @ [x]) \<longrightarrow> pw1 k = pw0 k"
      using I v(1) by simp
    ultimately show "?I (ys @ [x]) pw1 l1" by simp
  qed simp
qed

text \<open>Pool names without a slash and different usernames give different keys.\<close>

definition keys_separate :: "PgDoormanSpec \<Rightarrow> bool" where
  "keys_separate spec \<longleftrightarrow>
     wf_map (ds_Pools spec) \<and>
     list_all (\<lambda>(n, p). CHR ''/'' \<notin> set n \<and> distinct (map us_Username (pl_Users p))) (ds_Pools spec)"

lemma pool_entries_keys:
  assumes "CHR ''/'' \<notin> set n" and "k \<in> fst ` set (pool_entries (n, p))"
  shows "takeWhile (\<lambda>c. c \<noteq> CHR ''/'') k = n" and "k \<noteq> AdminPasswordKey"
proof -
  from assms(2) obtain kind u where k: "k = PasswordKey n kind u" "kind \<in> {''user'', ''auth_query''}"
    by (auto simp: pool_entries_def auth_entries_def user_entry_def split: option.splits)
  with PasswordKey_takeWhile(1) [OF assms(1), of "kind @ ''/'' @ u"]
  show "takeWhile (\<lambda>c. c \<noteq> CHR ''/'') k = n" by (simp add: PasswordKey_def)
  from k show "k \<noteq> AdminPasswordKey" by (auto simp: PasswordKey_not_admin)
qed

lemma pool_entries_distinct:
  assumes "CHR ''/'' \<notin> set n" and "distinct (map us_Username (pl_Users p))"
  shows "distinct (map fst (pool_entries (n, p)))"
  using assms(2)
  by (auto simp: pool_entries_def auth_entries_def user_entry_def PasswordKey_def comp_def
      distinct_map inj_on_def split: option.splits)

lemma pools_entries_distinct:
  "wf_map ps \<Longrightarrow>
   list_all (\<lambda>(n, p). CHR ''/'' \<notin> set n \<and> distinct (map us_Username (pl_Users p))) ps \<Longrightarrow>
   distinct (map fst (concat (map pool_entries ps)))"
proof (induction ps)
  case (Cons e ps)
  obtain n p where e: "e = (n, p)" by (cases e)
  have "k \<notin> fst ` set (concat (map pool_entries ps))" if "k \<in> fst ` set (pool_entries e)" for k
  proof
    assume "k \<in> fst ` set (concat (map pool_entries ps))"
    then obtain m q where m: "(m, q) \<in> set ps" "k \<in> fst ` set (pool_entries (m, q))" by force
    with Cons.prems(2) have "takeWhile (\<lambda>c. c \<noteq> CHR ''/'') k = m"
      by (intro pool_entries_keys(1)) (auto simp: list_all_iff)
    moreover from that Cons.prems(2) have "takeWhile (\<lambda>c. c \<noteq> CHR ''/'') k = n"
      by (intro pool_entries_keys(1)) (auto simp: e)
    ultimately show False
      using Cons.prems(1) m(1) by (force simp: wf_map_def e)
  qed
  with Cons show ?case
    by (auto simp: e wf_map_def pool_entries_distinct)
qed simp

lemma entries_distinct: "keys_separate spec \<Longrightarrow> distinct (map fst (entries spec))"
proof -
  assume sep: "keys_separate spec"
  then have "AdminPasswordKey \<notin> fst ` set (concat (map pool_entries (ds_Pools spec)))"
    using pool_entries_keys(2) by (fastforce simp: keys_separate_def list_all_iff)
  with sep show ?thesis
    by (auto simp: entries_def admin_entries_def keys_separate_def pools_entries_distinct
        split: option.split)
qed

lemma ResolvePasswords_backed:
  assumes "keys_separate spec" and "ResolvePasswords C ns spec l0 = (Inr pw, l)" and "e \<in> set (entries spec)"
  shows "backed l ns (fst (snd e)) (pw (fst e))"
  using resolve_entries_backed [OF assms(2) [unfolded ResolvePasswords_entries] entries_distinct [OF assms(1)]]
    assms(3) by blast


definition static_user :: "string \<Rightarrow> string \<Rightarrow> UserSpec" where
  "static_user name secret =
     \<lparr>us_Username = name, us_PasswordSecretRef = \<lparr>sk_Name = secret, sk_Key = ''password''\<rparr>,
      us_PoolSize = None\<rparr>"

definition static_pool :: "UserSpec list \<Rightarrow> PoolSpec" where
  "static_pool us =
     \<lparr>pl_PoolMode = [], pl_DefaultPoolSize = None, pl_AuthQuery = None, pl_Users = us\<rparr>"

definition static_spec :: "(string \<times> PoolSpec) list \<Rightarrow> PgDoormanSpec" where
  "static_spec ps =
     \<lparr>ds_ClusterRef = ''pg'', ds_Pools = ps, ds_General = None, ds_Prometheus = None\<rparr>"

definition two_secrets :: client where
  "two_secrets = fixed_client
     [(''ns'', ''s1'') \<mapsto> plain_secret ''ns'' ''s1'' ''one'', (''ns'', ''s2'') \<mapsto> plain_secret ''ns'' ''s2'' ''two'']
     Map.empty Map.empty Map.empty"

definition separate_spec :: PgDoormanSpec where
  "separate_spec = static_spec
     [(''app'', static_pool [static_user ''alice'' ''s1'', static_user ''bob'' ''s2''])]"

definition colliding_spec :: PgDoormanSpec where
  "colliding_spec = static_spec
     [(''a'', static_pool [static_user ''b/user/c'' ''s1'']),
      (''a/user/b'', static_pool [static_user ''c'' ''s2''])]"

lemma resolve_next:
  assumes "on_get_secret C l (ns, sk_Name ref) = Inr s" and "se_Data s (sk_Key ref) = Some v"
  shows "foldS (resolve_entry C ns) ((k, ref, w) # es) pw l =
    foldS (resolve_entry C ns) es (pw(k \<mapsto> v)) (l @ [GetSecret (ns, sk_Name ref) (Inr s)])"
proof -
  have "resolve_entry C ns (k, ref, w) pw l = (Inr (pw(k \<mapsto> v)), l @ [GetSecret (ns, sk_Name ref) (Inr s)])"
    using assms by (simp add: resolve_entry_ok ExtractSecretValue_ok)
  then show ?thesis by (simp add: bindS_ok)
qed

lemma two_secrets_get:
  "on_get_secret two_secrets l (''ns'', ''s1'') = Inr (plain_secret ''ns'' ''s1'' ''one'')"
  "on_get_secret two_secrets l (''ns'', ''s2'') = Inr (plain_secret ''ns'' ''s2'' ''two'')"
  by (simp_all add: two_secrets_def fixed_client_def)

lemmas resolve_eval =
  ResolvePasswords_entries entries_def pool_entries_def auth_entries_def user_entry_def
  admin_entries_def admin_ref_def resolve_next two_secrets_get
  plain_secret_def static_spec_def static_pool_def static_user_def


text \<open>(C38) Without that condition the isolation fails: a spec the API server admits, with a pool named
  \<^verbatim>\<open>a/user/b\<close>, makes two users share the key \<^verbatim>\<open>a/user/b/user/c\<close>, and the first one is
  rendered with the password stored in the second one's Secret.\<close>

theorem password_key_collision:
  "crd_valid colliding_spec \<and>
   (\<exists>pw l. ResolvePasswords two_secrets ''ns'' colliding_spec [] = (Inr pw, l) \<and>
     us_PasswordSecretRef (static_user ''b/user/c'' ''s1'') = \<lparr>sk_Name = ''s1'', sk_Key = ''password''\<rparr> \<and>
     on_get_secret two_secrets [] (''ns'', ''s1'') = Inr (plain_secret ''ns'' ''s1'' ''one'') \<and>
     uc_Password (gen_user pw ''a'' (static_user ''b/user/c'' ''s1'')) = ''two'')"
  by (simp add: resolve_eval colliding_spec_def crd_valid_def wf_map_def crd_pool_def crd_positive_def
      crd_user_def gen_user_def lookup_str_def PasswordKey_def del: foldS.simps(2))

section \<open>Only reads\<close>

definition reads_of :: "string \<Rightarrow> string set \<Rightarrow> event \<Rightarrow> bool" where
  "reads_of ns names e \<longleftrightarrow> (\<exists>n \<in> names. \<exists>r. e = GetSecret (ns, n) r)"

lemma ResolvePasswords_reads:
  "framed (adds (reads_of ns (set (CollectSecretNames spec)))) (ResolvePasswords C ns spec)"
proof -
  have "framed (adds (reads_of ns names)) (ExtractSecretValue C ref ns)"
    if "sk_Name ref \<in> names" for ref names
    unfolding ExtractSecretValue_def
    by (intro framed_adds_intros framed_calls) (auto simp: reads_of_def that split: option.split intro: framed_adds_intros)
  then have entry: "framed (adds (reads_of ns names)) (resolve_entry C ns e pw)"
    if "sk_Name (fst (snd e)) \<in> names" for e pw names
    unfolding resolve_entry_def using that by (intro framed_adds_intros) auto
  have "framed (adds (reads_of ns names)) (foldS (resolve_entry C ns) es pw)"
    if "(\<lambda>e. sk_Name (fst (snd e))) ` set es \<subseteq> names" for es pw names
    using that by (induction es arbitrary: pw) (auto intro: framed_adds_intros entry)
  moreover have "sk_Name ` set (map (\<lambda>e. fst (snd e)) (entries spec)) = set (CollectSecretNames spec)"
    by (simp only: entries_refs CollectSecretNames_props)
  ultimately show ?thesis
    unfolding ResolvePasswords_entries by (simp add: image_image)
qed

end
