(* ===== verification/Render_Controller.thy ===== *)
theory Render_Controller
  imports Credentials Binary_Spec
begin

text \<open>
  The rendering controller: \<open>internal/controller/renderedconfig.go\<close>. \<open>Reconcile\<close> and every function it
  calls are translated in full, over the call log of \<open>Kube_Client\<close>.

  Third-party functions are fields of \<open>ctl_env\<close>: the YAML and JSON codecs, the finalizer helpers of
  controllerutil, \<open>meta.FindStatusCondition\<close> and \<open>meta.SetStatusCondition\<close>,
  \<open>ctrl.SetControllerReference\<close> and the formatting of messages. \<open>FindStatusCondition\<close> returns a pointer into
  the slice, so its model returns an index, and a read through it after \<open>SetStatusCondition\<close> reads the
  updated slice.
\<close>

section \<open>Errors, messages and the environment\<close>

definition ConfigKey :: string where "ConfigKey = ''pg_doorman.yaml''"
definition generatedAdminPasswordKey :: string where "generatedAdminPasswordKey = ''admin-password''"
definition ClusterLabel :: string where "ClusterLabel = ''cnpg.io/cluster''"
definition Finalizer :: string where "Finalizer = ''pg-doorman.cnpg.io/in-use''"
definition requeueAfter :: nat where "requeueAfter = 30"
definition TLSCertPath :: string where "TLSCertPath = ''/etc/pg-doorman-tls/tls.crt''"
definition ConvertedTLSKeyPath :: string where "ConvertedTLSKeyPath = ''/tmp/pg_doorman-tls.key''"

lemmas ctl_constants = ConfigKey_def generatedAdminPasswordKey_def ClusterLabel_def BinarySpecKey_def

definition RenderedSecretName :: "string \<Rightarrow> string" where
  "RenderedSecretName clusterName = clusterName @ ''-doorman-config''"

datatype own_error =
    NotFoundOrUnlabeled string string
  | ReferencedSecret string api_error
  | NotLabeled string string

datatype auth_secret_error = AuthApi api_error | AuthRand | AuthOwner string | ExistsUnlabeled string string

datatype render_error =
    RenderCred cred_error
  | RenderApi api_error
  | RenderRand
  | RenderMarshal string
  | RenderInvalid validation_error
  | RenderPanic

datatype reconcile_error = EApi api_error | EJson string | EOwner string

datatype 'q message =
    MConfig "'q config_error"
  | MAuthRef auth_ref_error
  | MAuthSecret auth_secret_error
  | MOwnership own_error
  | MRender render_error
  | MRendered int string

datatype requeue = NoRequeue | RequeueAfter nat

record 'q ctl_env =
  ce_config :: "'q config_env"
  ce_marshal :: "DoormanConfig \<Rightarrow> string + string"
  ce_unmarshal :: "string \<Rightarrow> string + DoormanConfig"
  ce_rank :: "config_field \<Rightarrow> nat"
  ce_json :: "BinarySpec \<Rightarrow> string + string"
  ce_Binary :: "BinarySpec option"
  ce_Recorder :: bool
  ce_ContainsFinalizer :: "string list \<Rightarrow> string \<Rightarrow> bool"
  ce_AddFinalizer :: "string list \<Rightarrow> string \<Rightarrow> string list"
  ce_RemoveFinalizer :: "string list \<Rightarrow> string \<Rightarrow> string list"
  ce_FindStatusCondition :: "Condition list \<Rightarrow> string \<Rightarrow> nat option"
  ce_SetStatusCondition :: "Condition list \<Rightarrow> Condition \<Rightarrow> Condition list \<times> bool"
  ce_SetControllerReference :: "Cluster \<Rightarrow> string option \<Rightarrow> string + string option"
  ce_text :: "'q message \<Rightarrow> string"

section \<open>Status and events\<close>

definition eventf :: "'q ctl_env \<Rightarrow> string \<Rightarrow> (log, 'e, unit) st" where
  "eventf R reason = (if ce_Recorder R then record_event ''Warning'' reason else retS ())"

definition setRendered ::
  "'q ctl_env \<Rightarrow> client \<Rightarrow> PgDoorman \<Rightarrow> bool \<Rightarrow> string \<Rightarrow> 'q message \<Rightarrow> (log, api_error, unit) st" where
  "setRendered R C pd ok reason msg =
     (let prev = ce_FindStatusCondition R (pd_Conditions pd) ''Rendered'';
          (conds, changed) = ce_SetStatusCondition R (pd_Conditions pd)
            \<lparr>co_Type = ''Rendered'', co_Status = ok, co_Reason = reason, co_Message = ce_text R msg,
             co_ObservedGeneration = pd_Generation pd\<rparr>;
          pd' = pd\<lparr>pd_Conditions := conds,
                   pd_ObservedGeneration := (if ok then pd_Generation pd else pd_ObservedGeneration pd)\<rparr>;
          prev_false = (case prev of None \<Rightarrow> False | Some i \<Rightarrow> i < length conds \<and> \<not> co_Status (conds ! i))
      in if \<not> changed \<and> pd_ObservedGeneration pd' = pd_Generation pd' then retS ()
         else bindS (if ok \<and> prev_false \<and> ce_Recorder R then record_event ''Normal'' ''Rendered'' else retS ())
           (\<lambda>_. update_status C pd'))"

section \<open>Finalizer\<close>

definition reconcileDeletion ::
  "'q ctl_env \<Rightarrow> client \<Rightarrow> PgDoorman \<Rightarrow> bool \<Rightarrow> (log, reconcile_error, requeue) st" where
  "reconcileDeletion R C pd inUse =
     (if \<not> ce_ContainsFinalizer R (pd_Finalizers pd) Finalizer then retS NoRequeue
      else if inUse then bindS (eventf R ''DeletionBlocked'') (\<lambda>_. retS (RequeueAfter requeueAfter))
      else bindS (mapErrS EApi (patch_pgdoorman C pd
             (pd\<lparr>pd_Finalizers := ce_RemoveFinalizer R (pd_Finalizers pd) Finalizer\<rparr>)))
           (\<lambda>_. retS NoRequeue))"

definition ensureFinalizer ::
  "'q ctl_env \<Rightarrow> client \<Rightarrow> PgDoorman \<Rightarrow> bool \<Rightarrow> (log, api_error, PgDoorman) st" where
  "ensureFinalizer R C pd inUse =
     (let has = ce_ContainsFinalizer R (pd_Finalizers pd) Finalizer in
      if inUse = has then retS pd
      else if inUse
        then patch_pgdoorman C pd (pd\<lparr>pd_Finalizers := ce_AddFinalizer R (pd_Finalizers pd) Finalizer\<rparr>)
      else patch_pgdoorman C pd (pd\<lparr>pd_Finalizers := ce_RemoveFinalizer R (pd_Finalizers pd) Finalizer\<rparr>))"

section \<open>Secrets\<close>

definition check_secret_owner ::
  "client \<Rightarrow> string \<Rightarrow> string \<Rightarrow> string \<Rightarrow> (log, own_error, unit) st" where
  "check_secret_owner C ns clusterName name =
     bindS (tryS (get_secret C (ns, name))) (\<lambda>r.
       case r of
         Inl NotFound \<Rightarrow> throwS (NotFoundOrUnlabeled name clusterName)
       | Inl e \<Rightarrow> throwS (ReferencedSecret name e)
       | Inr secret \<Rightarrow>
           if lookup_str (se_Labels secret) ClusterLabel \<noteq> clusterName
           then throwS (NotLabeled name clusterName) else retS ())"

definition validateSecretOwnership ::
  "client \<Rightarrow> PgDoorman \<Rightarrow> PgDoormanSpec \<Rightarrow> string \<Rightarrow> (log, own_error, unit) st" where
  "validateSecretOwnership C pd spec clusterName =
     forS (check_secret_owner C (pd_Namespace pd) clusterName) (CollectSecretNames spec)"

definition hex_digit :: "nat \<Rightarrow> char" where
  "hex_digit n = (if n < 10 then char_of (48 + n) else char_of (87 + n))"

definition hex_encode :: "string \<Rightarrow> string" where
  "hex_encode bs = concat (map (\<lambda>c. [hex_digit (of_char c div 16), hex_digit (of_char c mod 16)]) bs)"

definition randomPassword :: "client \<Rightarrow> (log, unit, string) st" where
  "randomPassword C = bindS (rand_read C 16) (\<lambda>buf. retS (hex_encode buf))"

definition generated_auth_secret :: "Cluster \<Rightarrow> string \<Rightarrow> string \<Rightarrow> Secret" where
  "generated_auth_secret cluster user password =
     \<lparr>se_Namespace = cl_Namespace cluster, se_Name = GeneratedAuthSecretName (cl_Name cluster),
      se_Labels = [ClusterLabel \<mapsto> cl_Name cluster], se_Type = ''kubernetes.io/basic-auth'',
      se_Data = [''username'' \<mapsto> user, ''password'' \<mapsto> password], se_Owner = None,
      se_ResourceVersion = []\<rparr>"

definition ensureGeneratedAuthSecret ::
  "'q ctl_env \<Rightarrow> client \<Rightarrow> Cluster \<Rightarrow> string \<Rightarrow> (log, auth_secret_error, unit) st" where
  "ensureGeneratedAuthSecret R C cluster user =
     (let name = GeneratedAuthSecretName (cl_Name cluster) in
      bindS (tryS (get_secret C (cl_Namespace cluster, name))) (\<lambda>r.
        case r of
          Inr existing \<Rightarrow> retS ()
        | Inl e \<Rightarrow>
            if e \<noteq> NotFound then throwS (AuthApi e)
            else bindS (mapErrS (\<lambda>_. AuthRand) (randomPassword C)) (\<lambda>password.
              let secret = generated_auth_secret cluster user password in
              case ce_SetControllerReference R cluster (se_Owner secret) of
                Inl e \<Rightarrow> throwS (AuthOwner e)
              | Inr owner \<Rightarrow>
                  mapErrS (\<lambda>e. if e = AlreadyExists then ExistsUnlabeled name (cl_Name cluster) else AuthApi e)
                    (create_secret C (secret\<lparr>se_Owner := owner\<rparr>)))))"

definition adminPasswordFallback :: "client \<Rightarrow> Cluster \<Rightarrow> (log, render_error, string) st" where
  "adminPasswordFallback C cluster =
     bindS (tryS (get_secret C (cl_Namespace cluster, RenderedSecretName (cl_Name cluster)))) (\<lambda>r.
       case r of
         Inr existing \<Rightarrow>
           (case se_Data existing generatedAdminPasswordKey of
              Some prev \<Rightarrow> if prev \<noteq> [] then retS prev else mapErrS (\<lambda>_. RenderRand) (randomPassword C)
            | None \<Rightarrow> mapErrS (\<lambda>_. RenderRand) (randomPassword C))
       | Inl e \<Rightarrow> if e \<noteq> NotFound then throwS (RenderApi e)
                 else mapErrS (\<lambda>_. RenderRand) (randomPassword C))"

definition render_tls :: TLSFiles where
  "render_tls = \<lparr>tf_Certificate = TLSCertPath, tf_PrivateKey = ConvertedTLSKeyPath\<rparr>"

definition render ::
  "'q ctl_env \<Rightarrow> client \<Rightarrow> PgDoormanSpec \<Rightarrow> string \<Rightarrow> Cluster \<Rightarrow> 'q PluginConfiguration \<Rightarrow>
   (log, render_error, string \<times> string) st" where
  "render R C spec namespace cluster cfg =
     bindS (mapErrS RenderCred (ResolvePasswords C namespace spec)) (\<lambda>resolved.
     bindS (adminPasswordFallback C cluster) (\<lambda>generatedAdmin.
       let passwords = EnsureAdminPassword resolved generatedAdmin in
       case Generate (ce_marshal R) spec (pc_PoolerPort cfg) (pc_MetricsPort cfg) passwords (Some render_tls) of
         None \<Rightarrow> throwS RenderPanic
       | Some (Inl e) \<Rightarrow> throwS (RenderMarshal e)
       | Some (Inr data) \<Rightarrow>
           (case ValidateConfigBytes (ce_unmarshal R) (ce_rank R) data of
              Inl e \<Rightarrow> throwS (RenderInvalid e)
            | Inr _ \<Rightarrow> retS (data, generatedAdmin))))"

definition binarySpecJSON :: "'q ctl_env \<Rightarrow> bool \<Rightarrow> string + string option" where
  "binarySpecJSON R inPlaceUpgrades =
     (case ce_Binary R of
        None \<Rightarrow> Inr None
      | Some b \<Rightarrow> if \<not> inPlaceUpgrades then Inr None else map_sum id Some (ce_json R b))"

definition desired_secret :: "Cluster \<Rightarrow> string \<Rightarrow> string \<Rightarrow> string option \<Rightarrow> Secret" where
  "desired_secret cluster data generatedAdmin binaryJSON =
     \<lparr>se_Namespace = cl_Namespace cluster, se_Name = RenderedSecretName (cl_Name cluster),
      se_Labels = [ClusterLabel \<mapsto> cl_Name cluster], se_Type = [],
      se_Data = [ConfigKey \<mapsto> data, generatedAdminPasswordKey \<mapsto> generatedAdmin](BinarySpecKey := binaryJSON),
      se_Owner = None, se_ResourceVersion = []\<rparr>"

definition upsertSecret ::
  "'q ctl_env \<Rightarrow> client \<Rightarrow> Cluster \<Rightarrow> string \<Rightarrow> string \<Rightarrow> bool \<Rightarrow> (log, reconcile_error, unit) st" where
  "upsertSecret R C cluster data generatedAdmin inPlaceUpgrades =
     (case binarySpecJSON R inPlaceUpgrades of
        Inl e \<Rightarrow> throwS (EJson e)
      | Inr binaryJSON \<Rightarrow>
          (let desired = desired_secret cluster data generatedAdmin binaryJSON in
           bindS (tryS (get_secret C (se_Namespace desired, se_Name desired))) (\<lambda>r.
             case r of
               Inl e \<Rightarrow>
                 if e \<noteq> NotFound then throwS (EApi e)
                 else (case ce_SetControllerReference R cluster (se_Owner desired) of
                         Inl e \<Rightarrow> throwS (EOwner e)
                       | Inr owner \<Rightarrow> mapErrS EApi (create_secret C (desired\<lparr>se_Owner := owner\<rparr>)))
             | Inr existing \<Rightarrow>
                 if lookup_str (se_Data existing) ConfigKey = data \<and>
                    lookup_str (se_Data existing) generatedAdminPasswordKey = generatedAdmin \<and>
                    lookup_str (se_Data existing) BinarySpecKey = (case binaryJSON of None \<Rightarrow> [] | Some j \<Rightarrow> j)
                 then retS ()
                 else mapErrS EApi (patch_secret C existing
                        (existing\<lparr>se_Data := se_Data desired,
                                  se_Labels := (se_Labels existing)(ClusterLabel \<mapsto> cl_Name cluster)\<rparr>)))))"

section \<open>Reconcile\<close>

text \<open>The recurring exit of \<open>Reconcile\<close>: a warning event, the False condition, and the given result.\<close>

definition fail_render ::
  "'q ctl_env \<Rightarrow> client \<Rightarrow> PgDoorman \<Rightarrow> string \<Rightarrow> 'q message \<Rightarrow> requeue \<Rightarrow> (log, reconcile_error, requeue) st" where
  "fail_render R C pd reason msg result =
     bindS (eventf R reason) (\<lambda>_.
     bindS (mapErrS EApi (setRendered R C pd False reason msg)) (\<lambda>_. retS result))"

text \<open>The end of \<open>Reconcile\<close>: store the configuration and report it.\<close>

definition reconcile_publish ::
  "'q ctl_env \<Rightarrow> client \<Rightarrow> PgDoorman \<Rightarrow> Cluster \<Rightarrow> 'q PluginConfiguration \<Rightarrow> string \<times> string \<Rightarrow>
   (log, reconcile_error, requeue) st" where
  "reconcile_publish R C pd cluster cfg rendered =
     bindS (upsertSecret R C cluster (fst rendered) (snd rendered) (pc_InPlaceUpgrades cfg)) (\<lambda>_.
     bindS (mapErrS EApi (setRendered R C pd True ''Rendered''
             (MRendered (pd_Generation pd) (RenderedSecretName (cl_Name cluster)))))
       (\<lambda>_. retS NoRequeue))"

definition reconcile_render ::
  "'q ctl_env \<Rightarrow> client \<Rightarrow> PgDoorman \<Rightarrow> Cluster \<Rightarrow> 'q PluginConfiguration \<Rightarrow> PgDoormanSpec \<Rightarrow>
   (log, reconcile_error, requeue) st" where
  "reconcile_render R C pd cluster cfg spec =
     bindS (tryS (validateSecretOwnership C pd spec (cl_Name cluster))) (\<lambda>v.
       case v of
         Inl e \<Rightarrow> fail_render R C pd ''SecretNotAllowed'' (MOwnership e) (RequeueAfter requeueAfter)
       | Inr _ \<Rightarrow>
           bindS (tryS (render R C spec (pd_Namespace pd) cluster cfg)) (\<lambda>r.
             case r of
               Inl e \<Rightarrow> fail_render R C pd ''RenderFailed'' (MRender e) (RequeueAfter requeueAfter)
             | Inr rendered \<Rightarrow> reconcile_publish R C pd cluster cfg rendered))"

definition reconcile_cluster ::
  "'q ctl_env \<Rightarrow> client \<Rightarrow> PgDoorman \<Rightarrow> Cluster \<Rightarrow> (log, reconcile_error, requeue) st" where
  "reconcile_cluster R C pd cluster =
     (let cfg = NewFromCluster (ce_config R) cluster in
      if \<not> pc_Enabled cfg \<or> pc_ConfigName cfg \<noteq> pd_Name pd then retS NoRequeue
      else (case Validate (ce_config R) cfg of
        Inl e \<Rightarrow> fail_render R C pd ''InvalidPluginConfig'' (MConfig e) NoRequeue
      | Inr _ \<Rightarrow>
          (case DefaultAuthSecretRefs (pd_Spec pd) of
             Inl e \<Rightarrow> fail_render R C pd ''InvalidSpec'' (MAuthRef e) NoRequeue
           | Inr (spec, generatedUser) \<Rightarrow>
               if generatedUser \<noteq> [] then
                 bindS (tryS (ensureGeneratedAuthSecret R C cluster generatedUser)) (\<lambda>g.
                   case g of
                     Inl e \<Rightarrow> fail_render R C pd ''AuthSecretFailed'' (MAuthSecret e) (RequeueAfter requeueAfter)
                   | Inr _ \<Rightarrow> reconcile_render R C pd cluster cfg spec)
               else reconcile_render R C pd cluster cfg spec)))"

text \<open>The part after the two reads: \<open>c\<close> is the answer for the Cluster.\<close>

definition reconcile_found ::
  "'q ctl_env \<Rightarrow> client \<Rightarrow> PgDoorman \<Rightarrow> api_error + Cluster \<Rightarrow> (log, reconcile_error, requeue) st" where
  "reconcile_found R C pd c =
     (if (case c of Inl e \<Rightarrow> e \<noteq> NotFound | Inr _ \<Rightarrow> False) then throwS (EApi (projl c))
      else
        let inUse = (case c of Inl _ \<Rightarrow> False
                     | Inr cluster \<Rightarrow> pc_ConfigName (NewFromCluster (ce_config R) cluster) = pd_Name pd)
        in if pd_Deleting pd then reconcileDeletion R C pd inUse
           else bindS (mapErrS EApi (ensureFinalizer R C pd inUse)) (\<lambda>pd'.
             case c of
               Inl _ \<Rightarrow> retS (RequeueAfter requeueAfter)
             | Inr cluster \<Rightarrow> reconcile_cluster R C pd' cluster))"

definition Reconcile ::
  "'q ctl_env \<Rightarrow> client \<Rightarrow> key \<Rightarrow> (log, reconcile_error, requeue) st" where
  "Reconcile R C req =
     bindS (tryS (get_pgdoorman C req)) (\<lambda>p.
       case p of
         Inl e \<Rightarrow> if e = NotFound then retS NoRequeue else throwS (EApi e)
       | Inr pd \<Rightarrow>
           bindS (tryS (get_cluster C (pd_Namespace pd, ds_ClusterRef (pd_Spec pd))))
             (reconcile_found R C pd))"

section \<open>Which changes trigger a reconcile\<close>

definition mapCluster :: "'q config_env \<Rightarrow> Cluster \<Rightarrow> key list" where
  "mapCluster E cluster =
     (let cfg = NewFromCluster E cluster in
      if \<not> pc_Enabled cfg \<or> pc_ConfigName cfg = [] then []
      else [(cl_Namespace cluster, pc_ConfigName cfg)])"

definition watched_spec :: "PgDoorman \<Rightarrow> PgDoormanSpec" where
  "watched_spec pd =
     (case DefaultAuthSecretRefs (pd_Spec pd) of Inl _ \<Rightarrow> pd_Spec pd | Inr (normalized, _) \<Rightarrow> normalized)"

definition mapSecret :: "client \<Rightarrow> key \<Rightarrow> (log, api_error, key list) st" where
  "mapSecret C obj =
     bindS (tryS (list_pgdoormen C (fst obj))) (\<lambda>r.
       case r of
         Inl _ \<Rightarrow> retS []
       | Inr items \<Rightarrow>
           retS (map (\<lambda>pd. (pd_Namespace pd, pd_Name pd))
             (filter (\<lambda>pd. snd obj \<in> set (CollectSecretNames (watched_spec pd))) items)))"

text \<open>The watches of \<open>SetupWithManager\<close>: what each kind of change enqueues.\<close>

datatype watch_event = DoormanChanged key | ClusterChanged Cluster | SecretChanged key

fun SetupWithManager :: "'q config_env \<Rightarrow> client \<Rightarrow> watch_event \<Rightarrow> (log, api_error, key list) st" where
  "SetupWithManager E C (DoormanChanged k) = retS [k]"
| "SetupWithManager E C (ClusterChanged cluster) = retS (mapCluster E cluster)"
| "SetupWithManager E C (SecretChanged k) = mapSecret C k"

section \<open>Which writes carry a configuration\<close>

definition config_write :: "event \<Rightarrow> string \<Rightarrow> bool" where
  "config_write e d \<longleftrightarrow>
     (case e of CreateSecret s _ \<Rightarrow> se_Data s ConfigKey = Some d
      | PatchSecret _ s _ \<Rightarrow> se_Data s ConfigKey = Some d | _ \<Rightarrow> False)"

definition no_config :: "event \<Rightarrow> bool" where
  "no_config e \<longleftrightarrow> (\<forall>d. \<not> config_write e d)"

definition inert :: "event \<Rightarrow> bool" where
  "inert e \<longleftrightarrow> no_config e \<and> (\<forall>p q a. e \<noteq> PatchPgDoorman p q a)"

text \<open>\<open>quiet\<close>: the code writes no configuration. \<open>still\<close>: nor does it patch the \<open>PgDoorman\<close>.\<close>

abbreviation quiet :: "(log, 'e, 'a) st \<Rightarrow> bool" where
  "quiet m \<equiv> framed (adds no_config) m"

abbreviation still :: "(log, 'e, 'a) st \<Rightarrow> bool" where
  "still m \<equiv> framed (adds inert) m"

lemma no_config_simps [simp]:
  "no_config (GetSecret k r)" "no_config (GetPgDoorman k p)" "no_config (PatchPgDoorman pd pd' p)"
  "no_config (UpdateStatus pd u)" "no_config (ListPgDoormen ns ps)" "no_config (GetCluster k c)"
  "no_config (RandRead n b)" "no_config (RecordEvent ty reason)"
  "no_config (CreateSecret s u) \<longleftrightarrow> se_Data s ConfigKey = None"
  by (auto simp: no_config_def config_write_def)

lemma inert_simps [simp]:
  "inert (GetSecret k r)" "inert (GetPgDoorman k p)"
  "inert (UpdateStatus pd u)" "inert (ListPgDoormen ns ps)" "inert (GetCluster k c)"
  "inert (RandRead n b)" "inert (RecordEvent ty reason)"
  "inert (CreateSecret s u) \<longleftrightarrow> se_Data s ConfigKey = None"
  by (auto simp: inert_def)

lemma still_quiet: "still m \<Longrightarrow> quiet m"
  unfolding framed_def inert_def by (blast intro: adds_mono)

lemmas quiet_intros = framed_adds_intros framed_calls

lemma still_eventf: "still (eventf R reason)"
  by (simp add: eventf_def framed_calls framed_adds_intros)

lemma still_setRendered: "still (setRendered R C pd ok reason msg)"
  unfolding setRendered_def Let_def case_prod_unfold
  by (simp add: framed_calls framed_adds_intros)

lemma quiet_reconcileDeletion: "quiet (reconcileDeletion R C pd inUse)"
  by (simp add: reconcileDeletion_def framed_calls framed_adds_intros still_quiet [OF still_eventf])

lemma quiet_ensureFinalizer: "quiet (ensureFinalizer R C pd inUse)"
  by (simp add: ensureFinalizer_def Let_def framed_calls framed_adds_intros)

lemma still_check_secret_owner: "still (check_secret_owner C ns cn n)"
  unfolding check_secret_owner_def
  by (intro quiet_intros) (auto split: sum.split api_error.split intro: quiet_intros)

lemma still_validateSecretOwnership: "still (validateSecretOwnership C pd spec cn)"
  unfolding validateSecretOwnership_def by (intro quiet_intros still_check_secret_owner)

lemma still_randomPassword: "still (randomPassword C)"
  unfolding randomPassword_def by (intro quiet_intros) auto

lemma still_ensureGeneratedAuthSecret: "still (ensureGeneratedAuthSecret R C cluster user)"
  unfolding ensureGeneratedAuthSecret_def Let_def
  by (intro quiet_intros)
     (auto simp: generated_auth_secret_def ConfigKey_def split: sum.split
       intro!: quiet_intros still_randomPassword)

lemma still_adminPasswordFallback: "still (adminPasswordFallback C cluster)"
  unfolding adminPasswordFallback_def
  by (intro quiet_intros)
     (auto split: sum.split option.split intro!: quiet_intros still_randomPassword)

lemma reads_inert: "reads_of ns names e \<Longrightarrow> inert e"
  by (auto simp: reads_of_def)

lemma still_ResolvePasswords: "still (ResolvePasswords C ns spec)"
  using ResolvePasswords_reads [of ns spec C] unfolding framed_def
  by (blast intro: adds_mono reads_inert)

lemma still_render: "still (render R C spec ns cluster cfg)"
  unfolding render_def
  by (intro quiet_intros still_ResolvePasswords still_adminPasswordFallback)
     (auto simp: Let_def split: sum.split option.split intro!: quiet_intros)

lemma still_fail_render: "still (fail_render R C pd reason msg result)"
  by (simp add: fail_render_def framed_adds_intros still_eventf still_setRendered)

lemmas still_calls =
  still_setRendered still_fail_render still_validateSecretOwnership still_render
  still_ensureGeneratedAuthSecret

lemmas quiet_calls = still_calls [THEN still_quiet]

lemma upsertSecret_writes:
  "framed (adds (\<lambda>e. (\<forall>d. config_write e d \<longrightarrow> d = data) \<and> (\<forall>p q a. e \<noteq> PatchPgDoorman p q a)))
     (upsertSecret R C cluster data admin up)"
  unfolding upsertSecret_def Let_def
  by (auto simp: config_write_def desired_secret_def ctl_constants framed_calls framed_adds_intros
      split: sum.split intro!: framed_bindS [OF adds_trans])

end
