(* ===== verification/Render_Safety.thy ===== *)
theory Render_Safety
  imports Render_Controller
begin

text \<open>
  What a reconcile of the rendering controller writes, proved of whole runs of \<open>Reconcile\<close> against an
  arbitrary API server: which Secret writes carry a configuration and what the controller saw before
  making one, that the admin password is kept, that an unchanged Secret is not written, that the
  finalizer follows the reference, and which \<open>PgDoorman\<close> objects a Secret event wakes.
\<close>

section \<open>Following a write back through a run\<close>

lemma quiet_bindE:
  assumes "bindS m f l = (r, L)" and "framed (adds no_config) m"
    and "e \<in> set L" "config_write e d" "e \<notin> set l"
  obtains a l' where "m l = (Inr a, l')" "set l \<subseteq> set l'" "f a l' = (r, L)" "e \<notin> set l'"
proof -
  obtain x l' where m: "m l = (x, l')" by (cases "m l")
  with assms(2) have ad: "adds no_config l l'" by (auto simp: framed_def dest: spec [of _ l])
  with assms(4,5) have new: "e \<notin> set l'" using adds_new by (fastforce simp: no_config_def)
  from assms(1,3) m new obtain a where "x = Inr a" "f a l' = (r, L)"
    by (cases x) (auto simp: bindS_def)
  with m new adds_set [OF ad] that show thesis by blast
qed

lemma quiet_runE:
  assumes "m l = (r, L)" and "framed (adds no_config) m" and "e \<in> set L" "config_write e d" "e \<notin> set l"
  shows False
proof -
  from assms(1,2) have "adds no_config l L" by (auto simp: framed_def dest: spec [of _ l])
  with adds_new [OF this assms(3)] assms(4,5) show False by (auto simp: no_config_def)
qed

lemma framed_any: "framed (adds P) m \<Longrightarrow> m l = (r, L) \<Longrightarrow> set l \<subseteq> set L"
  unfolding framed_def by (metis adds_set snd_conv)

text \<open>A Secret read that the run saw, with the label of the given cluster.\<close>

definition seen_labelled :: "log \<Rightarrow> string \<Rightarrow> string \<Rightarrow> string \<Rightarrow> bool" where
  "seen_labelled l ns clusterName name \<longleftrightarrow>
     (\<exists>s. GetSecret (ns, name) (Inr s) \<in> set l \<and> lookup_str (se_Labels s) ClusterLabel = clusterName)"

lemma check_secret_owner_ok:
  "check_secret_owner C ns cn name l = (Inr (), l') \<Longrightarrow> seen_labelled l' ns cn name \<and> set l \<subseteq> set l'"
  by (auto simp: check_secret_owner_def bindS_def get_secret_def Let_def seen_labelled_def
      split: sum.splits if_splits api_error.splits)

lemma seen_labelled_mono: "seen_labelled l ns cn n \<Longrightarrow> set l \<subseteq> set l' \<Longrightarrow> seen_labelled l' ns cn n"
  by (auto simp: seen_labelled_def)

lemma check_owners_ok:
  "forS (check_secret_owner C ns cn) names l = (Inr (), l') \<Longrightarrow>
   (\<forall>n \<in> set names. seen_labelled l' ns cn n) \<and> set l \<subseteq> set l'"
proof (induction names arbitrary: l)
  case (Cons n names)
  then obtain l1 where "check_secret_owner C ns cn n l = (Inr (), l1)"
    and "forS (check_secret_owner C ns cn) names l1 = (Inr (), l')"
    by (auto simp: bindS_Inr_iff)
  with Cons.IH check_secret_owner_ok show ?case
    by (fastforce intro: seen_labelled_mono)
qed simp

lemma render_stages:
  assumes "render R C spec ns cluster cfg l = (Inr (data, admin), l')"
  shows "\<exists>pw l1 c. ResolvePasswords C ns spec l = (Inr pw, l1) \<and>
    adminPasswordFallback C cluster l1 = (Inr admin, l') \<and>
    Generate (ce_marshal R) spec (pc_PoolerPort cfg) (pc_MetricsPort cfg) (EnsureAdminPassword pw admin)
      (Some render_tls) = Some (Inr data) \<and>
    ValidateConfigBytes (ce_unmarshal R) (ce_rank R) data = Inr c"
proof -
  from assms obtain pw l1 admin' l2 where
    1: "ResolvePasswords C ns spec l = (Inr pw, l1)" "adminPasswordFallback C cluster l1 = (Inr admin', l2)"
    unfolding render_def Let_def bindS_Inr_iff mapErrS_iff by blast
  let ?g = "Generate (ce_marshal R) spec (pc_PoolerPort cfg) (pc_MetricsPort cfg)
    (EnsureAdminPassword pw admin') (Some render_tls)"
  from assms 1 have "(case ?g of None \<Rightarrow> throwS RenderPanic
       | Some (Inl e) \<Rightarrow> throwS (RenderMarshal e)
       | Some (Inr data) \<Rightarrow>
           (case ValidateConfigBytes (ce_unmarshal R) (ce_rank R) data of
              Inl e \<Rightarrow> throwS (RenderInvalid e)
            | Inr _ \<Rightarrow> retS (data, admin'))) l2 = (Inr (data, admin), l')"
    by (simp add: render_def Let_def bindS_def)
  with 1 show ?thesis by (auto split: option.splits sum.splits)
qed

lemma render_ok:
  assumes "render R C spec ns cluster cfg l = (Inr (data, admin), l')"
  shows "\<exists>c. ce_unmarshal R data = Inr c \<and> config_ok c"
  using render_stages [OF assms] by (auto simp: ValidateConfigBytes_ok)

section \<open>The Secret that is written\<close>

text \<open>The write goes to the Secret \<open>k\<close>: it creates it, or patches the object that was read under \<open>k\<close>.\<close>

definition writes_to :: "log \<Rightarrow> event \<Rightarrow> key \<Rightarrow> bool" where
  "writes_to l e k \<longleftrightarrow>
     (case e of CreateSecret s _ \<Rightarrow> (se_Namespace s, se_Name s) = k
      | PatchSecret old _ _ \<Rightarrow> GetSecret k (Inr old) \<in> set l | _ \<Rightarrow> False)"

lemma upsertSecret_run:
  assumes "upsertSecret R C cluster data admin up l = (r, l')" and "e \<in> set l'" "e \<notin> set l"
    and "config_write e d"
  shows "d = data \<and> writes_to l' e (cl_Namespace cluster, RenderedSecretName (cl_Name cluster))"
  using assms
  by (auto simp: upsertSecret_def Let_def bindS_def get_secret_def create_secret_def patch_secret_def
      config_write_def desired_secret_def ctl_constants writes_to_def
      split: sum.splits if_splits option.splits)

section \<open>A whole reconcile\<close>

text \<open>What holds when the controller writes the configuration \<open>d\<close> with the call \<open>e\<close> in the log \<open>l\<close>.\<close>

definition write_allowed ::
  "'q ctl_env \<Rightarrow> log \<Rightarrow> PgDoorman \<Rightarrow> Cluster \<Rightarrow> event \<Rightarrow> string \<Rightarrow> bool" where
  "write_allowed R l pd cluster e d \<longleftrightarrow>
     (\<exists>spec user. DefaultAuthSecretRefs (pd_Spec pd) = Inr (spec, user) \<and>
        (\<forall>name \<in> set (CollectSecretNames spec). seen_labelled l (pd_Namespace pd) (cl_Name cluster) name)) \<and>
     (\<exists>c. ce_unmarshal R d = Inr c \<and> config_ok c) \<and>
     writes_to l e (cl_Namespace cluster, RenderedSecretName (cl_Name cluster))"

lemma writes_to_mono: "writes_to l e k \<Longrightarrow> set l \<subseteq> set l' \<Longrightarrow> writes_to l' e k"
  by (auto simp: writes_to_def split: event.splits)

lemma reconcile_publish_write:
  assumes "reconcile_publish R C pd cluster cfg rendered l = (r, L)"
    and e: "e \<in> set L" "config_write e d" "e \<notin> set l"
  shows "d = fst rendered \<and> set l \<subseteq> set L \<and>
    writes_to L e (cl_Namespace cluster, RenderedSecretName (cl_Name cluster))"
proof -
  obtain u l1 where up: "upsertSecret R C cluster (fst rendered) (snd rendered) (pc_InPlaceUpgrades cfg) l = (u, l1)"
    by (cases "upsertSecret R C cluster (fst rendered) (snd rendered) (pc_InPlaceUpgrades cfg) l")
  have quiet: "framed (adds no_config) (bindS (mapErrS EApi (setRendered R C pd True ''Rendered''
      (MRendered (pd_Generation pd) (RenderedSecretName (cl_Name cluster))))) (\<lambda>_. retS NoRequeue))"
    by (intro framed_adds_intros still_setRendered [THEN still_quiet])
  have grow: "set l1 \<subseteq> set L"
    using assms(1) up framed_any [OF quiet] by (cases u) (auto simp: reconcile_publish_def bindS_def)
  have "e \<in> set l1"
    using assms(1) up e quiet_runE [OF _ quiet e(1,2)]
    by (cases u) (auto simp: reconcile_publish_def bindS_def)
  with upsertSecret_run [OF up this e(3,2)] grow framed_any [OF upsertSecret_writes up] show ?thesis
    by (auto intro: writes_to_mono)
qed

lemma reconcile_render_write:
  assumes "reconcile_render R C pd cluster cfg spec l = (r, L)"
    and e: "e \<in> set L" "config_write e d" "e \<notin> set l"
    and spec: "DefaultAuthSecretRefs (pd_Spec pd) = Inr (spec, user)"
  shows "write_allowed R L pd cluster e d"
proof -
  from assms(1) obtain v l1 where
    1: "tryS (validateSecretOwnership C pd spec (cl_Name cluster)) l = (Inr v, l1)" "e \<notin> set l1"
    and rest1: "(case v of
         Inl x \<Rightarrow> fail_render R C pd ''SecretNotAllowed'' (MOwnership x) (RequeueAfter requeueAfter)
       | Inr _ \<Rightarrow>
           bindS (tryS (render R C spec (pd_Namespace pd) cluster cfg)) (\<lambda>r.
             case r of
               Inl e \<Rightarrow> fail_render R C pd ''RenderFailed'' (MRender e) (RequeueAfter requeueAfter)
             | Inr rendered \<Rightarrow> reconcile_publish R C pd cluster cfg rendered)) l1 = (r, L)"
    unfolding reconcile_render_def
    by (rule quiet_bindE [OF _ _ e]) (auto intro: framed_tryS still_validateSecretOwnership [THEN still_quiet])
  from rest1 e 1(2) obtain u where v: "v = Inr u"
    by (cases v) (auto dest: quiet_runE [OF _ still_fail_render [THEN still_quiet]])
  with 1(1) have labelled: "\<forall>n \<in> set (CollectSecretNames spec). seen_labelled l1 (pd_Namespace pd) (cl_Name cluster) n"
    using check_owners_ok by (cases u) (fastforce simp: validateSecretOwnership_def prod_eq_iff)
  from rest1 v obtain w l2 where
    2: "tryS (render R C spec (pd_Namespace pd) cluster cfg) l1 = (Inr w, l2)" "set l1 \<subseteq> set l2" "e \<notin> set l2"
    and rest2: "(case w of
               Inl e \<Rightarrow> fail_render R C pd ''RenderFailed'' (MRender e) (RequeueAfter requeueAfter)
             | Inr rendered \<Rightarrow> reconcile_publish R C pd cluster cfg rendered) l2 = (r, L)"
    by (auto elim!: quiet_bindE [OF _ framed_tryS [OF still_render [THEN still_quiet]] e(1,2) 1(2)])
  from rest2 e 2(3) obtain rendered where w: "w = Inr rendered"
    by (cases w) (auto dest: quiet_runE [OF _ still_fail_render [THEN still_quiet]])
  with 2(1) have good: "\<exists>c. ce_unmarshal R (fst rendered) = Inr c \<and> config_ok c"
    by (intro render_ok [of R C spec "pd_Namespace pd" cluster cfg l1 _ "snd rendered" l2]) (simp add: prod_eq_iff)
  from reconcile_publish_write [OF _ e(1,2) 2(3)] rest2 w
  have pub: "d = fst rendered" "set l2 \<subseteq> set L"
    "writes_to L e (cl_Namespace cluster, RenderedSecretName (cl_Name cluster))" by fastforce+
  with labelled good spec 2(2) show ?thesis
    unfolding write_allowed_def by (blast intro: seen_labelled_mono)
qed

lemma reconcile_cluster_write:
  assumes "reconcile_cluster R C pd cluster l = (r, L)"
    and e: "e \<in> set L" "config_write e d" "e \<notin> set l"
  shows "write_allowed R L pd cluster e d \<and> accepted_config (ce_config R) (NewFromCluster (ce_config R) cluster) \<and>
    pc_ConfigName (NewFromCluster (ce_config R) cluster) = pd_Name pd"
proof -
  let ?cfg = "NewFromCluster (ce_config R) cluster"
  have on: "pc_Enabled ?cfg" "pc_ConfigName ?cfg = pd_Name pd"
    using assms by (auto simp: reconcile_cluster_def Let_def split: if_splits)
  have v: "Validate (ce_config R) ?cfg = Inr ()"
    using assms on quiet_runE [OF _ still_fail_render [THEN still_quiet] e]
    by (cases "Validate (ce_config R) ?cfg") (auto simp: reconcile_cluster_def Let_def)
  obtain spec user where spec: "DefaultAuthSecretRefs (pd_Spec pd) = Inr (spec, user)"
    using assms(1) on v quiet_runE [OF _ still_fail_render [THEN still_quiet] e]
    by (cases "DefaultAuthSecretRefs (pd_Spec pd)") (fastforce simp: reconcile_cluster_def Let_def)+
  have "\<exists>l1. reconcile_render R C pd cluster ?cfg spec l1 = (r, L) \<and> e \<notin> set l1"
  proof (cases "user = []")
    case True
    with assms on v spec show ?thesis by (auto simp: reconcile_cluster_def Let_def)
  next
    case False
    from assms(1) on v spec False
    have "bindS (tryS (ensureGeneratedAuthSecret R C cluster user)) (\<lambda>g.
        case g of
          Inl e \<Rightarrow> fail_render R C pd ''AuthSecretFailed'' (MAuthSecret e) (RequeueAfter requeueAfter)
        | Inr _ \<Rightarrow> reconcile_render R C pd cluster ?cfg spec) l = (r, L)"
      by (simp add: reconcile_cluster_def Let_def)
    then obtain g :: "auth_secret_error + unit" and l1 where "e \<notin> set l1" and "(case g of
          Inl e \<Rightarrow> fail_render R C pd ''AuthSecretFailed'' (MAuthSecret e) (RequeueAfter requeueAfter)
        | Inr _ \<Rightarrow> reconcile_render R C pd cluster ?cfg spec) l1 = (r, L)"
      by (rule quiet_bindE [OF _ framed_tryS [OF still_ensureGeneratedAuthSecret [THEN still_quiet]] e])
    then show ?thesis
      using e(1,2) by (cases g) (auto dest: quiet_runE [OF _ still_fail_render [THEN still_quiet]])
  qed
  with on v spec reconcile_render_write [OF _ e(1,2) _ spec] show ?thesis
    by (auto simp: Validate_accepts)
qed

text \<open>The object that is rendered: the one the run read, or the server's answer to the finalizer
  patch.\<close>

definition seen_pgdoorman :: "log \<Rightarrow> key \<Rightarrow> PgDoorman \<Rightarrow> bool" where
  "seen_pgdoorman l req pd \<longleftrightarrow>
     GetPgDoorman req (Inr pd) \<in> set l \<or>
     (\<exists>pd0 pd1. GetPgDoorman req (Inr pd0) \<in> set l \<and> PatchPgDoorman pd0 pd1 (Inr pd) \<in> set l)"

definition no_patch :: "event \<Rightarrow> bool" where
  "no_patch e \<longleftrightarrow> (\<forall>p q a. e \<noteq> PatchPgDoorman p q a)"

lemma still_no_patch: "framed (adds inert) m \<Longrightarrow> framed (adds no_patch) m"
  unfolding framed_def inert_def no_patch_def by (blast intro: adds_mono)

lemma upsertSecret_no_patch: "framed (adds no_patch) (upsertSecret R C cluster data admin up)"
  using upsertSecret_writes [of data R C cluster admin up]
  unfolding framed_def no_patch_def by (blast intro: adds_mono)

lemmas no_patch_calls = still_calls [THEN still_no_patch] upsertSecret_no_patch

lemma reconcile_cluster_no_patch: "framed (adds no_patch) (reconcile_cluster R C pd cluster)"
proof -
  have pub: "framed (adds no_patch) (reconcile_publish R C pd cluster cfg rendered)" for cfg rendered
    unfolding reconcile_publish_def by (intro framed_adds_intros no_patch_calls)
  have ren: "framed (adds no_patch) (reconcile_render R C pd cluster cfg spec)" for cfg spec
    unfolding reconcile_render_def
    by (intro framed_adds_intros no_patch_calls)
       (auto split: sum.split intro!: framed_adds_intros pub no_patch_calls)
  show ?thesis
    unfolding reconcile_cluster_def Let_def
    by (auto split: sum.split intro!: framed_adds_intros ren no_patch_calls)
qed

lemma reconcile_cluster_grows: "reconcile_cluster R C pd cluster l = (r, L) \<Longrightarrow> set l \<subseteq> set L"
  using framed_any [OF reconcile_cluster_no_patch] .

lemma ensureFinalizer_seen:
  "ensureFinalizer R C pd0 inUse l = (Inr pd, l') \<Longrightarrow> GetPgDoorman req (Inr pd0) \<in> set l \<Longrightarrow>
   seen_pgdoorman l' req pd"
  unfolding seen_pgdoorman_def
  by (cases "inUse = ce_ContainsFinalizer R (pd_Finalizers pd0) Finalizer"; cases inUse)
     (fastforce simp: ensureFinalizer_def Let_def patch_pgdoorman_def)+

lemma reconcile_found_write:
  assumes "reconcile_found R C pd c l = (r, L)" and e: "e \<in> set L" "config_write e d" "e \<notin> set l"
  obtains cluster where "c = Inr cluster"
    "bindS (mapErrS EApi (ensureFinalizer R C pd
      (pc_ConfigName (NewFromCluster (ce_config R) cluster) = pd_Name pd)))
      (\<lambda>pd'. reconcile_cluster R C pd' cluster) l = (r, L)"
proof (cases c)
  case (Inr cluster)
  have "reconcileDeletion R C pd inUse l \<noteq> (r, L)" for inUse
    using quiet_runE [OF _ quiet_reconcileDeletion e] by blast
  with assms(1) Inr that show thesis
    by (auto simp: reconcile_found_def Let_def split: if_splits)
next
  case (Inl err)
  have "framed (adds no_config) (bindS (mapErrS EApi (ensureFinalizer R C pd False)) (\<lambda>_. retS (RequeueAfter requeueAfter)))"
    by (intro framed_adds_intros quiet_ensureFinalizer)
  from quiet_runE [OF _ this e] quiet_runE [OF _ quiet_reconcileDeletion [of R C pd False] e] assms(1)
  have False
    using e(1,3) unfolding Inl reconcile_found_def Let_def
    by (simp split: if_splits)
  then show thesis ..
qed

text \<open>(C1) No confused deputy, and only valid configurations. Whatever the API server answers, a reconcile
  that writes a configuration \<open>d\<close> into a Secret has, before the end of that same run, read the
  \<open>PgDoorman\<close> and the \<open>Cluster\<close> it names, found the plugin enabled for it with accepted parameters, and
  read every Secret the (normalized) spec refers to with the cluster's own label on it; the write goes to
  the cluster's rendered Secret and \<open>d\<close> decodes to a well-formed configuration.\<close>

theorem Reconcile_write_allowed:
  assumes "Reconcile R C req [] = (r, L)" and "e \<in> set L" and "config_write e d"
  shows "\<exists>pd0 pd cluster. GetPgDoorman req (Inr pd0) \<in> set L \<and> seen_pgdoorman L req pd \<and>
    GetCluster (pd_Namespace pd0, ds_ClusterRef (pd_Spec pd0)) (Inr cluster) \<in> set L \<and>
    accepted_config (ce_config R) (NewFromCluster (ce_config R) cluster) \<and>
    pc_ConfigName (NewFromCluster (ce_config R) cluster) = pd_Name pd \<and>
    write_allowed R L pd cluster e d"
proof -
  note e = assms(2,3)
  obtain pd0 c l2 where found: "reconcile_found R C pd0 c l2 = (r, L)"
    and l2: "l2 = [GetPgDoorman req (Inr pd0), GetCluster (pd_Namespace pd0, ds_ClusterRef (pd_Spec pd0)) c]"
    using assms
    by (auto simp: Reconcile_def bindS_def get_pgdoorman_def get_cluster_def Let_def config_write_def
        split: sum.splits if_splits)
  have new: "e \<notin> set l2" using e(2) by (auto simp: config_write_def l2)
  obtain cluster where c: "c = Inr cluster"
    and found2: "bindS (mapErrS EApi (ensureFinalizer R C pd0
      (pc_ConfigName (NewFromCluster (ce_config R) cluster) = pd_Name pd0)))
      (\<lambda>pd'. reconcile_cluster R C pd' cluster) l2 = (r, L)"
    by (rule reconcile_found_write [OF found e new])
  obtain pd l3 where fin: "ensureFinalizer R C pd0
      (pc_ConfigName (NewFromCluster (ce_config R) cluster) = pd_Name pd0) l2 = (Inr pd, l3)"
    and rest: "reconcile_cluster R C pd cluster l3 = (r, L)" and l3: "set l2 \<subseteq> set l3" "e \<notin> set l3"
    by (rule quiet_bindE [OF found2 framed_mapErrS [OF quiet_ensureFinalizer] e new])
       (unfold mapErrS_iff, rule that)
  from reconcile_cluster_grows [OF rest] have l3L: "set l3 \<subseteq> set L" .
  have "seen_pgdoorman L req pd"
    using ensureFinalizer_seen [OF fin, of req] l3L by (auto simp: l2 seen_pgdoorman_def)
  moreover have "GetCluster (pd_Namespace pd0, ds_ClusterRef (pd_Spec pd0)) (Inr cluster) \<in> set L"
    "GetPgDoorman req (Inr pd0) \<in> set L"
    using l2 l3 l3L c by auto
  ultimately show ?thesis
    using reconcile_cluster_write [OF rest e l3(2)] by blast
qed

section \<open>A concrete controller\<close>

text \<open>A small environment, cluster and object on which runs are evaluated; the condition and finalizer
  helpers are list functions with the documented behaviour of the third-party ones.\<close>

definition find_condition :: "Condition list \<Rightarrow> string \<Rightarrow> nat option" where
  "find_condition cs t = map_option fst (find (\<lambda>e. co_Type (snd e) = t) (enumerate 0 cs))"

definition set_condition :: "Condition list \<Rightarrow> Condition \<Rightarrow> Condition list \<times> bool" where
  "set_condition cs c =
     (case find_condition cs (co_Type c) of
        None \<Rightarrow> (cs @ [c], True)
      | Some i \<Rightarrow> (cs[i := c], cs ! i \<noteq> c))"

definition alice_config :: DoormanConfig where
  "alice_config = the (build_config (static_spec [(''app'', static_pool [static_user ''alice'' ''s1''])])
     6432 9127 [PasswordKey ''app'' ''user'' ''alice'' \<mapsto> ''one''] None)"

definition example_env :: "nat ctl_env" where
  "example_env =
     \<lparr>ce_config = \<lparr>SIDECAR_IMAGE = ''image'', ParseQuantity = (\<lambda>s. Some 1), QuantityCmp = (\<lambda>a b. int a - int b),
        port_rank = (\<lambda>_. 0)\<rparr>,
      ce_marshal = (\<lambda>_. Inr ''yaml''), ce_unmarshal = (\<lambda>_. Inr alice_config), ce_rank = (\<lambda>_. 0),
      ce_json = (\<lambda>_. Inr ''json''), ce_Binary = None, ce_Recorder = True,
      ce_ContainsFinalizer = (\<lambda>fs f. f \<in> set fs), ce_AddFinalizer = (\<lambda>fs f. fs @ [f]),
      ce_RemoveFinalizer = (\<lambda>fs f. removeAll f fs),
      ce_FindStatusCondition = find_condition, ce_SetStatusCondition = set_condition,
      ce_SetControllerReference = (\<lambda>c owner. Inr (Some (cl_Name c))), ce_text = (\<lambda>_. [])\<rparr>"

definition example_pd :: "string list \<Rightarrow> bool \<Rightarrow> Condition list \<Rightarrow> PgDoorman" where
  "example_pd finalizers deleting conditions =
     \<lparr>pd_Namespace = ''ns'', pd_Name = ''doorman'', pd_Generation = 1, pd_Deleting = deleting,
      pd_Finalizers = finalizers,
      pd_Spec = static_spec [(''app'', static_pool [static_user ''alice'' ''s1''])],
      pd_Conditions = conditions, pd_ObservedGeneration = 0\<rparr>"

definition example_cluster :: "string \<Rightarrow> Cluster" where
  "example_cluster configName =
     \<lparr>cl_Namespace = ''ns'', cl_Name = ''pg'',
      cl_Plugins = [\<lparr>pg_Name = PluginName, pg_Enabled = None, pg_Parameters = [''configName'' \<mapsto> configName]\<rparr>],
      cl_ServerTLSSecret = None, cl_CurrentPrimary = []\<rparr>"

definition example_client :: "PgDoorman \<Rightarrow> string \<Rightarrow> client" where
  "example_client pd configName = fixed_client
     [(''ns'', ''s1'') \<mapsto> plain_secret ''ns'' ''s1'' ''one''] [(''ns'', ''doorman'') \<mapsto> pd]
     [(''ns'', ''pg'') \<mapsto> example_cluster configName] Map.empty"

lemma example_run_writes:
  "list_ex (\<lambda>e. config_write e ''yaml'')
     (snd (Reconcile example_env (example_client (example_pd [] False []) ''doorman'') (''ns'', ''doorman'') []))"
  by code_simp

theorem Reconcile_write_allowed_witness:
  "\<exists>r L e. Reconcile example_env (example_client (example_pd [] False []) ''doorman'') (''ns'', ''doorman'') [] = (r, L) \<and>
     e \<in> set L \<and> config_write e ''yaml'' \<and>
     (\<exists>pd0 pd cluster. GetPgDoorman (''ns'', ''doorman'') (Inr pd0) \<in> set L \<and>
        seen_pgdoorman L (''ns'', ''doorman'') pd \<and> write_allowed example_env L pd cluster e ''yaml'')"
proof -
  obtain r L where run: "Reconcile example_env (example_client (example_pd [] False []) ''doorman'')
      (''ns'', ''doorman'') [] = (r, L)" by (rule prod.exhaust)
  with example_run_writes obtain e where e: "e \<in> set L" "config_write e ''yaml''"
    by (auto simp: list_ex_iff)
  from Reconcile_write_allowed [OF run e] run e show ?thesis by blast
qed

section \<open>The rendered Secret is stable\<close>

lemma upsertSecret_written:
  assumes "upsertSecret R C cluster data admin up l = (r, l')"
    and "CreateSecret s None \<in> set l' \<or> PatchSecret old s None \<in> set l'"
    and "CreateSecret s None \<notin> set l" "PatchSecret old s None \<notin> set l"
  shows "\<exists>bin. binarySpecJSON R up = Inr bin \<and>
    se_Data s = [ConfigKey \<mapsto> data, generatedAdminPasswordKey \<mapsto> admin](BinarySpecKey := bin) \<and>
    se_Labels s ClusterLabel = Some (cl_Name cluster)"
  using assms
  by (auto simp: upsertSecret_def Let_def bindS_def get_secret_def create_secret_def patch_secret_def
      desired_secret_def split: sum.splits if_splits)

lemma upsertSecret_unchanged:
  assumes "binarySpecJSON R up = Inr bin"
    and "on_get_secret C l (cl_Namespace cluster, RenderedSecretName (cl_Name cluster)) = Inr s"
    and "se_Data s = [ConfigKey \<mapsto> data, generatedAdminPasswordKey \<mapsto> admin](BinarySpecKey := bin)"
  shows "upsertSecret R C cluster data admin up l =
    (Inr (), l @ [GetSecret (cl_Namespace cluster, RenderedSecretName (cl_Name cluster)) (Inr s)])"
  using assms
  by (auto simp: upsertSecret_def Let_def bindS_def get_secret_def desired_secret_def lookup_str_def
      ctl_constants split: option.splits)

lemma adminPasswordFallback_keeps:
  assumes "on_get_secret C l (cl_Namespace cluster, RenderedSecretName (cl_Name cluster)) = Inr s"
    and "se_Data s generatedAdminPasswordKey = Some admin" "admin \<noteq> []"
  shows "adminPasswordFallback C cluster l =
    (Inr admin, l @ [GetSecret (cl_Namespace cluster, RenderedSecretName (cl_Name cluster)) (Inr s)])"
  using assms by (simp add: adminPasswordFallback_def bindS_def get_secret_def Let_def)

text \<open>Rendering converges. When a reconcile stored the rendered Secret \<open>s\<close>, by creating or patching
  it, and the API server later returns \<open>s\<close>, then the next reconcile picks the same generated admin
  password without drawing a new one, and storing the same configuration again writes nothing; \<open>s\<close>
  holds exactly the configuration, the admin password and, if opted in, the binary spec.\<close>

theorem rendered_secret_stable:
  assumes "upsertSecret R C cluster data admin up [] = (r, l')"
    and "CreateSecret s None \<in> set l' \<or> PatchSecret old s None \<in> set l'"
    and "on_get_secret C' l (cl_Namespace cluster, RenderedSecretName (cl_Name cluster)) = Inr s"
    and "admin \<noteq> []"
  shows "upsertSecret R C' cluster data admin up l =
      (Inr (), l @ [GetSecret (cl_Namespace cluster, RenderedSecretName (cl_Name cluster)) (Inr s)]) \<and>
    adminPasswordFallback C' cluster l =
      (Inr admin, l @ [GetSecret (cl_Namespace cluster, RenderedSecretName (cl_Name cluster)) (Inr s)]) \<and>
    (\<exists>bin. binarySpecJSON R up = Inr bin \<and>
      se_Data s = [ConfigKey \<mapsto> data, generatedAdminPasswordKey \<mapsto> admin](BinarySpecKey := bin))"
proof -
  obtain bin where bin: "binarySpecJSON R up = Inr bin"
    "se_Data s = [ConfigKey \<mapsto> data, generatedAdminPasswordKey \<mapsto> admin](BinarySpecKey := bin)"
    using upsertSecret_written [OF assms(1,2)] by auto
  then have "se_Data s generatedAdminPasswordKey = Some admin" by (simp add: ctl_constants)
  from adminPasswordFallback_keeps [OF assms(3) this assms(4)] upsertSecret_unchanged [OF bin(1) assms(3) bin(2)]
    bin show ?thesis by blast
qed

definition stored_secret :: Secret where
  "stored_secret = (desired_secret (example_cluster ''doorman'') ''yaml'' ''admin'' None)\<lparr>se_Owner := Some ''pg''\<rparr>"

definition stored_client :: client where
  "stored_client = fixed_client [(''ns'', ''pg-doorman-config'') \<mapsto> stored_secret] Map.empty Map.empty Map.empty"

theorem rendered_secret_stable_witness:
  "\<exists>l'. upsertSecret example_env (example_client (example_pd [] False []) ''doorman'') (example_cluster ''doorman'')
       ''yaml'' ''admin'' True [] = (Inr (), l') \<and> CreateSecret stored_secret None \<in> set l' \<and>
     upsertSecret example_env stored_client (example_cluster ''doorman'') ''yaml'' ''admin'' True [] =
       (Inr (), [GetSecret (''ns'', ''pg-doorman-config'') (Inr stored_secret)])"
proof -
  have run: "upsertSecret example_env (example_client (example_pd [] False []) ''doorman'')
      (example_cluster ''doorman'') ''yaml'' ''admin'' True [] =
      (Inr (), [GetSecret (''ns'', ''pg-doorman-config'') (Inl NotFound), CreateSecret stored_secret None])"
    by (simp add: upsertSecret_def bindS_def get_secret_def create_secret_def binarySpecJSON_def Let_def
        example_env_def example_client_def fixed_client_def example_cluster_def desired_secret_def
        RenderedSecretName_def stored_secret_def)
  have "on_get_secret stored_client []
      (cl_Namespace (example_cluster ''doorman''), RenderedSecretName (cl_Name (example_cluster ''doorman''))) =
      Inr stored_secret"
    by (simp add: stored_client_def fixed_client_def example_cluster_def RenderedSecretName_def)
  from rendered_secret_stable [OF run _ this] run show ?thesis
    by (simp add: example_cluster_def RenderedSecretName_def)
qed

section \<open>The finalizer\<close>

lemma ensureFinalizer_removes:
  assumes "ensureFinalizer R C pd inUse l = (r, L)" and "PatchPgDoorman p q a \<in> set L"
    and "PatchPgDoorman p q a \<notin> set l" and "ce_ContainsFinalizer R (pd_Finalizers p) Finalizer"
  shows "p = pd \<and> \<not> inUse"
  using assms by (auto simp: ensureFinalizer_def Let_def patch_pgdoorman_def split: if_splits)

lemma reconcileDeletion_removes:
  assumes "reconcileDeletion R C pd inUse l = (r, L)" and "PatchPgDoorman p q a \<in> set L"
    and "PatchPgDoorman p q a \<notin> set l"
  shows "p = pd \<and> \<not> inUse"
  using assms
  by (auto simp: reconcileDeletion_def bindS_def patch_pgdoorman_def eventf_def record_event_def Let_def
      split: if_splits sum.splits)

lemma reconcile_found_grows: "framed (adds (\<lambda>_. True)) (reconcile_found R C pd c)"
proof -
  have "framed (adds (\<lambda>_. True)) m" if "framed (adds P) m" for P and m :: "(log, 'x, 'y) st"
    using that unfolding framed_def by (blast intro: adds_mono)
  note grows = this
  show ?thesis
    unfolding reconcile_found_def Let_def
    by (auto split: sum.split intro!: framed_adds_intros grows [OF quiet_reconcileDeletion]
        grows [OF quiet_ensureFinalizer] grows [OF reconcile_cluster_no_patch])
qed

lemma reconcile_found_removes:
  assumes "reconcile_found R C pd c l = (r, L)" and p: "PatchPgDoorman p q a \<in> set L"
    and "PatchPgDoorman p q a \<notin> set l" and "ce_ContainsFinalizer R (pd_Finalizers p) Finalizer"
  shows "p = pd \<and> (c = Inl NotFound \<or>
    (\<exists>cluster. c = Inr cluster \<and> pc_ConfigName (NewFromCluster (ce_config R) cluster) \<noteq> pd_Name pd))"
proof -
  let ?use = "case c of Inl _ \<Rightarrow> False
    | Inr cluster \<Rightarrow> pc_ConfigName (NewFromCluster (ce_config R) cluster) = pd_Name pd"
  have c: "c = Inl NotFound \<or> (\<exists>cluster. c = Inr cluster)"
    using assms(1-3) by (cases c) (auto simp: reconcile_found_def split: if_splits)
  have "p = pd \<and> \<not> ?use"
  proof (cases "pd_Deleting pd")
    case True
    with assms(1) c have "reconcileDeletion R C pd ?use l = (r, L)"
      by (auto simp: reconcile_found_def)
    from reconcileDeletion_removes [OF this assms(2,3)] show ?thesis .
  next
    case False
    obtain x l1 where fin: "ensureFinalizer R C pd ?use l = (x, l1)" by (rule prod.exhaust)
    have tail: "framed (adds no_patch) (case c of Inl _ \<Rightarrow> retS (RequeueAfter requeueAfter)
        | Inr cluster \<Rightarrow> reconcile_cluster R C pd' cluster)" for pd'
      by (auto split: sum.split intro: framed_adds_intros reconcile_cluster_no_patch)
    have "PatchPgDoorman p q a \<in> set l1"
    proof (cases x)
      case (Inl e)
      with fin assms(1,2) c False show ?thesis
        by (auto simp: reconcile_found_def Let_def bindS_def)
    next
      case (Inr pd')
      with fin assms(1) c False have "(case c of Inl _ \<Rightarrow> retS (RequeueAfter requeueAfter)
          | Inr cluster \<Rightarrow> reconcile_cluster R C pd' cluster) l1 = (r, L)"
        by (auto simp: reconcile_found_def Let_def bindS_def)
      with tail [of pd'] have "adds no_patch l1 L" by (auto simp: framed_def dest: spec [of _ l1])
      from adds_new [OF this assms(2)] show ?thesis by (simp add: no_patch_def)
    qed
    from ensureFinalizer_removes [OF fin this assms(3,4)] show ?thesis .
  qed
  with c show ?thesis by auto
qed

text \<open>(C24) A \<open>PgDoorman\<close> in use is not released. In any reconcile, a patch of an object that carries the
  in-use finalizer (the only write that can remove it) is made only when the same run was told that the
  referenced cluster does not exist, or read that cluster and it names another configuration.\<close>

theorem finalizer_held_while_in_use:
  assumes "Reconcile R C req [] = (r, L)" and "PatchPgDoorman p q a \<in> set L"
    and "ce_ContainsFinalizer R (pd_Finalizers p) Finalizer"
  shows "\<exists>c. GetCluster (pd_Namespace p, ds_ClusterRef (pd_Spec p)) c \<in> set L \<and>
    (c = Inl NotFound \<or>
     (\<exists>cluster. c = Inr cluster \<and> pc_ConfigName (NewFromCluster (ce_config R) cluster) \<noteq> pd_Name p))"
proof -
  obtain pd c l2 where found: "reconcile_found R C pd c l2 = (r, L)"
    and l2: "l2 = [GetPgDoorman req (Inr pd), GetCluster (pd_Namespace pd, ds_ClusterRef (pd_Spec pd)) c]"
    using assms(1,2)
    by (auto simp: Reconcile_def bindS_def get_pgdoorman_def get_cluster_def Let_def
        split: sum.splits if_splits)
  have grow: "set l2 \<subseteq> set L"
    using framed_any [OF reconcile_found_grows found] .
  from reconcile_found_removes [OF found assms(2) _ assms(3)] l2 grow show ?thesis
    by auto
qed

theorem finalizer_held_while_in_use_witness:
  "\<exists>r L p q a. Reconcile example_env (example_client (example_pd [Finalizer] True []) ''other'') (''ns'', ''doorman'') [] =
       (r, L) \<and> PatchPgDoorman p q a \<in> set L \<and> ce_ContainsFinalizer example_env (pd_Finalizers p) Finalizer \<and>
     (\<exists>c. GetCluster (pd_Namespace p, ds_ClusterRef (pd_Spec p)) c \<in> set L \<and>
       (c = Inl NotFound \<or>
        (\<exists>cluster. c = Inr cluster \<and> pc_ConfigName (NewFromCluster (ce_config example_env) cluster) \<noteq> pd_Name p)))"
proof -
  obtain r L where run: "Reconcile example_env (example_client (example_pd [Finalizer] True []) ''other'')
      (''ns'', ''doorman'') [] = (r, L)" by (rule prod.exhaust)
  have "list_ex (\<lambda>e. case e of PatchPgDoorman p q a \<Rightarrow> ce_ContainsFinalizer example_env (pd_Finalizers p) Finalizer
      | _ \<Rightarrow> False) (snd (Reconcile example_env (example_client (example_pd [Finalizer] True []) ''other'')
      (''ns'', ''doorman'') []))"
    by code_simp
  with run obtain x where "x \<in> set L" "case x of PatchPgDoorman p q a \<Rightarrow>
      ce_ContainsFinalizer example_env (pd_Finalizers p) Finalizer | _ \<Rightarrow> False"
    by (auto simp: list_ex_iff)
  then obtain p q a where e: "PatchPgDoorman p q a \<in> set L"
    "ce_ContainsFinalizer example_env (pd_Finalizers p) Finalizer"
    by (cases x rule: event.exhaust) auto
  from finalizer_held_while_in_use [OF run e] run e show ?thesis by blast
qed

section \<open>Events that wake the controller\<close>

text \<open>(C25) Password rotation is picked up. Every Secret that rendering a \<open>PgDoorman\<close> reads a password from
  is watched for it: when the list of objects contains it, \<open>mapSecret\<close> answers an event of that Secret
  with a request for it, and every request it answers with is for an object that refers to the Secret.\<close>

theorem mapSecret_complete:
  assumes "DefaultAuthSecretRefs (pd_Spec pd) = Inr (spec, user)"
    and "GetSecret (pd_Namespace pd, name) a \<in> set (snd (ResolvePasswords C (pd_Namespace pd) spec []))"
    and "on_list_pgdoormen C' l (pd_Namespace pd) = Inr items" and "pd \<in> set items"
  shows "\<exists>reqs l'. mapSecret C' (pd_Namespace pd, name) l = (Inr reqs, l') \<and>
    (pd_Namespace pd, pd_Name pd) \<in> set reqs \<and>
    (\<forall>k \<in> set reqs. \<exists>pd' \<in> set items. k = (pd_Namespace pd', pd_Name pd') \<and>
       name \<in> set (CollectSecretNames (watched_spec pd')))"
proof -
  have "adds (reads_of (pd_Namespace pd) (set (CollectSecretNames spec))) []
      (snd (ResolvePasswords C (pd_Namespace pd) spec []))"
    using ResolvePasswords_reads by (simp add: framed_def)
  from adds_new [OF this assms(2)] have "name \<in> set (CollectSecretNames spec)"
    by (auto simp: reads_of_def)
  with assms(1) have "name \<in> set (CollectSecretNames (watched_spec pd))"
    by (simp add: watched_spec_def)
  with assms(3,4) show ?thesis
    by (auto simp: mapSecret_def bindS_def list_pgdoormen_def Let_def)
qed

definition list_client :: client where
  "list_client = two_secrets\<lparr>on_list_pgdoormen := \<lambda>l ns. Inr [example_pd [] False []]\<rparr>"

theorem mapSecret_complete_witness:
  "\<exists>reqs l'. mapSecret list_client (''ns'', ''s1'') [] = (Inr reqs, l') \<and> (''ns'', ''doorman'') \<in> set reqs"
proof -
  let ?pd = "example_pd [] False []"
  have ns: "pd_Namespace ?pd = ''ns''" "pd_Name ?pd = ''doorman''" by (simp_all add: example_pd_def)
  have d: "DefaultAuthSecretRefs (pd_Spec ?pd) = Inr (pd_Spec ?pd, [])"
    by (simp add: example_pd_def) code_simp
  have r: "GetSecret (pd_Namespace ?pd, ''s1'') (Inr (plain_secret ''ns'' ''s1'' ''one''))
      \<in> set (snd (ResolvePasswords two_secrets (pd_Namespace ?pd) (pd_Spec ?pd) []))"
    by (simp add: example_pd_def resolve_eval del: foldS.simps(2))
  have l: "on_list_pgdoormen list_client [] (pd_Namespace ?pd) = Inr [?pd]"
    by (simp add: list_client_def)
  from mapSecret_complete [OF d r l] show ?thesis by (auto simp: ns)
qed

section \<open>The recovery event\<close>

text \<open>The documented behaviour of \<open>meta.FindStatusCondition\<close>, a pointer to the element with the type, and of
  \<open>meta.SetStatusCondition\<close>, which updates that element in place or appends a new one.\<close>

definition condition_laws ::
  "(Condition list \<Rightarrow> string \<Rightarrow> nat option) \<Rightarrow> (Condition list \<Rightarrow> Condition \<Rightarrow> Condition list \<times> bool) \<Rightarrow> bool" where
  "condition_laws findc setc \<longleftrightarrow>
     (\<forall>cs c. case findc cs (co_Type c) of
        None \<Rightarrow> (\<forall>d \<in> set cs. co_Type d \<noteq> co_Type c) \<and> fst (setc cs c) = cs @ [c]
      | Some i \<Rightarrow> i < length cs \<and> co_Type (cs ! i) = co_Type c \<and> fst (setc cs c) = cs[i := c])"

lemma find_enumerate:
  "find (\<lambda>e. P (snd e)) (enumerate n cs) = Some (i, c) \<Longrightarrow> n \<le> i \<and> i < n + length cs \<and> cs ! (i - n) = c \<and> P c"
  by (induction cs arbitrary: n) (force split: if_splits simp: nth_Cons')+

lemma condition_laws_example: "condition_laws find_condition set_condition"
proof -
  have "case find_condition cs (co_Type c) of
        None \<Rightarrow> (\<forall>d \<in> set cs. co_Type d \<noteq> co_Type c) \<and> fst (set_condition cs c) = cs @ [c]
      | Some i \<Rightarrow> i < length cs \<and> co_Type (cs ! i) = co_Type c \<and> fst (set_condition cs c) = cs[i := c]" for cs c
  proof (cases "find (\<lambda>e. co_Type (snd e) = co_Type c) (enumerate 0 cs)")
    case None
    have "co_Type d \<noteq> co_Type c" if "d \<in> set cs" for d
    proof -
      from that obtain i where "i < length cs" "cs ! i = d" by (auto simp: in_set_conv_nth)
      then have "(i, d) \<in> set (enumerate 0 cs)" by (simp add: in_set_enumerate_eq)
      with None show ?thesis by (auto simp: find_None_iff)
    qed
    with None show ?thesis by (auto simp: find_condition_def set_condition_def)
  next
    case (Some e)
    with find_enumerate [of "\<lambda>d. co_Type d = co_Type c" 0 cs "fst e" "snd e"] show ?thesis
      by (simp add: find_condition_def set_condition_def)
  qed
  then show ?thesis unfolding condition_laws_def by blast
qed

text \<open>(C40) The recovery event is never sent. With the documented condition helpers, \<open>setRendered\<close> records
  no Normal event at all, also when the previous condition was False and the new one is True: \<open>prev\<close>
  points into the slice that \<open>SetStatusCondition\<close> has already updated when it is read.\<close>

theorem no_recovery_event:
  assumes "condition_laws (ce_FindStatusCondition R) (ce_SetStatusCondition R)"
  shows "snd (setRendered R C pd ok reason msg l) = l \<or>
    (\<exists>pd' a. snd (setRendered R C pd ok reason msg l) = l @ [UpdateStatus pd' a])"
proof -
  let ?c = "\<lparr>co_Type = ''Rendered'', co_Status = ok, co_Reason = reason, co_Message = ce_text R msg,
             co_ObservedGeneration = pd_Generation pd\<rparr>"
  let ?prev = "ce_FindStatusCondition R (pd_Conditions pd) ''Rendered''"
  obtain conds ch where set: "ce_SetStatusCondition R (pd_Conditions pd) ?c = (conds, ch)"
    by (rule prod.exhaust)
  have "\<not> (ok \<and> (case ?prev of None \<Rightarrow> False | Some i \<Rightarrow> i < length conds \<and> \<not> co_Status (conds ! i)))"
    using assms [unfolded condition_laws_def, rule_format, of "pd_Conditions pd" ?c] set
    by (auto split: option.splits)
  with set show ?thesis
    by (auto simp: setRendered_def Let_def update_status_def)
qed

definition failed_condition :: Condition where
  "failed_condition = \<lparr>co_Type = ''Rendered'', co_Status = False, co_Reason = ''RenderFailed'', co_Message = [],
     co_ObservedGeneration = 1\<rparr>"

theorem no_recovery_event_witness:
  "condition_laws (ce_FindStatusCondition example_env) (ce_SetStatusCondition example_env) \<and>
   ce_Recorder example_env \<and>
   (\<exists>pd' a. snd (setRendered example_env two_secrets (example_pd [] False [failed_condition]) True ''Rendered''
      (MRendered 1 []) []) = [UpdateStatus pd' a])"
proof -
  have laws: "condition_laws (ce_FindStatusCondition example_env) (ce_SetStatusCondition example_env)"
    using condition_laws_example by (simp add: example_env_def)
  have "snd (setRendered example_env two_secrets (example_pd [] False [failed_condition]) True ''Rendered''
      (MRendered 1 []) []) \<noteq> []"
    by (simp add: setRendered_def Let_def example_env_def example_pd_def find_condition_def set_condition_def
        failed_condition_def update_status_def bindS_def record_event_def)
  with laws no_recovery_event [OF laws, of two_secrets "example_pd [] False [failed_condition]" True "''Rendered''"
      "MRendered 1 []" "[]"] show ?thesis
    by (simp add: example_env_def)
qed

end
