(* ===== verification/Lifecycle.thy ===== *)
theory Lifecycle
  imports Specs
begin

text \<open>
  The pod mutation of \<open>internal/lifecycle\<close> (\<open>reconcile_pod.go\<close>, \<open>lifecycle.go\<close>) and the hook metrics of
  \<open>internal/metrics/metrics.go\<close>. \<open>injectSidecar\<close> adds the volumes and the native sidecar to a pod spec;
  CNPG applies it again whenever it evaluates a pod, so it has to be idempotent.

  The parts of a pod that the code never looks at are opaque (\<open>OtherVolume\<close>, \<open>ct_Rest\<close>, \<open>ps_Rest\<close>).
  Decoding requests and computing the JSON patch are third-party code and are parameters (\<open>hook_env\<close>).
\<close>

section \<open>Pods\<close>

datatype VolumeSource =
    EmptyDirMemory
  | SecretVolume string
  | DownwardAPI "(string \<times> string) list"
  | OtherVolume string

record Volume =
  vo_Name :: string
  vo_Source :: VolumeSource

record ContainerPort =
  cp_Name :: string
  cp_Port :: "32 word"
  cp_Protocol :: string

record VolumeMount =
  vm_Name :: string
  vm_Path :: string
  vm_ReadOnly :: bool

record Probe =
  pb_Path :: string
  pb_Port :: "32 word"
  pb_InitialDelay :: int
  pb_Period :: int

record SecurityContext =
  sc_RunAsNonRoot :: "bool option"
  sc_AllowPrivilegeEscalation :: "bool option"
  sc_ReadOnlyRootFilesystem :: "bool option"
  sc_Privileged :: "bool option"
  sc_Seccomp :: "string option"
  sc_DropCapabilities :: "string list"

record 'q Container =
  ct_Name :: string
  ct_Image :: string
  ct_Ports :: "ContainerPort list"
  ct_Env :: "(string \<times> string) list"
  ct_Mounts :: "VolumeMount list"
  ct_Requests :: "resource \<rightharpoonup> 'q"
  ct_Limits :: "resource \<rightharpoonup> 'q"
  ct_LivenessProbe :: "Probe option"
  ct_SecurityContext :: "SecurityContext option"
  ct_RestartPolicy :: "string option"
  ct_Rest :: string

record 'q PodSpec =
  ps_Volumes :: "Volume list"
  ps_InitContainers :: "'q Container list"
  ps_Containers :: "'q Container list"
  ps_Rest :: string

section \<open>Constants\<close>

definition sidecarContainerName :: string where "sidecarContainerName = ''pg-doorman''"
definition scratchVolumeName :: string where "scratchVolumeName = ''pg-doorman-scratch''"
definition scratchMountPath :: string where "scratchMountPath = ''/tmp''"
definition tlsVolumeName :: string where "tlsVolumeName = ''pg-doorman-server-tls''"
definition tlsMountPath :: string where "tlsMountPath = ''/etc/pg-doorman-tls''"
definition configVolumeName :: string where "configVolumeName = ''pg-doorman-config''"
definition configMountPath :: string where "configMountPath = ''/etc/pg-doorman-config''"
definition podInfoVolumeName :: string where "podInfoVolumeName = ''pg-doorman-podinfo''"
definition podInfoMountPath :: string where "podInfoMountPath = ''/etc/pg-doorman-podinfo''"
definition instanceRoleLabel :: string where "instanceRoleLabel = ''cnpg.io/instanceRole''"

lemmas pod_constants =
  sidecarContainerName_def scratchVolumeName_def scratchMountPath_def tlsVolumeName_def tlsMountPath_def
  configVolumeName_def configMountPath_def podInfoVolumeName_def podInfoMountPath_def instanceRoleLabel_def

section \<open>Injection\<close>

definition serverTLSSecretName :: "Cluster \<Rightarrow> string" where
  "serverTLSSecretName cluster =
     (case cl_ServerTLSSecret cluster of
        Some name \<Rightarrow> if name \<noteq> [] then name else cl_Name cluster @ ''-server''
      | None \<Rightarrow> cl_Name cluster @ ''-server'')"

fun hasVolume :: "Volume list \<Rightarrow> string \<Rightarrow> bool" where
  "hasVolume [] name = False"
| "hasVolume (v # vs) name = (vo_Name v = name \<or> hasVolume vs name)"

text \<open>The loop that replaces the first element with the same name and otherwise appends, which the code
  has once for volumes and once for init containers.\<close>

fun put_named :: "('a \<Rightarrow> string) \<Rightarrow> 'a \<Rightarrow> 'a list \<Rightarrow> 'a list" where
  "put_named nm x [] = [x]"
| "put_named nm x (y # ys) = (if nm y = nm x then x # ys else y # put_named nm x ys)"

definition ensureVolume :: "Volume \<Rightarrow> 'q PodSpec \<Rightarrow> 'q PodSpec" where
  "ensureVolume volume spec = spec\<lparr>ps_Volumes := put_named vo_Name volume (ps_Volumes spec)\<rparr>"

definition add_scratch :: "'q PodSpec \<Rightarrow> 'q PodSpec" where
  "add_scratch spec =
     (if hasVolume (ps_Volumes spec) scratchVolumeName then spec
      else spec\<lparr>ps_Volumes := ps_Volumes spec @ [\<lparr>vo_Name = scratchVolumeName, vo_Source = EmptyDirMemory\<rparr>]\<rparr>)"

definition tls_volume :: "Cluster \<Rightarrow> Volume" where
  "tls_volume cluster = \<lparr>vo_Name = tlsVolumeName, vo_Source = SecretVolume (serverTLSSecretName cluster)\<rparr>"

definition podinfo_volume :: Volume where
  "podinfo_volume =
     \<lparr>vo_Name = podInfoVolumeName,
      vo_Source = DownwardAPI [(''role'', ''metadata.labels['' @ [CHR 0x27] @ instanceRoleLabel @ [CHR 0x27] @ '']'')]\<rparr>"

definition config_volume :: "Cluster \<Rightarrow> Volume" where
  "config_volume cluster =
     \<lparr>vo_Name = configVolumeName, vo_Source = SecretVolume (cl_Name cluster @ ''-doorman-config'')\<rparr>"

definition sidecar_container :: "'q PluginConfiguration \<Rightarrow> 'q Container" where
  "sidecar_container cfg =
     \<lparr>ct_Name = sidecarContainerName, ct_Image = pc_SidecarImage cfg,
      ct_Ports =
        [\<lparr>cp_Name = ''pooler'', cp_Port = go_int32 (pc_PoolerPort cfg), cp_Protocol = ''TCP''\<rparr>,
         \<lparr>cp_Name = ''pgd-metrics'', cp_Port = go_int32 (pc_MetricsPort cfg), cp_Protocol = ''TCP''\<rparr>],
      ct_Env =
        [(''CONFIG_SOURCE'', configMountPath @ ''/pg_doorman.yaml''),
         (''HEALTH_PORT'', Itoa WrapperHealthPort),
         (''LOG_LEVEL'', pc_LogLevel cfg),
         (''TLS_CERT_PATH'', tlsMountPath @ ''/tls.crt''),
         (''TLS_KEY_PATH'', tlsMountPath @ ''/tls.key''),
         (''ROLE_FILE'', podInfoMountPath @ ''/role'')],
      ct_Mounts =
        [\<lparr>vm_Name = scratchVolumeName, vm_Path = scratchMountPath, vm_ReadOnly = False\<rparr>,
         \<lparr>vm_Name = tlsVolumeName, vm_Path = tlsMountPath, vm_ReadOnly = True\<rparr>,
         \<lparr>vm_Name = configVolumeName, vm_Path = configMountPath, vm_ReadOnly = True\<rparr>,
         \<lparr>vm_Name = podInfoVolumeName, vm_Path = podInfoMountPath, vm_ReadOnly = True\<rparr>],
      ct_Requests = pc_Requests cfg, ct_Limits = pc_Limits cfg,
      ct_LivenessProbe = Some \<lparr>pb_Path = ''/healthz'', pb_Port = go_int32 WrapperHealthPort, pb_InitialDelay = 10, pb_Period = 30\<rparr>,
      ct_SecurityContext = Some
        \<lparr>sc_RunAsNonRoot = Some True, sc_AllowPrivilegeEscalation = Some False,
         sc_ReadOnlyRootFilesystem = Some True, sc_Privileged = Some False,
         sc_Seccomp = Some ''RuntimeDefault'', sc_DropCapabilities = [''ALL'']\<rparr>,
      ct_RestartPolicy = Some ''Always'', ct_Rest = []\<rparr>"

definition injectSidecar :: "'q PluginConfiguration \<Rightarrow> Cluster \<Rightarrow> 'q PodSpec \<Rightarrow> 'q PodSpec" where
  "injectSidecar cfg cluster spec =
     (let s1 = add_scratch spec;
          s2 = ensureVolume (tls_volume cluster) s1;
          s3 = ensureVolume podinfo_volume s2;
          s4 = ensureVolume (config_volume cluster) s3
      in s4\<lparr>ps_InitContainers := put_named ct_Name (sidecar_container cfg) (ps_InitContainers s4)\<rparr>)"

section \<open>The lifecycle hook\<close>

datatype 'q hook_error =
    KindError string
  | DecodeCluster string
  | DecodePod string
  | InvalidConfig "'q config_error"
  | PatchError string

record 'q hook_env =
  he_config :: "'q config_env"
  he_GetKind :: "string \<Rightarrow> string + string"
  he_DecodeCluster :: "string \<Rightarrow> string + Cluster"
  he_DecodePod :: "string \<Rightarrow> string + 'q PodSpec"
  he_CreatePodPatch :: "'q PodSpec \<Rightarrow> 'q PodSpec \<Rightarrow> string + string"

record lifecycle_request =
  rq_ObjectDefinition :: string
  rq_ClusterDefinition :: string

definition reconcilePod ::
  "'q hook_env \<Rightarrow> lifecycle_request \<Rightarrow> 'q PluginConfiguration \<Rightarrow> Cluster \<Rightarrow> 'q hook_error + string" where
  "reconcilePod H request cfg cluster =
     and_then (map_sum DecodePod id (he_DecodePod H (rq_ObjectDefinition request))) (\<lambda>pod.
       let mutatedPod = injectSidecar cfg cluster pod
       in map_sum PatchError id (he_CreatePodPatch H mutatedPod pod))"

definition lifecycleHook :: "'q hook_env \<Rightarrow> lifecycle_request \<Rightarrow> 'q hook_error + string" where
  "lifecycleHook H request =
     and_then (map_sum KindError id (he_GetKind H (rq_ObjectDefinition request))) (\<lambda>kind.
     and_then (map_sum DecodeCluster id (he_DecodeCluster H (rq_ClusterDefinition request))) (\<lambda>cluster.
       let pluginConfig = NewFromCluster (he_config H) cluster in
       if \<not> pc_Enabled pluginConfig then Inr []
       else and_then (map_sum InvalidConfig id (Validate (he_config H) pluginConfig)) (\<lambda>_.
         if kind = ''Pod'' then reconcilePod H request pluginConfig cluster else Inr [])))"

section \<open>Hook metrics\<close>

record hook_metrics =
  hm_Observed :: "string \<Rightarrow> nat"
  hm_Errors :: "string \<Rightarrow> nat"

text \<open>\<open>Observe\<close> runs a hook, then records a duration sample and, on error, counts it. The metrics are the
  second half of the state.\<close>

definition Observe :: "string \<Rightarrow> ('s, 'e, 'a) st \<Rightarrow> ('s \<times> hook_metrics, 'e, 'a) st" where
  "Observe hook fn s =
     (let (r, s') = fn (fst s);
          m = snd s;
          m1 = m\<lparr>hm_Observed := (hm_Observed m)(hook := hm_Observed m hook + 1)\<rparr>
      in (r, s', case r of Inl _ \<Rightarrow> m1\<lparr>hm_Errors := (hm_Errors m1)(hook := hm_Errors m1 hook + 1)\<rparr> | Inr _ \<Rightarrow> m1))"

definition LifecycleHook ::
  "'q hook_env \<Rightarrow> lifecycle_request \<Rightarrow> (unit \<times> hook_metrics, 'q hook_error, string) st" where
  "LifecycleHook H request =
     Observe ''lifecycle.LifecycleHook'' (\<lambda>s. (lifecycleHook H request, s))"

section \<open>Lists updated by name\<close>

definition first_named :: "('a \<Rightarrow> string) \<Rightarrow> 'a \<Rightarrow> 'a list \<Rightarrow> bool" where
  "first_named nm x xs \<longleftrightarrow> find (\<lambda>y. nm y = nm x) xs = Some x"

lemma put_named_first: "first_named nm x (put_named nm x xs)"
  by (induction xs) (auto simp: first_named_def)

lemma put_named_id: "first_named nm x xs \<Longrightarrow> put_named nm x xs = xs"
  by (induction xs) (auto simp: first_named_def split: if_splits)

lemma put_named_keeps_first: "nm x \<noteq> nm y \<Longrightarrow> first_named nm x xs \<Longrightarrow> first_named nm x (put_named nm y xs)"
  by (induction xs) (auto simp: first_named_def split: if_splits)

lemma put_named_others: "filter (\<lambda>y. nm y \<noteq> nm x) (put_named nm x xs) = filter (\<lambda>y. nm y \<noteq> nm x) xs"
  by (induction xs) auto

lemma put_named_filter:
  "(\<And>y. nm y = nm x \<Longrightarrow> \<not> P y) \<Longrightarrow> filter P (put_named nm x xs) = filter P xs"
  by (induction xs) auto

lemma put_named_names: "set (map nm (put_named nm x xs)) = insert (nm x) (set (map nm xs))"
  by (induction xs) auto

lemma put_named_distinct: "distinct (map nm xs) \<Longrightarrow> distinct (map nm (put_named nm x xs))"
proof (induction xs)
  case (Cons y ys)
  then show ?case using put_named_names [of nm x ys] by auto
qed simp

lemma put_named_count:
  "length (filter (\<lambda>y. nm y = nm x) (put_named nm x xs)) = max 1 (length (filter (\<lambda>y. nm y = nm x) xs))"
  by (induction xs) auto

lemma hasVolume_iff: "hasVolume vs name \<longleftrightarrow> name \<in> vo_Name ` set vs"
  by (induction vs) auto

section \<open>Correctness of the injection\<close>

text \<open>What the pod mutation promises: the three managed volumes and the sidecar are in place.\<close>

definition injected :: "'q PluginConfiguration \<Rightarrow> Cluster \<Rightarrow> 'q PodSpec \<Rightarrow> bool" where
  "injected cfg cluster spec \<longleftrightarrow>
     hasVolume (ps_Volumes spec) scratchVolumeName \<and>
     first_named vo_Name (tls_volume cluster) (ps_Volumes spec) \<and>
     first_named vo_Name podinfo_volume (ps_Volumes spec) \<and>
     first_named vo_Name (config_volume cluster) (ps_Volumes spec) \<and>
     first_named ct_Name (sidecar_container cfg) (ps_InitContainers spec)"

lemma volume_names [simp]:
  "vo_Name (tls_volume cluster) = tlsVolumeName" "vo_Name podinfo_volume = podInfoVolumeName"
  "vo_Name (config_volume cluster) = configVolumeName" "ct_Name (sidecar_container cfg) = sidecarContainerName"
  by (simp_all add: tls_volume_def podinfo_volume_def config_volume_def sidecar_container_def)

lemma volume_names_differ [simp]:
  "tlsVolumeName \<noteq> podInfoVolumeName" "tlsVolumeName \<noteq> configVolumeName" "podInfoVolumeName \<noteq> configVolumeName"
  "scratchVolumeName \<noteq> tlsVolumeName" "scratchVolumeName \<noteq> podInfoVolumeName" "scratchVolumeName \<noteq> configVolumeName"
  by (simp_all add: pod_constants)

lemma hasVolume_put: "hasVolume (put_named vo_Name v vs) n \<longleftrightarrow> n = vo_Name v \<or> hasVolume vs n"
  using put_named_names [of vo_Name v vs] by (auto simp: hasVolume_iff)

lemma add_scratch_has: "hasVolume (ps_Volumes (add_scratch spec)) scratchVolumeName"
  by (simp add: add_scratch_def hasVolume_iff)

lemmas injectSidecar_unfold = injectSidecar_def ensureVolume_def Let_def

lemma injectSidecar_injected: "injected cfg cluster (injectSidecar cfg cluster spec)"
  using add_scratch_has [of spec]
  by (simp add: injected_def injectSidecar_unfold put_named_first put_named_keeps_first hasVolume_put)

lemma injected_fixed: "injected cfg cluster spec \<Longrightarrow> injectSidecar cfg cluster spec = spec"
  by (simp add: injected_def injectSidecar_unfold add_scratch_def put_named_id)

interpretation inject: idempotent_mutation "injectSidecar cfg cluster" for cfg :: "'q PluginConfiguration" and cluster
  by unfold_locales (simp add: injected_fixed injectSidecar_injected)

text \<open>(C28) Pod mutation converges. Evaluating a pod any number of times changes it at most once, and a pod
  is left alone exactly when the managed volumes and the sidecar are already in place.\<close>

theorem injectSidecar_converges:
  "(injectSidecar cfg cluster ^^ Suc n) spec = injectSidecar cfg cluster spec \<and>
   (injectSidecar cfg cluster spec = spec \<longleftrightarrow> injected cfg cluster spec)"
proof -
  have "injected cfg cluster spec" if "injectSidecar cfg cluster spec = spec"
    using injectSidecar_injected [of cfg cluster spec] that by simp
  then show ?thesis using inject.funpow_Suc_mutate injected_fixed by blast
qed

definition managed_volume :: "string \<Rightarrow> bool" where
  "managed_volume n \<longleftrightarrow> n \<in> {scratchVolumeName, tlsVolumeName, podInfoVolumeName, configVolumeName}"

lemma go_int32_port: "0 \<le> p \<Longrightarrow> p \<le> 65535 \<Longrightarrow> sint (go_int32 p) = p"
  unfolding go_int32_def by (simp add: sint_uint word_of_int_inverse unsigned_of_int signed_take_bit_int_eq_self take_bit_int_eq_self)

text \<open>(C29) What is injected, and what is kept. All other volumes, init containers and every ordinary
  container stay as they were and in order; exactly one container carries the sidecar's name unless
  the pod had several, and it is the one built from the plugin configuration; every volume it mounts exists
  in the pod; for an accepted configuration its ports are the configured ones, not truncated.\<close>

theorem injectSidecar_correct:
  assumes "accepted_config E cfg"
  shows "filter (\<lambda>v. \<not> managed_volume (vo_Name v)) (ps_Volumes (injectSidecar cfg cluster spec)) =
      filter (\<lambda>v. \<not> managed_volume (vo_Name v)) (ps_Volumes spec) \<and>
    filter (\<lambda>c. ct_Name c \<noteq> sidecarContainerName) (ps_InitContainers (injectSidecar cfg cluster spec)) =
      filter (\<lambda>c. ct_Name c \<noteq> sidecarContainerName) (ps_InitContainers spec) \<and>
    ps_Containers (injectSidecar cfg cluster spec) = ps_Containers spec \<and>
    ps_Rest (injectSidecar cfg cluster spec) = ps_Rest spec \<and>
    length (filter (\<lambda>c. ct_Name c = sidecarContainerName) (ps_InitContainers (injectSidecar cfg cluster spec))) =
      max 1 (length (filter (\<lambda>c. ct_Name c = sidecarContainerName) (ps_InitContainers spec))) \<and>
    first_named ct_Name (sidecar_container cfg) (ps_InitContainers (injectSidecar cfg cluster spec)) \<and>
    (\<forall>m \<in> set (ct_Mounts (sidecar_container cfg)).
      hasVolume (ps_Volumes (injectSidecar cfg cluster spec)) (vm_Name m)) \<and>
    map (sint \<circ> cp_Port) (ct_Ports (sidecar_container cfg)) = [pc_PoolerPort cfg, pc_MetricsPort cfg]"
proof -
  have vols: "filter (\<lambda>v. \<not> managed_volume (vo_Name v)) (ps_Volumes (injectSidecar cfg cluster spec)) =
      filter (\<lambda>v. \<not> managed_volume (vo_Name v)) (ps_Volumes spec)"
    by (simp add: injectSidecar_unfold add_scratch_def put_named_filter managed_volume_def)
  have inits: "ps_InitContainers (injectSidecar cfg cluster spec) =
      put_named ct_Name (sidecar_container cfg) (ps_InitContainers spec)"
    by (simp add: injectSidecar_unfold add_scratch_def)
  have mounts: "\<forall>m \<in> set (ct_Mounts (sidecar_container cfg)).
      hasVolume (ps_Volumes (injectSidecar cfg cluster spec)) (vm_Name m)"
    using add_scratch_has [of spec]
    by (auto simp: sidecar_container_def injectSidecar_unfold hasVolume_put)
  have ports: "map (sint \<circ> cp_Port) (ct_Ports (sidecar_container cfg)) = [pc_PoolerPort cfg, pc_MetricsPort cfg]"
    using assms by (simp add: sidecar_container_def go_int32_port accepted_config_def port_ok_def)
  show ?thesis
    using vols inits mounts ports put_named_others [of ct_Name "sidecar_container cfg" "ps_InitContainers spec"]
      put_named_count [of ct_Name "sidecar_container cfg" "ps_InitContainers spec"]
      put_named_first [of ct_Name "sidecar_container cfg" "ps_InitContainers spec"]
    by (simp add: injectSidecar_unfold add_scratch_def)
qed

definition example_plugin_config :: "nat PluginConfiguration" where
  "example_plugin_config =
     \<lparr>pc_Enabled = True, pc_PoolerPort = 6432, pc_MetricsPort = 9127, pc_ConfigName = ''doorman'',
      pc_SidecarImage = ''image'', pc_LogLevel = ''info'', pc_InPlaceUpgrades = False,
      pc_Requests = Map.empty, pc_Limits = Map.empty, pc_ParseErrors = []\<rparr>"

definition quantity_env :: "nat config_env" where
  "quantity_env = \<lparr>SIDECAR_IMAGE = ''image'', ParseQuantity = (\<lambda>s. Some (length s)),
     QuantityCmp = (\<lambda>a b. int a - int b), port_rank = (\<lambda>_. 0)\<rparr>"

definition pg_cluster :: "(string \<rightharpoonup> string) \<Rightarrow> Cluster" where
  "pg_cluster params = \<lparr>cl_Namespace = ''ns'', cl_Name = ''pg'',
     cl_Plugins = [\<lparr>pg_Name = PluginName, pg_Enabled = None, pg_Parameters = params\<rparr>],
     cl_ServerTLSSecret = None, cl_CurrentPrimary = ''pg-1''\<rparr>"

definition empty_pod :: "nat PodSpec" where
  "empty_pod = \<lparr>ps_Volumes = [], ps_InitContainers = [], ps_Containers = [], ps_Rest = []\<rparr>"

theorem injectSidecar_correct_witness:
  "accepted_config quantity_env example_plugin_config \<and>
   map (sint \<circ> cp_Port) (ct_Ports (sidecar_container example_plugin_config)) = [6432, 9127] \<and>
   length (filter (\<lambda>c. ct_Name c = sidecarContainerName)
     (ps_InitContainers (injectSidecar example_plugin_config (pg_cluster Map.empty) empty_pod))) = 1"
proof -
  have a: "accepted_config quantity_env example_plugin_config"
    by (simp add: accepted_config_def example_plugin_config_def port_ok_def log_levels_def)
  from injectSidecar_correct [OF a, of "pg_cluster Map.empty" empty_pod] a show ?thesis
    by (simp add: empty_pod_def example_plugin_config_def)
qed

text \<open>The lifecycle hook as a gate. For a pod of a cluster that enables the plugin: with accepted
  parameters the response is the patch from the pod to the injected pod; otherwise the hook fails, no pod
  is changed, and the failure is counted once under the hook's name.\<close>

theorem LifecycleHook_gate:
  assumes "he_GetKind H (rq_ObjectDefinition rq) = Inr ''Pod''"
    and "he_DecodeCluster H (rq_ClusterDefinition rq) = Inr cluster"
    and "he_DecodePod H (rq_ObjectDefinition rq) = Inr pod"
    and "pc_Enabled (NewFromCluster (he_config H) cluster)"
  shows "if accepted_config (he_config H) (NewFromCluster (he_config H) cluster)
    then fst (LifecycleHook H rq (u, M)) = map_sum PatchError id
      (he_CreatePodPatch H (injectSidecar (NewFromCluster (he_config H) cluster) cluster pod) pod)
    else \<exists>e. LifecycleHook H rq (u, M) = (Inl (InvalidConfig e), u,
      M\<lparr>hm_Observed := (hm_Observed M)(''lifecycle.LifecycleHook'' := hm_Observed M ''lifecycle.LifecycleHook'' + 1),
        hm_Errors := (hm_Errors M)(''lifecycle.LifecycleHook'' := hm_Errors M ''lifecycle.LifecycleHook'' + 1)\<rparr>)"
proof (cases "Validate (he_config H) (NewFromCluster (he_config H) cluster)")
  case (Inr x)
  then have "Validate (he_config H) (NewFromCluster (he_config H) cluster) = Inr ()" by simp
  with assms show ?thesis
    by (simp add: Validate_accepts [symmetric] LifecycleHook_def Observe_def lifecycleHook_def
        reconcilePod_def Let_def)
next
  case (Inl e)
  with assms show ?thesis
    by (simp add: Validate_accepts [symmetric] LifecycleHook_def Observe_def lifecycleHook_def Let_def)
qed

definition pod_hooks :: "(string \<rightharpoonup> string) \<Rightarrow> nat hook_env" where
  "pod_hooks params =
     \<lparr>he_config = quantity_env, he_GetKind = (\<lambda>_. Inr ''Pod''), he_DecodeCluster = (\<lambda>_. Inr (pg_cluster params)),
      he_DecodePod = (\<lambda>_. Inr empty_pod), he_CreatePodPatch = (\<lambda>new old. Inr (if new = old then [] else ''patch''))\<rparr>"

definition no_metrics :: hook_metrics where
  "no_metrics = \<lparr>hm_Observed = (\<lambda>_. 0), hm_Errors = (\<lambda>_. 0)\<rparr>"

theorem LifecycleHook_gate_witness:
  "\<exists>e. fst (LifecycleHook (pod_hooks Map.empty) \<lparr>rq_ObjectDefinition = [], rq_ClusterDefinition = []\<rparr> ((), no_metrics)) =
     Inl (InvalidConfig e)"
proof -
  let ?H = "pod_hooks Map.empty"
  let ?rq = "\<lparr>rq_ObjectDefinition = [], rq_ClusterDefinition = []\<rparr>"
  have on: "pc_Enabled (NewFromCluster (he_config ?H) (pg_cluster Map.empty))"
    by (simp add: NewFromCluster_def pg_cluster_def read_plugin_def setResource_def put_resource_def
        add_parse_error_def set_pooler_port_def set_metrics_port_def set_in_place_upgrades_def Let_def
        split: option.split)
  have bad: "\<not> accepted_config (he_config ?H) (NewFromCluster (he_config ?H) (pg_cluster Map.empty))"
    by (simp add: NewFromCluster_def pg_cluster_def read_plugin_def setResource_def put_resource_def
        add_parse_error_def set_pooler_port_def set_metrics_port_def set_in_place_upgrades_def Let_def
        accepted_config_def initial_config_def split: option.split)
  show ?thesis
    using LifecycleHook_gate [of ?H ?rq "pg_cluster Map.empty" empty_pod "()" no_metrics] on bad
    by (auto simp: pod_hooks_def)
qed

end
