(* ===== verification/Operator_Hooks.thy ===== *)
theory Operator_Hooks
  imports Lifecycle Render_Controller
begin

text \<open>
  The hooks CNPG calls on the plugin besides the pod lifecycle: admission (\<open>internal/operator\<close>:
  \<open>mutations.go\<close>, \<open>validation.go\<close>, \<open>impl.go\<close>), the hooks around a cluster's reconciliation
  (\<open>internal/reconciler/reconciler.go\<close>) and the plugin identity (\<open>internal/identity/impl.go\<close>).
  Decoding and patch creation are third-party parameters, as in \<open>Lifecycle\<close>; the API server is the
  \<open>client\<close> of \<open>Kube_Client\<close>.
\<close>

section \<open>Capabilities and identity\<close>

datatype operator_rpc = ValidateCreate | ValidateChange | MutateClusterRpc
datatype plugin_service = LifecycleService | OperatorService | ReconcilerHooks
datatype lifecycle_operation = TypeCreate | TypeEvaluate

definition operator_GetCapabilities :: "operator_rpc list" where
  "operator_GetCapabilities = [ValidateCreate, ValidateChange, MutateClusterRpc]"

definition GetPluginCapabilities :: "plugin_service list" where
  "GetPluginCapabilities = [LifecycleService, OperatorService, ReconcilerHooks]"

record plugin_metadata =
  md_Name :: string
  md_Version :: string
  md_DisplayName :: string
  md_ProjectUrl :: string
  md_RepositoryUrl :: string
  md_License :: string
  md_LicenseUrl :: string
  md_Maturity :: string

definition GetPluginMetadata :: plugin_metadata where
  "GetPluginMetadata =
     \<lparr>md_Name = PluginName, md_Version = ''0.4.1'', md_DisplayName = ''PgDoorman'',
      md_ProjectUrl = ''https://github.com/ermakov-oleg/cnpg-pg-doorman'',
      md_RepositoryUrl = ''https://github.com/ermakov-oleg/cnpg-pg-doorman'', md_License = ''Apache-2.0'',
      md_LicenseUrl = ''https://github.com/ermakov-oleg/cnpg-pg-doorman/blob/main/LICENSE'', md_Maturity = ''alpha''\<rparr>"

text \<open>The readiness \<open>Probe\<close> answers.\<close>

definition Probe_Ready :: bool where "Probe_Ready = True"

definition lifecycle_GetCapabilities :: "(string \<times> string \<times> lifecycle_operation list) list" where
  "lifecycle_GetCapabilities = [([], ''Pod'', [TypeCreate, TypeEvaluate])]"

definition reconciler_GetCapabilities :: "string list" where
  "reconciler_GetCapabilities = [''Cluster'']"

section \<open>Admission: defaults\<close>

definition mutate_plugin :: "plugin \<Rightarrow> plugin" where
  "mutate_plugin p =
     (if pg_Name p \<noteq> PluginName then p else p\<lparr>pg_Parameters := SetDefaults (pg_Parameters p)\<rparr>)"

definition mutate_cluster :: "Cluster \<Rightarrow> Cluster" where
  "mutate_cluster cluster = cluster\<lparr>cl_Plugins := map mutate_plugin (cl_Plugins cluster)\<rparr>"

definition MutateCluster ::
  "(string \<Rightarrow> string + Cluster) \<Rightarrow> (Cluster \<Rightarrow> Cluster \<Rightarrow> string + string) \<Rightarrow> string \<Rightarrow> string + string" where
  "MutateCluster decode create_patch definition =
     and_then (decode definition) (\<lambda>cluster. create_patch (mutate_cluster cluster) cluster)"

section \<open>Admission: validation\<close>

datatype 'q admission_error =
    ConfigInvalid "'q config_error"
  | PgDoormanMissing string string
  | PgDoormanForeign string string string

definition validateConfig :: "'q config_env \<Rightarrow> 'q PluginConfiguration \<Rightarrow> 'q admission_error list" where
  "validateConfig E cfg =
     (if \<not> pc_Enabled cfg then []
      else (case Validate E cfg of Inl e \<Rightarrow> [ConfigInvalid e] | Inr _ \<Rightarrow> []))"

definition validateClusterRef ::
  "client option \<Rightarrow> Cluster \<Rightarrow> 'q PluginConfiguration \<Rightarrow> bool \<Rightarrow> (log, 'e, 'q admission_error list) st" where
  "validateClusterRef client cluster cfg requireExists =
     (case client of
        None \<Rightarrow> retS []
      | Some C \<Rightarrow>
          if \<not> pc_Enabled cfg \<or> pc_ConfigName cfg = [] then retS []
          else bindS (tryS (get_pgdoorman C (cl_Namespace cluster, pc_ConfigName cfg))) (\<lambda>r.
            case r of
              Inl e \<Rightarrow>
                if e = NotFound \<and> requireExists
                then retS [PgDoormanMissing (pc_ConfigName cfg) (cl_Namespace cluster)] else retS []
            | Inr pd \<Rightarrow>
                if ds_ClusterRef (pd_Spec pd) \<noteq> cl_Name cluster
                then retS [PgDoormanForeign (pc_ConfigName cfg) (ds_ClusterRef (pd_Spec pd)) (cl_Name cluster)]
                else retS []))"

definition validate_request ::
  "'q config_env \<Rightarrow> client option \<Rightarrow> string + Cluster \<Rightarrow> bool \<Rightarrow> (log, string, 'q admission_error list) st" where
  "validate_request E client decoded requireExists =
     (case decoded of
        Inl e \<Rightarrow> throwS e
      | Inr cluster \<Rightarrow>
          (let cfg = NewFromCluster E cluster;
               result = validateConfig E cfg
           in bindS (validateClusterRef client cluster cfg requireExists) (\<lambda>errs. retS (result @ errs))))"

definition validateClusterCreate ::
  "'q config_env \<Rightarrow> client option \<Rightarrow> string + Cluster \<Rightarrow> (log, string, 'q admission_error list) st" where
  "validateClusterCreate E client decoded = validate_request E client decoded False"

definition validateClusterChange ::
  "'q config_env \<Rightarrow> client option \<Rightarrow> string + Cluster \<Rightarrow> (log, string, 'q admission_error list) st" where
  "validateClusterChange E client decoded = validate_request E client decoded True"

definition ValidateClusterCreate ::
  "'q config_env \<Rightarrow> client option \<Rightarrow> string + Cluster \<Rightarrow> (log \<times> hook_metrics, string, 'q admission_error list) st" where
  "ValidateClusterCreate E client decoded =
     Observe ''operator.ValidateClusterCreate'' (validateClusterCreate E client decoded)"

definition ValidateClusterChange ::
  "'q config_env \<Rightarrow> client option \<Rightarrow> string + Cluster \<Rightarrow> (log \<times> hook_metrics, string, 'q admission_error list) st" where
  "ValidateClusterChange E client decoded =
     Observe ''operator.ValidateClusterChange'' (validateClusterChange E client decoded)"

section \<open>Reconciler hooks\<close>

datatype behavior = CONTINUE | REQUEUE nat

datatype 'q pre_error =
    PreKind string
  | PreDecode string
  | PreInvalid "'q config_error"
  | PreApi api_error
  | PreForeign string string string
  | PreOwner string

definition managed_objects :: "Cluster \<Rightarrow> (kind \<times> key) list" where
  "managed_objects cluster =
     [(KRole, cl_Namespace cluster, GetRBACName (cl_Name cluster)),
      (KRoleBinding, cl_Namespace cluster, GetRBACName (cl_Name cluster)),
      (KService, cl_Namespace cluster, GetServiceName (cl_Name cluster)),
      (KSecret, cl_Namespace cluster, RenderedSecretName (cl_Name cluster))]"

definition delete_ignoring_missing :: "client \<Rightarrow> kind \<times> key \<Rightarrow> (log, api_error, unit) st" where
  "delete_ignoring_missing C obj =
     bindS (tryS (delete_object C (fst obj) (snd obj))) (\<lambda>r.
       case r of Inl e \<Rightarrow> if e = NotFound then retS () else throwS e | Inr _ \<Rightarrow> retS ())"

definition cleanup :: "client \<Rightarrow> Cluster \<Rightarrow> (log, api_error, unit) st" where
  "cleanup C cluster = forS (delete_ignoring_missing C) (managed_objects cluster)"

definition cleanupLegacyRBAC :: "client \<Rightarrow> Cluster \<Rightarrow> (log, api_error, unit) st" where
  "cleanupLegacyRBAC C cluster =
     forS (delete_ignoring_missing C)
       [(KRole, cl_Namespace cluster, GetRBACName (cl_Name cluster)),
        (KRoleBinding, cl_Namespace cluster, GetRBACName (cl_Name cluster))]"

definition ensureService ::
  "'q ctl_env \<Rightarrow> client \<Rightarrow> Cluster \<Rightarrow> int \<Rightarrow> (log, 'q pre_error, unit) st" where
  "ensureService R C cluster poolerPort =
     (let newService = BuildDoormanService cluster poolerPort in
      bindS (tryS (get_service C (sv_Namespace newService, sv_Name newService))) (\<lambda>r.
        case r of
          Inl e \<Rightarrow>
            if e \<noteq> NotFound then throwS (PreApi e)
            else (case ce_SetControllerReference R cluster (sv_Owner newService) of
                    Inl e \<Rightarrow> throwS (PreOwner e)
                  | Inr owner \<Rightarrow> mapErrS PreApi (create_service C (newService\<lparr>sv_Owner := owner\<rparr>)))
        | Inr svc \<Rightarrow>
            if sv_Selector svc = sv_Selector newService \<and> sv_Ports svc = sv_Ports newService then retS ()
            else mapErrS PreApi (patch_service C svc
                   (svc\<lparr>sv_Selector := sv_Selector newService, sv_Ports := sv_Ports newService\<rparr>))))"

text \<open>The body of \<open>pre\<close> for a decoded Cluster.\<close>

definition pre_cluster :: "'q ctl_env \<Rightarrow> client \<Rightarrow> Cluster \<Rightarrow> (log, 'q pre_error, behavior) st" where
  "pre_cluster R C cluster =
     (let pluginConfig = NewFromCluster (ce_config R) cluster in
      if \<not> pc_Enabled pluginConfig then bindS (mapErrS PreApi (cleanup C cluster)) (\<lambda>_. retS CONTINUE)
      else (case Validate (ce_config R) pluginConfig of
        Inl e \<Rightarrow> throwS (PreInvalid e)
      | Inr _ \<Rightarrow>
          bindS (tryS (get_pgdoorman C (cl_Namespace cluster, pc_ConfigName pluginConfig))) (\<lambda>r.
            case r of
              Inl e \<Rightarrow>
                if e = NotFound then retS (if cl_CurrentPrimary cluster \<noteq> [] then CONTINUE else REQUEUE 10)
                else throwS (PreApi e)
            | Inr pgDoorman \<Rightarrow>
                if ds_ClusterRef (pd_Spec pgDoorman) \<noteq> cl_Name cluster
                then throwS (PreForeign (pd_Name pgDoorman) (ds_ClusterRef (pd_Spec pgDoorman)) (cl_Name cluster))
                else bindS (mapErrS PreApi (cleanupLegacyRBAC C cluster)) (\<lambda>_.
                     bindS (ensureService R C cluster (pc_PoolerPort pluginConfig)) (\<lambda>_. retS CONTINUE)))))"

definition pre ::
  "'q ctl_env \<Rightarrow> client \<Rightarrow> string + string \<Rightarrow> string + Cluster \<Rightarrow> (log, 'q pre_error, behavior) st" where
  "pre R C kind decoded =
     (case kind of
        Inl e \<Rightarrow> throwS (PreKind e)
      | Inr k \<Rightarrow>
          if k \<noteq> ''Cluster'' then retS CONTINUE
          else (case decoded of Inl e \<Rightarrow> throwS (PreDecode e) | Inr cluster \<Rightarrow> pre_cluster R C cluster))"

definition Pre ::
  "'q ctl_env \<Rightarrow> client \<Rightarrow> string + string \<Rightarrow> string + Cluster \<Rightarrow> (log \<times> hook_metrics, 'q pre_error, behavior) st" where
  "Pre R C kind decoded = Observe ''reconciler.Pre'' (pre R C kind decoded)"

definition Post :: "('s, 'e, behavior) st" where
  "Post = retS CONTINUE"

section \<open>Defaulting does not change the meaning of a cluster\<close>

lemma mutate_plugin_simps [simp]:
  "pg_Name (mutate_plugin p) = pg_Name p" "pg_Enabled (mutate_plugin p) = pg_Enabled p"
  by (simp_all add: mutate_plugin_def)

lemma find_mutate:
  "find active_entry (map mutate_plugin ps) = map_option mutate_plugin (find active_entry ps)"
  by (induction ps) (auto simp: active_entry_def)

lemma plugin_reading_mutate:
  "plugin_reading E (pg_Parameters (mutate_plugin p)) = plugin_reading E (pg_Parameters p)"
  by (simp add: mutate_plugin_def SetDefaults_reading)

lemma mutate_plugin_idem: "mutate_plugin (mutate_plugin p) = mutate_plugin p"
  by (simp add: mutate_plugin_def param_defaults.idem)

interpretation cluster_defaults: idempotent_mutation mutate_cluster
  by unfold_locales (simp add: mutate_cluster_def mutate_plugin_idem)

text \<open>Defaulting at admission is transparent and settles: the mutated cluster is read exactly as the
  original one was, parse errors included, however often it is mutated.\<close>

theorem mutate_cluster_transparent:
  "NewFromCluster E ((mutate_cluster ^^ n) cluster) = NewFromCluster E cluster \<and>
   (mutate_cluster ^^ Suc n) cluster = mutate_cluster cluster"
proof -
  have "NewFromCluster E (mutate_cluster c) = NewFromCluster E c" for c
    by (simp add: NewFromCluster_reading mutate_cluster_def find_mutate plugin_reading_mutate split: option.split)
  then have "NewFromCluster E ((mutate_cluster ^^ n) cluster) = NewFromCluster E cluster"
    by (induction n) simp_all
  then show ?thesis using cluster_defaults.funpow_Suc_mutate by blast
qed

section \<open>Admission and reconciliation agree\<close>

lemma validateConfig_Nil: "validateConfig E cfg = [] \<longleftrightarrow> (pc_Enabled cfg \<longrightarrow> accepted_config E cfg)"
proof (cases "Validate E cfg")
  case (Inr x)
  then show ?thesis using Validate_accepts [of E cfg] by (simp add: validateConfig_def)
next
  case (Inl e)
  then have "\<not> accepted_config E cfg" using Validate_accepts [of E cfg] by auto
  with Inl show ?thesis by (simp add: validateConfig_def)
qed

text \<open>Which API answers about the referenced \<open>PgDoorman\<close> admission tolerates.\<close>

definition ref_tolerated :: "bool \<Rightarrow> string \<Rightarrow> api_error + PgDoorman \<Rightarrow> bool" where
  "ref_tolerated requireExists clusterName r \<longleftrightarrow>
     (case r of Inl e \<Rightarrow> e = NotFound \<longrightarrow> \<not> requireExists
      | Inr pd \<Rightarrow> ds_ClusterRef (pd_Spec pd) = clusterName)"

lemma accepted_configName: "accepted_config E cfg \<Longrightarrow> pc_ConfigName cfg \<noteq> []"
  by (simp add: accepted_config_def)

lemma validate_request_admits:
  "(\<exists>l'. validate_request E (Some C) (Inr cluster) req l = (Inr [], l')) \<longleftrightarrow>
     (pc_Enabled (NewFromCluster E cluster) \<longrightarrow>
        accepted_config E (NewFromCluster E cluster) \<and>
        ref_tolerated req (cl_Name cluster)
          (on_get_pgdoorman C l (cl_Namespace cluster, pc_ConfigName (NewFromCluster E cluster))))"
  using accepted_configName [of E "NewFromCluster E cluster"]
  by (auto simp: validate_request_def validateClusterRef_def bindS_def get_pgdoorman_def Let_def
      validateConfig_Nil ref_tolerated_def split: sum.splits if_splits)

text \<open>(C31) What admission accepts. Creating a cluster is admitted exactly when the plugin is off, or its
  parameters are accepted and the referenced \<open>PgDoorman\<close> is not known to belong to another cluster;
  changing one additionally demands that the \<open>PgDoorman\<close> is not known to be missing. A failing read
  blocks neither.\<close>

theorem admission_correct:
  "((\<exists>l'. validateClusterCreate E (Some C) (Inr cluster) l = (Inr [], l')) \<longleftrightarrow>
     (if pc_Enabled (NewFromCluster E cluster)
      then accepted_config E (NewFromCluster E cluster) \<and>
        (case on_get_pgdoorman C l (cl_Namespace cluster, pc_ConfigName (NewFromCluster E cluster)) of
           Inl e \<Rightarrow> True | Inr pd \<Rightarrow> ds_ClusterRef (pd_Spec pd) = cl_Name cluster)
      else True)) \<and>
   ((\<exists>l'. validateClusterChange E (Some C) (Inr cluster) l = (Inr [], l')) \<longleftrightarrow>
     (if pc_Enabled (NewFromCluster E cluster)
      then accepted_config E (NewFromCluster E cluster) \<and>
        (case on_get_pgdoorman C l (cl_Namespace cluster, pc_ConfigName (NewFromCluster E cluster)) of
           Inl e \<Rightarrow> e \<noteq> NotFound | Inr pd \<Rightarrow> ds_ClusterRef (pd_Spec pd) = cl_Name cluster)
      else True))"
  unfolding validateClusterCreate_def validateClusterChange_def validate_request_admits
  by (auto simp: ref_tolerated_def split: sum.splits)

section \<open>The Pre hook\<close>

lemma delete_ignoring_missing_ok:
  "delete_ignoring_missing C obj l = (Inr (), l') \<Longrightarrow>
   \<exists>a. (a = None \<or> a = Some NotFound) \<and> l' = l @ [Delete (fst obj) (snd obj) a]"
  by (auto simp: delete_ignoring_missing_def bindS_def delete_object_def Let_def done_or_def
      split: option.splits if_splits)

definition gone :: "log \<Rightarrow> kind \<times> key \<Rightarrow> bool" where
  "gone l obj \<longleftrightarrow> (\<exists>a. (a = None \<or> a = Some NotFound) \<and> Delete (fst obj) (snd obj) a \<in> set l)"

lemma delete_all_ok:
  "forS (delete_ignoring_missing C) objs l = (Inr (), l') \<Longrightarrow> set l \<subseteq> set l' \<and> (\<forall>obj \<in> set objs. gone l' obj)"
proof (induction objs arbitrary: l)
  case (Cons obj objs)
  then obtain l1 where 1: "delete_ignoring_missing C obj l = (Inr (), l1)"
    and 2: "forS (delete_ignoring_missing C) objs l1 = (Inr (), l')"
    by (auto simp: bindS_Inr_iff)
  from delete_ignoring_missing_ok [OF 1] Cons.IH [OF 2] show ?case
    by (fastforce simp: gone_def)
qed simp

lemma pre_cluster_disabled:
  assumes "\<not> pc_Enabled (NewFromCluster (ce_config R) cluster)" and "pre_cluster R C cluster l = (Inr b, l')"
  shows "b = CONTINUE \<and> (\<forall>obj \<in> set (managed_objects cluster). gone l' obj)"
proof -
  obtain x l1 where run: "forS (delete_ignoring_missing C) (managed_objects cluster) l = (x, l1)"
    by (rule prod.exhaust)
  with assms have "x = Inr ()" "b = CONTINUE" "l' = l1"
    by (cases x; simp add: pre_cluster_def Let_def cleanup_def bindS_def)+
  with run delete_all_ok show ?thesis by blast
qed

text \<open>(C30) Disabling the plugin removes what it manages. If the Pre hook of a cluster without the plugin
  reports success, every managed object (Role, RoleBinding, Service and the Secret with the rendered
  passwords) was deleted in that run or already missing.\<close>

theorem pre_disabled_cleans_up:
  assumes "\<not> pc_Enabled (NewFromCluster (ce_config R) cluster)"
    and "pre R C (Inr ''Cluster'') (Inr cluster) l = (Inr b, l')"
  shows "b = CONTINUE \<and> gone l' (KRole, cl_Namespace cluster, GetRBACName (cl_Name cluster)) \<and>
    gone l' (KRoleBinding, cl_Namespace cluster, GetRBACName (cl_Name cluster)) \<and>
    gone l' (KService, cl_Namespace cluster, GetServiceName (cl_Name cluster)) \<and>
    gone l' (KSecret, cl_Namespace cluster, RenderedSecretName (cl_Name cluster))"
  using pre_cluster_disabled [OF assms(1), of C l b l'] assms(2)
  by (simp add: pre_def managed_objects_def)

definition disabled_cluster :: Cluster where
  "disabled_cluster = (pg_cluster Map.empty)\<lparr>cl_Plugins := []\<rparr>"

text \<open>An environment for runs of the hooks: the fields besides \<open>ce_config\<close> and the owner reference are not
  used by them.\<close>

definition hook_ctl_env :: "nat ctl_env" where
  "hook_ctl_env =
     \<lparr>ce_config = quantity_env, ce_marshal = (\<lambda>_. Inl []), ce_unmarshal = (\<lambda>_. Inl []), ce_rank = (\<lambda>_. 0),
      ce_json = (\<lambda>_. Inl []), ce_Binary = None, ce_Recorder = False, ce_ContainsFinalizer = (\<lambda>_ _. False),
      ce_AddFinalizer = (\<lambda>fs _. fs), ce_RemoveFinalizer = (\<lambda>fs _. fs), ce_FindStatusCondition = (\<lambda>_ _. None),
      ce_SetStatusCondition = (\<lambda>cs c. (cs, True)), ce_SetControllerReference = (\<lambda>c _. Inr (Some (cl_Name c))),
      ce_text = (\<lambda>_. [])\<rparr>"

definition empty_server :: client where
  "empty_server = fixed_client Map.empty Map.empty Map.empty Map.empty"

theorem pre_disabled_cleans_up_witness:
  "\<not> pc_Enabled (NewFromCluster (ce_config hook_ctl_env) disabled_cluster) \<and>
   (\<exists>l'. pre hook_ctl_env empty_server (Inr ''Cluster'') (Inr disabled_cluster) [] = (Inr CONTINUE, l') \<and>
     gone l' (KSecret, ''ns'', ''pg-doorman-config''))"
proof -
  have off: "\<not> pc_Enabled (NewFromCluster (ce_config hook_ctl_env) disabled_cluster)"
    by (simp add: NewFromCluster_def disabled_cluster_def initial_config_def)
  obtain l' where run: "pre hook_ctl_env empty_server (Inr ''Cluster'') (Inr disabled_cluster) [] = (Inr CONTINUE, l')"
    using off
    by (simp add: pre_def pre_cluster_def Let_def cleanup_def managed_objects_def bindS_def
        delete_ignoring_missing_def delete_object_def empty_server_def fixed_client_def)
  from pre_disabled_cleans_up [OF off run] run off show ?thesis
    by (auto simp: disabled_cluster_def pg_cluster_def RenderedSecretName_def)
qed

lemma pre_enabled:
  assumes "pc_Enabled (NewFromCluster (ce_config R) cluster)"
    and "Validate (ce_config R) (NewFromCluster (ce_config R) cluster) = Inr ()"
  shows "pre_cluster R C cluster l =
    (case get_pgdoorman C (cl_Namespace cluster, pc_ConfigName (NewFromCluster (ce_config R) cluster)) l of
       (Inl e, l1) \<Rightarrow>
         if e = NotFound then (Inr (if cl_CurrentPrimary cluster \<noteq> [] then CONTINUE else REQUEUE 10), l1)
         else (Inl (PreApi e), l1)
     | (Inr pd, l1) \<Rightarrow>
         if ds_ClusterRef (pd_Spec pd) \<noteq> cl_Name cluster
         then (Inl (PreForeign (pd_Name pd) (ds_ClusterRef (pd_Spec pd)) (cl_Name cluster)), l1)
         else bindS (mapErrS PreApi (cleanupLegacyRBAC C cluster)) (\<lambda>_.
           bindS (ensureService R C cluster (pc_PoolerPort (NewFromCluster (ce_config R) cluster))) (\<lambda>_. retS CONTINUE)) l1)"
  using assms
  by (simp add: pre_cluster_def Let_def bindS_def [of "tryS _"] split: prod.split sum.split)

text \<open>A running cluster is never frozen by a missing configuration. When the plugin is enabled with
  accepted parameters and the API server reports the \<open>PgDoorman\<close> missing, the Pre hook makes no further
  call; it lets a cluster that has a primary continue and requeues one that has none after ten seconds.
  In every other case it never asks for a requeue.\<close>

theorem pre_missing_config:
  "if pc_Enabled (NewFromCluster (ce_config R) cluster) \<and>
      accepted_config (ce_config R) (NewFromCluster (ce_config R) cluster) \<and>
      on_get_pgdoorman C l (cl_Namespace cluster, pc_ConfigName (NewFromCluster (ce_config R) cluster)) = Inl NotFound
   then pre R C (Inr ''Cluster'') (Inr cluster) l =
     (Inr (if cl_CurrentPrimary cluster = [] then REQUEUE 10 else CONTINUE),
      l @ [GetPgDoorman (cl_Namespace cluster, pc_ConfigName (NewFromCluster (ce_config R) cluster)) (Inl NotFound)])
   else (\<forall>n l'. pre R C (Inr ''Cluster'') (Inr cluster) l \<noteq> (Inr (REQUEUE n), l'))"
proof (cases "pc_Enabled (NewFromCluster (ce_config R) cluster) \<and>
    accepted_config (ce_config R) (NewFromCluster (ce_config R) cluster)")
  case True
  then have "Validate (ce_config R) (NewFromCluster (ce_config R) cluster) = Inr ()"
    by (simp add: Validate_accepts)
  note unfold = pre_enabled [OF _ this]
  from True show ?thesis
    by (auto simp: pre_def unfold get_pgdoorman_def Let_def bindS_Inr_iff split: sum.splits)
next
  case False
  have "pre R C (Inr ''Cluster'') (Inr cluster) l \<noteq> (Inr (REQUEUE n), l')" for n l'
  proof
    assume run: "pre R C (Inr ''Cluster'') (Inr cluster) l = (Inr (REQUEUE n), l')"
    then have on: "pc_Enabled (NewFromCluster (ce_config R) cluster)"
      using pre_cluster_disabled [of R cluster C l "REQUEUE n" l'] by (auto simp: pre_def)
    with False have "Validate (ce_config R) (NewFromCluster (ce_config R) cluster) \<noteq> Inr ()"
      by (simp add: Validate_accepts)
    with run on show False
      by (cases "Validate (ce_config R) (NewFromCluster (ce_config R) cluster)")
         (auto simp: pre_def pre_cluster_def Let_def)
  qed
  with False show ?thesis by auto
qed

section \<open>The pooler Service\<close>

definition service_ok :: "Cluster \<Rightarrow> int \<Rightarrow> Service \<Rightarrow> bool" where
  "service_ok cluster port svc \<longleftrightarrow>
     sv_Selector svc = [''cnpg.io/cluster'' \<mapsto> cl_Name cluster, ''cnpg.io/instanceRole'' \<mapsto> ''primary''] \<and>
     sv_Ports svc = [\<lparr>sp_Name = ''pooler'', sp_Port = 5432, sp_TargetPort = go_int32 port, sp_Protocol = ''TCP''\<rparr>]"

text \<open>The Service follows the primary. If \<open>ensureService\<close> succeeds, the Service it found was already
  right, or the one it sent to the API server selects the cluster's primary and targets the configured
  port, keeping the rest of a patched Service; once such a Service is stored the next run writes nothing.\<close>

theorem ensureService_correct:
  assumes "ensureService R C cluster port [] = (Inr (), l)"
  shows "\<exists>svc. service_ok cluster port svc \<and>
    (l = [GetService (cl_Namespace cluster, GetServiceName (cl_Name cluster)) (Inr svc)] \<or>
     l = [GetService (cl_Namespace cluster, GetServiceName (cl_Name cluster)) (Inl NotFound), CreateService svc None] \<or>
     (\<exists>old. l = [GetService (cl_Namespace cluster, GetServiceName (cl_Name cluster)) (Inr old), PatchService old svc None] \<and>
        svc\<lparr>sv_Selector := sv_Selector old, sv_Ports := sv_Ports old\<rparr> = old)) \<and>
    (\<forall>C' l'. on_get_service C' l' (cl_Namespace cluster, GetServiceName (cl_Name cluster)) = Inr svc \<longrightarrow>
       ensureService R C' cluster port l' =
         (Inr (), l' @ [GetService (cl_Namespace cluster, GetServiceName (cl_Name cluster)) (Inr svc)]))"
proof -
  have again: "service_ok cluster port svc \<Longrightarrow>
      on_get_service C' l' (cl_Namespace cluster, GetServiceName (cl_Name cluster)) = Inr svc \<Longrightarrow>
      ensureService R C' cluster port l' =
        (Inr (), l' @ [GetService (cl_Namespace cluster, GetServiceName (cl_Name cluster)) (Inr svc)])" for svc C' l'
    by (simp add: ensureService_def Let_def bindS_def get_service_def BuildDoormanService_def service_ok_def)
  let ?a = "on_get_service C [] (cl_Namespace cluster, GetServiceName (cl_Name cluster))"
  have "\<exists>svc. service_ok cluster port svc \<and>
    (l = [GetService (cl_Namespace cluster, GetServiceName (cl_Name cluster)) (Inr svc)] \<or>
     l = [GetService (cl_Namespace cluster, GetServiceName (cl_Name cluster)) (Inl NotFound), CreateService svc None] \<or>
     (\<exists>old. l = [GetService (cl_Namespace cluster, GetServiceName (cl_Name cluster)) (Inr old), PatchService old svc None] \<and>
        svc\<lparr>sv_Selector := sv_Selector old, sv_Ports := sv_Ports old\<rparr> = old))"
  proof (cases ?a)
    case (Inl e)
    with assms show ?thesis
      by (auto simp: ensureService_def Let_def bindS_def get_service_def BuildDoormanService_def service_ok_def
          create_service_def split: if_splits sum.splits)
  next
    case (Inr svc)
    with assms show ?thesis
      by (auto simp: ensureService_def Let_def bindS_def get_service_def BuildDoormanService_def service_ok_def
          patch_service_def split: if_splits)
  qed
  with again show ?thesis by blast
qed

theorem ensureService_correct_witness:
  "\<exists>l. ensureService hook_ctl_env empty_server (pg_cluster Map.empty) 6432 [] = (Inr (), l) \<and>
     (\<exists>svc. service_ok (pg_cluster Map.empty) 6432 svc \<and> CreateService svc None \<in> set l)"
proof -
  obtain l where run: "ensureService hook_ctl_env empty_server (pg_cluster Map.empty) 6432 [] = (Inr (), l)"
    and two: "length l = 2" "hd l = GetService (''ns'', GetServiceName ''pg'') (Inl NotFound)"
    by (simp add: ensureService_def Let_def bindS_def get_service_def create_service_def BuildDoormanService_def
        empty_server_def fixed_client_def hook_ctl_env_def pg_cluster_def)
  from ensureService_correct [OF run] two run show ?thesis
    by (auto simp: pg_cluster_def)
qed

end
