(* ===== verification/Plugin_Main.thy ===== *)
theory Plugin_Main
  imports Binary_Server Render_Safety Operator_Hooks
begin

text \<open>
  The plugin's entry point, \<open>main.go\<close> and \<open>cmd/plugin/plugin.go\<close>: the flags, the scheme, the order in which \<open>RunE\<close> builds the manager and
  what it adds to it, the services of the hook server, and the narrowed cache of Secrets, with what the narrowing means for the
  controller.

  Manager, cobra, viper and the gRPC server are third-party code. What \<open>RunE\<close> sees of the manager is which of its calls fail, a
  parameter; viper is a function from the name of a flag to its value. Of the manager's client the model uses the documented behaviour that a
  read of a type with a label selector in the cache options finds only matching objects.
\<close>

section \<open>Flags\<close>

datatype flag = BoolFlag bool | StringFlag string

text \<open>The flags \<open>NewCmd\<close> adds and binds, with their defaults; those of the TLS pairs come from the machinery's command.\<close>

definition NewCmd_flags :: "(string \<times> flag) list" where
  "NewCmd_flags =
     [(''leader-elect'', BoolFlag False), (''health-probe-bind-address'', StringFlag '':8081''),
      (''metrics-bind-address'', StringFlag '':8080''), (''binary-bind-address'', StringFlag '':9091''),
      (''binary-base-url'', StringFlag []), (''binary-ca-file'', StringFlag [])]"

record viper =
  vp_GetString :: "string \<Rightarrow> string"
  vp_GetBool :: "string \<Rightarrow> bool"

text \<open>Viper's documented behaviour on bound flags: the value given on the command line, otherwise the flag's default. \<open>others\<close> are
  the machinery's own flags.\<close>

definition bound_flags :: "(string \<rightharpoonup> flag) \<Rightarrow> (string \<Rightarrow> string) \<Rightarrow> viper" where
  "bound_flags given others =
     (let find_flag = (\<lambda>name. case given name of Some v \<Rightarrow> Some v | None \<Rightarrow> map_of NewCmd_flags name)
      in \<lparr>vp_GetString = (\<lambda>name. case find_flag name of Some (StringFlag s) \<Rightarrow> s | _ \<Rightarrow> others name),
          vp_GetBool = (\<lambda>name. find_flag name = Some (BoolFlag True))\<rparr>)"

section \<open>The scheme\<close>

type_synonym scheme = "(string \<times> string \<times> string) set" \<comment> \<open>group, version and kind\<close>

definition GroupVersion :: "string \<times> string" where "GroupVersion = (''pg-doorman.cnpg.io'', ''v1alpha1'')"

text \<open>\<open>meta\<close> are the kinds that \<open>metav1.AddToGroupVersion\<close> adds for a group and version.\<close>

definition addKnownTypes :: "(string \<times> string \<Rightarrow> scheme) \<Rightarrow> scheme \<Rightarrow> scheme" where
  "addKnownTypes meta s =
     s \<union> (\<lambda>kind. (fst GroupVersion, snd GroupVersion, kind)) ` {''PgDoorman'', ''PgDoormanList''} \<union> meta GroupVersion"

definition init_scheme :: "scheme \<Rightarrow> (string \<times> string \<Rightarrow> scheme) \<Rightarrow> scheme \<Rightarrow> scheme" where
  "init_scheme clientgo meta cnpg = addKnownTypes meta ({} \<union> clientgo) \<union> cnpg"

section \<open>The cache\<close>

definition secretLabelSelector :: "(string \<rightharpoonup> string) \<Rightarrow> bool" where
  "secretLabelSelector labels \<longleftrightarrow> labels ClusterLabel \<noteq> None"

definition cached_client :: "client \<Rightarrow> client" where
  "cached_client C =
     C\<lparr>on_get_secret := (\<lambda>l k.
         case on_get_secret C l k of
           Inl e \<Rightarrow> Inl e
         | Inr s \<Rightarrow> if secretLabelSelector (se_Labels s) then Inr s else Inl NotFound)\<rparr>"

section \<open>The hook server\<close>

record CNPGI =
  cn_PluginPath :: string
  cn_ServerCertPath :: string
  cn_ServerKeyPath :: string
  cn_ClientCertPath :: string
  cn_ServerAddress :: string

record hook_server =
  hk_Services :: "plugin_service list"
  hk_Config :: CNPGI

text \<open>\<open>enrich\<close> registers the services on the gRPC server; the machinery adds the identity service. \<open>start\<close> is the machinery's
  server.\<close>

definition enrich :: "plugin_service list" where
  "enrich = [ReconcilerHooks, LifecycleService, OperatorService]"

definition CNPGI_Start :: "(hook_server \<Rightarrow> 'r) \<Rightarrow> CNPGI \<Rightarrow> 'r" where
  "CNPGI_Start start c = start \<lparr>hk_Services = enrich, hk_Config = c\<rparr>"

section \<open>Assembling the manager\<close>

record manager_options =
  mx_Metrics :: string
  mx_HealthProbe :: string
  mx_LeaderElection :: bool
  mx_LeaderElectionID :: string
  mx_ReleaseOnCancel :: bool
  mx_SecretSelector :: "(string \<rightharpoonup> string) \<Rightarrow> bool"
  mx_Uncached :: "string list"

definition manager_options_of :: "viper \<Rightarrow> manager_options" where
  "manager_options_of F =
     \<lparr>mx_Metrics = vp_GetString F ''metrics-bind-address'', mx_HealthProbe = vp_GetString F ''health-probe-bind-address'',
      mx_LeaderElection = vp_GetBool F ''leader-elect'', mx_LeaderElectionID = ''pg-doorman.cnpg.io'',
      mx_ReleaseOnCancel = True, mx_SecretSelector = secretLabelSelector,
      mx_Uncached = [''Role'', ''RoleBinding'', ''Service'']\<rparr>"

record manager_calls =
  mg_New :: "manager_options \<Rightarrow> string option"
  mg_Setup :: "string option"
  mg_Healthz :: "string option"
  mg_Readyz :: "string option"
  mg_AddHooks :: "string option"
  mg_AddServer :: "string option"
  mg_Start :: "string option"

datatype plugin_error = ManagerError string | ManifestError io_error

datatype runnable =
    RenderedConfigReconciler "BinarySpec option"
  | HookServer CNPGI
  | BinaryServer Server

definition mgr_call :: "string option \<Rightarrow> ('s, plugin_error, unit) st" where
  "mgr_call r = (case r of None \<Rightarrow> retS () | Some e \<Rightarrow> throwS (ManagerError e))"

definition hooks_of :: "viper \<Rightarrow> CNPGI" where
  "hooks_of F =
     \<lparr>cn_PluginPath = vp_GetString F ''plugin-path'', cn_ServerCertPath = vp_GetString F ''server-cert'',
      cn_ServerKeyPath = vp_GetString F ''server-key'', cn_ClientCertPath = vp_GetString F ''client-cert'',
      cn_ServerAddress = vp_GetString F ''server-address''\<rparr>"

definition server_of :: "viper \<Rightarrow> Server" where
  "server_of F =
     \<lparr>sr_Dir = DefaultDir, sr_Addr = vp_GetString F ''binary-bind-address'', sr_CertPath = vp_GetString F ''server-cert'',
      sr_KeyPath = vp_GetString F ''server-key''\<rparr>"

text \<open>The result is what the manager runs when it is started.\<close>

definition RunE ::
  "bin_env \<Rightarrow> (string \<Rightarrow> io_error + dir_entry list) \<Rightarrow> manager_calls \<Rightarrow> viper \<Rightarrow>
   ('z sys_scheme, plugin_error, runnable list) st" where
  "RunE E readDir M F =
     bindS (mgr_call (mg_New M (manager_options_of F))) (\<lambda>_.
     bindS (mapErrS ManifestError
       (loadBinarySpec E readDir (vp_GetString F ''binary-base-url'') (vp_GetString F ''binary-ca-file''))) (\<lambda>binarySpec.
     bindS (mgr_call (mg_Setup M)) (\<lambda>_.
     bindS (mgr_call (mg_Healthz M)) (\<lambda>_.
     bindS (mgr_call (mg_Readyz M)) (\<lambda>_.
     bindS (mgr_call (mg_AddHooks M)) (\<lambda>_.
     let addr = vp_GetString F ''binary-bind-address'';
         base = [RenderedConfigReconciler binarySpec, HookServer (hooks_of F)]
     in bindS (if binarySpec \<noteq> None \<and> addr \<noteq> [] \<and> addr \<noteq> ''0''
               then bindS (mgr_call (mg_AddServer M)) (\<lambda>_. retS (base @ [BinaryServer (server_of F)]))
               else retS base) (\<lambda>rs.
        bindS (mgr_call (mg_Start M)) (\<lambda>_. retS rs))))))))"

text \<open>Which runnables wait for leadership; a controller does unless it says otherwise.\<close>

fun NeedLeaderElection :: "runnable \<Rightarrow> bool" where
  "NeedLeaderElection (RenderedConfigReconciler _) = True"
| "NeedLeaderElection (HookServer _) = False"
| "NeedLeaderElection (BinaryServer _) = False"

text \<open>The exit code of the program: a cancellation is not a failure.\<close>

definition main_exit :: "('e \<Rightarrow> bool) \<Rightarrow> 'e option \<Rightarrow> nat" where
  "main_exit isCanceled err = (case err of None \<Rightarrow> 0 | Some e \<Rightarrow> if \<not> isCanceled e then 1 else 0)"

section \<open>What is run\<close>

lemma mgr_call_ok [simp]: "mgr_call r s = (Inr u, s') \<longleftrightarrow> r = None \<and> s' = s"
  by (auto simp: mgr_call_def split: option.split)

lemma RunE_result:
  assumes "RunE E readDir M F s = (Inr rs, s')"
  obtains spec where
    "loadBinarySpec E readDir (vp_GetString F ''binary-base-url'') (vp_GetString F ''binary-ca-file'') s = (Inr spec, s')"
    "rs = [RenderedConfigReconciler spec, HookServer (hooks_of F)] @
      (if spec \<noteq> None \<and> vp_GetString F ''binary-bind-address'' \<notin> {[], ''0''} then [BinaryServer (server_of F)] else [])"
  using assms unfolding RunE_def Let_def bindS_Inr_iff mapErrS_iff by (auto simp: bindS_Inr_iff split: if_splits)

text \<open>(C27) What a replica runs is what the plugin announces. When the manager starts, every replica, with leadership or without, serves
  exactly the services that the identity declares, and the binary endpoint if and only if delivery is published and an address is set.
  Whatever digest the controller then publishes for an architecture is the digest of the file that the endpoint serves for
  it.\<close>

theorem RunE_serves:
  assumes "RunE E readDir M F s = (Inr rs, s')"
  shows "\<exists>spec. RenderedConfigReconciler spec \<in> set rs \<and>
    filter (Not \<circ> NeedLeaderElection) rs = HookServer (hooks_of F) #
      (if spec \<noteq> None \<and> vp_GetString F ''binary-bind-address'' \<notin> {[], ''0''} then [BinaryServer (server_of F)] else []) \<and>
    set (CNPGI_Start hk_Services (hooks_of F)) = set GetPluginCapabilities \<and>
    (\<forall>sp arch d. spec = Some sp \<and> map_of (bs_SHA256 sp) arch = Some d \<longrightarrow>
       (\<exists>f. sy_fs s (binary_path (sr_Dir (server_of F)) arch) = Some f \<and> d = be_sha256 E (fi_data f)))"
proof -
  from RunE_result [OF assms] obtain spec where
    spec: "loadBinarySpec E readDir (vp_GetString F ''binary-base-url'') (vp_GetString F ''binary-ca-file'') s = (Inr spec, s')"
    and rs: "rs = [RenderedConfigReconciler spec, HookServer (hooks_of F)] @
      (if spec \<noteq> None \<and> vp_GetString F ''binary-bind-address'' \<notin> {[], ''0''} then [BinaryServer (server_of F)] else [])" .
  have "set (CNPGI_Start hk_Services (hooks_of F)) = set GetPluginCapabilities"
    by (auto simp: CNPGI_Start_def enrich_def GetPluginCapabilities_def)
  moreover have "\<exists>f. sy_fs s (binary_path (sr_Dir (server_of F)) arch) = Some f \<and> d = be_sha256 E (fi_data f)"
    if "spec = Some sp" "map_of (bs_SHA256 sp) arch = Some d" for sp arch d
    using loadBinarySpec_sound [of E readDir _ _ s sp s' arch d] spec that by (simp add: server_of_def)
  ultimately show ?thesis using rs by (intro exI [of _ spec]) auto
qed

text \<open>Without flags delivery is off, and leader election with it: nothing but the controller and the hooks runs.\<close>

lemma RunE_defaults:
  assumes "RunE E readDir M (bound_flags Map.empty others) s = (Inr rs, s')"
  shows "rs = [RenderedConfigReconciler None, HookServer (hooks_of (bound_flags Map.empty others))] \<and>
    \<not> mx_LeaderElection (manager_options_of (bound_flags Map.empty others))"
proof -
  have url: "vp_GetString (bound_flags Map.empty others) ''binary-base-url'' = []"
    by (simp add: bound_flags_def NewCmd_flags_def)
  from RunE_result [OF assms] obtain spec where
    "loadBinarySpec E readDir [] (vp_GetString (bound_flags Map.empty others) ''binary-ca-file'') s = (Inr spec, s')"
    and rs: "rs = [RenderedConfigReconciler spec, HookServer (hooks_of (bound_flags Map.empty others))] @
      (if spec \<noteq> None \<and> vp_GetString (bound_flags Map.empty others) ''binary-bind-address'' \<notin> {[], ''0''}
       then [BinaryServer (server_of (bound_flags Map.empty others))] else [])"
    unfolding url .
  then have "spec = None" by (auto simp: loadBinarySpec_def bindS_Inr_iff split: option.splits)
  with rs show ?thesis by (simp add: manager_options_of_def bound_flags_def NewCmd_flags_def)
qed

text \<open>The controller's own kinds are known to the client.\<close>

lemma scheme_kinds: "(''pg-doorman.cnpg.io'', ''v1alpha1'', ''PgDoorman'') \<in> init_scheme clientgo meta cnpg"
  by (simp add: init_scheme_def addKnownTypes_def GroupVersion_def)

section \<open>The narrowed cache changes no decision\<close>

lemma cached_owner:
  assumes "clusterName \<noteq> []"
  shows "check_secret_owner (cached_client C) ns clusterName name l = (Inr (), l') \<longleftrightarrow>
    check_secret_owner C ns clusterName name l = (Inr (), l')"
  using assms
  by (auto simp: check_secret_owner_def cached_client_def get_secret_def secretLabelSelector_def bindS_def lookup_str_def Let_def
      split: sum.splits api_error.splits option.splits if_splits)

text \<open>(C26) Narrowing the cache changes no decision. Over any API server, the ownership check through the
  label-restricted cache accepts exactly when it accepts reading every Secret, and then it made the same reads; so
  only refusals look different.\<close>

theorem narrowed_cache_decides:
  assumes "clusterName \<noteq> []"
  shows "validateSecretOwnership (cached_client C) pd spec clusterName l = (Inr (), l') \<longleftrightarrow>
    validateSecretOwnership C pd spec clusterName l = (Inr (), l')"
proof -
  have "forS (check_secret_owner (cached_client C) ns clusterName) names l = (Inr (), l') \<longleftrightarrow>
      forS (check_secret_owner C ns clusterName) names l = (Inr (), l')" for ns names
    by (induction names arbitrary: l) (auto simp: bindS_Inr_iff cached_owner [OF assms])
  then show ?thesis by (simp add: validateSecretOwnership_def)
qed

text \<open>Nothing the plugin writes falls out of the cache.\<close>

lemma own_secrets_cached:
  "secretLabelSelector (se_Labels (desired_secret cluster data admin json))"
  "secretLabelSelector (se_Labels (generated_auth_secret cluster user password))"
  by (simp_all add: secretLabelSelector_def desired_secret_def generated_auth_secret_def)

section \<open>A rendered Secret that lost its label\<close>

text \<open>(C39) A rendered Secret without the label blocks rendering. If the label was removed from the stored Secret, the
  controller does not see it through the cache and tries to create it; the API server refuses, as the name is taken, and
  \<open>upsertSecret\<close> fails with that error, in this and every later run. Reading without the cache, the same call restores
  the label.\<close>

theorem unlabelled_secret_blocks:
  assumes "on_get_secret C l (cl_Namespace cluster, RenderedSecretName (cl_Name cluster)) = Inr stored"
    and "se_Labels stored ClusterLabel = None" 
    and "\<And>l s. se_Namespace s = cl_Namespace cluster \<Longrightarrow> se_Name s = RenderedSecretName (cl_Name cluster) \<Longrightarrow>
      on_create_secret C l s = Some AlreadyExists"
    and "\<And>l s t. on_patch_secret C l s t = None"
    and "binarySpecJSON R inPlace = Inr json" and "ce_SetControllerReference R cluster None = Inr owner"
    and "lookup_str (se_Data stored) ConfigKey \<noteq> data"
  shows "fst (upsertSecret R (cached_client C) cluster data admin inPlace l) = Inl (EApi AlreadyExists) \<and>
    (\<exists>new l'. upsertSecret R C cluster data admin inPlace l = (Inr (), l') \<and>
       PatchSecret stored new None \<in> set l' \<and> se_Labels new ClusterLabel = Some (cl_Name cluster))"
  using assms
  by (auto simp: upsertSecret_def cached_client_def get_secret_def create_secret_def patch_secret_def secretLabelSelector_def
      desired_secret_def bindS_def Let_def)

section \<open>Instances\<close>

definition labels_client :: "(string \<rightharpoonup> string) \<Rightarrow> client" where
  "labels_client labels =
     (fixed_client
       [(''ns'', ''s1'') \<mapsto> (plain_secret ''ns'' ''s1'' ''one''),
        (''ns'', RenderedSecretName ''pg'') \<mapsto> (plain_secret ''ns'' (RenderedSecretName ''pg'') [])\<lparr>se_Labels := labels\<rparr>]
       Map.empty Map.empty Map.empty)\<lparr>on_create_secret := (\<lambda>_ _. Some AlreadyExists)\<rparr>"

theorem narrowed_cache_witness:
  "fst (validateSecretOwnership (cached_client (labels_client Map.empty)) (example_pd [] False [])
     (pd_Spec (example_pd [] False [])) ''pg'' []) = Inr ()"
proof -
  let ?pd = "example_pd [] False []"
  have "fst (validateSecretOwnership (labels_client Map.empty) ?pd (pd_Spec ?pd) ''pg'' []) = Inr ()" by code_simp
  then obtain l' where "validateSecretOwnership (labels_client Map.empty) ?pd (pd_Spec ?pd) ''pg'' [] = (Inr (), l')"
    by (metis prod.collapse)
  with narrowed_cache_decides [of "''pg''" "labels_client Map.empty" ?pd "pd_Spec ?pd" "[]" l'] show ?thesis by simp
qed

theorem unlabelled_secret_witness:
  "fst (upsertSecret example_env (cached_client (labels_client Map.empty)) (example_cluster ''doorman'') ''yaml'' ''pw'' False []) =
     Inl (EApi AlreadyExists)"
proof -
  let ?c = "example_cluster ''doorman''" and ?C = "labels_client Map.empty"
  let ?stored = "(plain_secret ''ns'' (RenderedSecretName ''pg'') [])\<lparr>se_Labels := Map.empty\<rparr>"
  have "RenderedSecretName ''pg'' \<noteq> ''s1''" by code_simp
  then have get: "on_get_secret ?C [] (cl_Namespace ?c, RenderedSecretName (cl_Name ?c)) = Inr ?stored"
    by (simp add: labels_client_def fixed_client_def example_cluster_def)
  have calls: "on_create_secret ?C l s = Some AlreadyExists" "on_patch_secret ?C l s t = None" for l s t
    by (simp_all add: labels_client_def fixed_client_def)
  have env: "se_Labels ?stored ClusterLabel = None" "binarySpecJSON example_env False = Inr None"
    "ce_SetControllerReference example_env ?c None = Inr (Some ''pg'')" "lookup_str (se_Data ?stored) ConfigKey \<noteq> ''yaml''"
    by (simp_all add: binarySpecJSON_def example_env_def example_cluster_def plain_secret_def lookup_str_def ConfigKey_def)
  from unlabelled_secret_blocks [OF get env(1) calls env(2-4)] show ?thesis by blast
qed

definition all_well :: manager_calls where
  "all_well = \<lparr>mg_New = (\<lambda>_. None), mg_Setup = None, mg_Healthz = None, mg_Readyz = None, mg_AddHooks = None,
     mg_AddServer = None, mg_Start = None\<rparr>"

definition demo_flags :: viper where
  "demo_flags = bound_flags [''binary-base-url'' \<mapsto> StringFlag ''https://plugin''] (\<lambda>_. ''path'')"

theorem RunE_serves_witness:
  "\<exists>rs. fst (RunE demo_bin demo_read_dir all_well demo_flags demo_plugin_files) = Inr rs \<and>
    filter (Not \<circ> NeedLeaderElection) rs = [HookServer (hooks_of demo_flags), BinaryServer (server_of demo_flags)]"
proof -
  let ?run = "RunE demo_bin demo_read_dir all_well demo_flags demo_plugin_files"
  have "map_sum id (list_ex (\<lambda>r. r = BinaryServer (server_of demo_flags))) (fst ?run) = Inr True" by code_simp
  then obtain rs s' where run: "?run = (Inr rs, s')"
    and r: "BinaryServer (server_of demo_flags) \<in> set (filter (Not \<circ> NeedLeaderElection) rs)"
    by (cases ?run; cases "fst ?run") (auto simp: list_ex_iff)
  obtain spec :: "BinarySpec option" where f: "filter (Not \<circ> NeedLeaderElection) rs = HookServer (hooks_of demo_flags) #
      (if spec \<noteq> None \<and> vp_GetString demo_flags ''binary-bind-address'' \<notin> {[], ''0''}
       then [BinaryServer (server_of demo_flags)] else [])"
    using RunE_serves [OF run] by (elim exE conjE) (rule that)
  show ?thesis
    using r unfolding run f by (auto simp: f simp del: filter.simps split: if_splits)
qed

end
