(* ===== verification/Supervisor.thy ===== *)
theory Supervisor
  imports Process
begin

text \<open>
  The supervisor: \<open>RunWithRestart\<close> of \<open>internal/wrapper/process.go\<close> together with the goroutines around it, as a
  step relation.

  \<^item> \<open>run_step\<close> is one step of the main loop: the code between two points where it blocks or takes the mutex. A
    goroutine that is blocked is one that is not scheduled.
  \<^item> \<open>task_step\<close> is one step of a helper goroutine: the pending \<open>context.AfterFunc\<close>, \<open>terminateIfAdopted\<close> and its
    timer, where \<open>killAdopted\<close> checks under the mutex and kills after it, and the goroutine of \<open>exec.Cmd\<close> that runs
    \<open>Cancel\<close> and enforces \<open>WaitDelay\<close> for a direct child.
  \<^item> \<open>sup_step\<close> interleaves them with each other, with the calls of the watchers and with changes of the files.

  The context is cancelled when \<open>px_done\<close> says so of the log; as it is an arbitrary function, cancellation may
  come at any event.
\<close>

section \<open>State\<close>

datatype pc =
    PStart
  | PStartFailed
  | PWait
  | PWaitCmd int
  | PWait4 int int
  | PGone int int "int option"
  | PExited
  | PAdopt int
  | PResync
  | PSweep
  | PCrash
  | PBackoff
  | PDone

datatype task =
    TAfter
  | TTerm
  | TCheck int signal
  | TKill int signal
  | TArm int
  | TTimer int int
  | TCancel int int
  | TCmdKill int int

record supervisor =
  su_pc :: pc
  su_backoff :: int
  su_startedAt :: int
  su_pid :: int
  su_restarts :: nat
  su_upgraded :: nat
  su_upgradeFailed :: nat
  su_tasks :: "task list"
  su_proc :: process

section \<open>The main loop\<close>

definition child_task :: "process \<Rightarrow> task list" where
  "child_task s =
     (case p_cmd s of
        None \<Rightarrow> []
      | Some c \<Rightarrow> (case cm_Pid c of None \<Rightarrow> [] | Some pid \<Rightarrow> [TCancel pid (cm_WaitDelay c)]))"

fun is_child_task :: "task \<Rightarrow> bool" where
  "is_child_task (TCancel _ _) = True"
| "is_child_task (TCmdKill _ _) = True"
| "is_child_task _ = False"

definition run_start :: "proc_env \<Rightarrow> supervisor \<Rightarrow> supervisor" where
  "run_start P u =
     (let (t, s1) = now P (su_proc u);
          (r, s2) = Start P s1;
          u1 = u\<lparr>su_startedAt := t, su_proc := s2\<rparr>
      in case r of
           Inl _ \<Rightarrow> u1\<lparr>su_pc := (if px_done P (p_log s2) then PDone else PStartFailed)\<rparr>
         | Inr _ \<Rightarrow> u1\<lparr>su_pid := pidLocked s2, su_tasks := su_tasks u @ child_task s2, su_pc := PWait\<rparr>)"

definition run_start_failed :: "proc_env \<Rightarrow> supervisor \<Rightarrow> supervisor" where
  "run_start_failed P u =
     (if px_done P (p_log (su_proc u)) then u\<lparr>su_pc := PDone\<rparr>
      else u\<lparr>su_proc := sleep (su_backoff u) (su_proc u),
             su_backoff := min (wrap64 (su_backoff u * backoffMultiplier)) maxBackoff, su_pc := PStart\<rparr>)"

definition run_wait :: "proc_env \<Rightarrow> supervisor \<Rightarrow> supervisor" where
  "run_wait P u =
     (let s = su_proc u;
          u1 = u\<lparr>su_tasks := su_tasks u @ [TAfter]\<rparr>
      in if p_adoptedPid s \<noteq> 0
         then (let (delay, s1) = waitDelay P s in u1\<lparr>su_proc := s1, su_pc := PWait4 (p_adoptedPid s) delay\<rparr>)
         else (case p_cmd s of
                 None \<Rightarrow> u1\<lparr>su_pc := PExited\<rparr>
               | Some c \<Rightarrow> (case cm_Pid c of
                     None \<Rightarrow> u1\<lparr>su_pc := PExited\<rparr> | Some pid \<Rightarrow> u1\<lparr>su_pc := PWaitCmd pid\<rparr>)))"

definition run_wait_cmd :: "int \<Rightarrow> supervisor \<Rightarrow> supervisor" where
  "run_wait_cmd pid u =
     u\<lparr>su_proc := log_ev (ChildExit pid) (su_proc u),
       su_tasks := filter (Not \<circ> is_child_task) (su_tasks u), su_pc := PExited\<rparr>"

definition finish_wait :: "int \<Rightarrow> process \<Rightarrow> supervisor \<Rightarrow> supervisor" where
  "finish_wait pid s u =
     u\<lparr>su_proc := (if p_adoptedPid s = pid then s\<lparr>p_adoptedPid := 0\<rparr> else s), su_pc := PExited\<rparr>"

definition run_wait4 :: "proc_env \<Rightarrow> int \<Rightarrow> int \<Rightarrow> supervisor \<Rightarrow> supervisor" where
  "run_wait4 P pid drain u =
     (let r = px_wait4 P (p_log (su_proc u)) pid;
          s1 = log_ev (Wait4 pid r) (su_proc u)
      in case r of
           EINTR \<Rightarrow> u\<lparr>su_proc := s1\<rparr>
         | ECHILD \<Rightarrow> u\<lparr>su_proc := s1, su_pc := PGone pid drain None\<rparr>
         | _ \<Rightarrow> finish_wait pid s1 u)"

definition run_gone :: "proc_env \<Rightarrow> int \<Rightarrow> int \<Rightarrow> int option \<Rightarrow> supervisor \<Rightarrow> supervisor" where
  "run_gone P pid drain giveUp u =
     (case gone_poll P pid drain giveUp (su_proc u) of
        (Inl _, s1) \<Rightarrow> finish_wait pid s1 u
      | (Inr giveUp1, s1) \<Rightarrow> u\<lparr>su_proc := s1, su_pc := PGone pid drain giveUp1\<rparr>)"

definition run_exited :: "proc_env \<Rightarrow> supervisor \<Rightarrow> supervisor" where
  "run_exited P u =
     (let u1 = u\<lparr>su_tasks := filter (\<lambda>t. t \<noteq> TAfter) (su_tasks u)\<rparr> in
      if px_done P (p_log (su_proc u)) then u1\<lparr>su_pc := PDone\<rparr>
      else
        let (fresh, s1) = consumeUpgradeRequest P (su_proc u) in
        if fresh then (let (t, s2) = now P s1 in u1\<lparr>su_proc := s2, su_pc := PAdopt (t + px_successorTimeout P)\<rparr>)
        else u1\<lparr>su_proc := s1, su_pc := PCrash\<rparr>)"

definition run_adopt :: "proc_env \<Rightarrow> int \<Rightarrow> supervisor \<Rightarrow> supervisor" where
  "run_adopt P deadline u =
     (let (r, s1) = adopt_poll P (su_pid u) deadline (su_proc u);
          u1 = u\<lparr>su_proc := s1\<rparr>
      in case r of
           None \<Rightarrow> u1
         | Some True \<Rightarrow> u1\<lparr>su_upgraded := su_upgraded u + 1, su_pc := PResync\<rparr>
         | Some False \<Rightarrow> u1\<lparr>su_upgradeFailed := su_upgradeFailed u + 1, su_pc := PSweep\<rparr>)"

definition run_resync :: "proc_env \<Rightarrow> supervisor \<Rightarrow> supervisor" where
  "run_resync P u =
     (let s1 = snd (Reload P (su_proc u));
          (t, s2) = now P s1
      in u\<lparr>su_proc := s2, su_startedAt := t, su_pid := pidLocked s2, su_pc := PWait\<rparr>)"

definition run_crash :: "proc_env \<Rightarrow> supervisor \<Rightarrow> supervisor" where
  "run_crash P u =
     (let (t, s1) = now P (su_proc u)
      in u\<lparr>su_proc := s1, su_restarts := su_restarts u + 1,
           su_backoff := backoffAfterExit (su_backoff u) (t - su_startedAt u), su_pc := PBackoff\<rparr>)"

definition run_backoff :: "proc_env \<Rightarrow> supervisor \<Rightarrow> supervisor" where
  "run_backoff P u =
     (if px_done P (p_log (su_proc u)) then u\<lparr>su_pc := PDone\<rparr>
      else u\<lparr>su_proc := sleep (su_backoff u) (su_proc u), su_pc := PStart\<rparr>)"

definition run_step :: "proc_env \<Rightarrow> supervisor \<Rightarrow> supervisor" where
  "run_step P u =
     (case su_pc u of
        PStart \<Rightarrow> run_start P u
      | PStartFailed \<Rightarrow> run_start_failed P u
      | PWait \<Rightarrow> run_wait P u
      | PWaitCmd pid \<Rightarrow> run_wait_cmd pid u
      | PWait4 pid drain \<Rightarrow> run_wait4 P pid drain u
      | PGone pid drain giveUp \<Rightarrow> run_gone P pid drain giveUp u
      | PExited \<Rightarrow> run_exited P u
      | PAdopt deadline \<Rightarrow> run_adopt P deadline u
      | PResync \<Rightarrow> run_resync P u
      | PSweep \<Rightarrow> u\<lparr>su_proc := sweepStrays P (su_proc u), su_pc := PCrash\<rparr>
      | PCrash \<Rightarrow> run_crash P u
      | PBackoff \<Rightarrow> run_backoff P u
      | PDone \<Rightarrow> u)"

section \<open>The helper goroutines\<close>

definition after_kill :: "int \<Rightarrow> signal \<Rightarrow> task list" where
  "after_kill pid sig = (if sig = SIGTERM then [TArm pid] else [])"

fun task_step :: "proc_env \<Rightarrow> task \<Rightarrow> process \<Rightarrow> task list \<times> process" where
  "task_step P TAfter s = (if px_done P (p_log s) then ([TTerm], s) else ([TAfter], s))"
| "task_step P TTerm s = (if p_adoptedPid s = 0 then ([], s) else ([TCheck (p_adoptedPid s) SIGTERM], s))"
| "task_step P (TCheck pid sig) s =
     (if killAdopted_check pid s then ([TKill pid sig], s) else (after_kill pid sig, s))"
| "task_step P (TKill pid sig) s = (after_kill pid sig, snd (sys_kill P pid sig s))"
| "task_step P (TArm pid) s =
     (let (delay, s1) = waitDelay P s; (t, s2) = now P s1 in ([TTimer pid (t + delay)], s2))"
| "task_step P (TTimer pid deadline) s =
     (let (t, s1) = now P s in if t \<ge> deadline then ([TCheck pid SIGKILL], s1) else ([TTimer pid deadline], s1))"
| "task_step P (TCancel pid delay) s =
     (if px_done P (p_log s)
      then (let (t, s1) = now P (snd (sys_kill P pid SIGTERM s)) in ([TCmdKill pid (t + delay)], s1))
      else ([TCancel pid delay], s))"
| "task_step P (TCmdKill pid deadline) s =
     (let (t, s1) = now P s in
      if t \<ge> deadline then ([], snd (sys_kill P pid SIGKILL s1)) else ([TCmdKill pid deadline], s1))"

section \<open>Interleaving\<close>

inductive sup_step :: "proc_env \<Rightarrow> supervisor \<Rightarrow> supervisor \<Rightarrow> bool" for P where
  main: "sup_step P u (run_step P u)"
| helper: "su_tasks u = pre @ t # post \<Longrightarrow> task_step P t (su_proc u) = (ts, s) \<Longrightarrow>
    sup_step P u (u\<lparr>su_tasks := pre @ ts @ post, su_proc := s\<rparr>)"
| reload: "sup_step P u (u\<lparr>su_proc := snd (Reload P (su_proc u))\<rparr>)"
| restart: "sup_step P u (u\<lparr>su_proc := snd (Restart P (su_proc u))\<rparr>)"
| upgrade: "sup_step P u (u\<lparr>su_proc := snd (Upgrade P (su_proc u))\<rparr>)"
| in_flight: "sup_step P u (u\<lparr>su_proc := snd (UpgradeInFlight P (su_proc u))\<rparr>)"
| other: "sup_step P u (u\<lparr>su_proc := log_ev (Clock t) ((su_proc u)\<lparr>sy_fs := files, sy_n := n\<rparr>)\<rparr>)"

inductive_simps sup_step_iff: "sup_step P u v"

definition sup_init :: "supervisor \<Rightarrow> bool" where
  "sup_init u \<longleftrightarrow> su_pc u = PStart \<and> su_backoff u = initialBackoff \<and> su_tasks u = [] \<and>
     p_cmd (su_proc u) = None \<and> p_adoptedPid (su_proc u) = 0 \<and> p_log (su_proc u) = []"

section \<open>Which poolers are running, as far as was observed\<close>

text \<open>A pooler is open from its start or adoption until a wait for it reported its end.\<close>

fun open_step :: "int list \<Rightarrow> pevent \<Rightarrow> int list" where
  "open_step ps (Started (Inr pid)) = ps @ [pid]"
| "open_step ps (Adopted pid) = ps @ [pid]"
| "open_step ps (ChildExit pid) = removeAll pid ps"
| "open_step ps (Wait4 pid r) = (if r = EINTR \<or> r = ECHILD then ps else removeAll pid ps)"
| "open_step ps (Kill pid sig r) = (if sig = SIG0 \<and> r = ESRCH then removeAll pid ps else ps)"
| "open_step ps _ = ps"

definition open_pids :: "process \<Rightarrow> int list" where
  "open_pids s = foldl open_step [] (p_log s)"

lemma open_pids_log [simp]: "open_pids (log_ev e s) = open_step (open_pids s) e"
  by (simp add: open_pids_def)

lemma open_pids_fields [simp]:
  "open_pids (s\<lparr>p_cmd := c\<rparr>) = open_pids s" "open_pids (s\<lparr>p_adoptedPid := a\<rparr>) = open_pids s"
  "open_pids (s\<lparr>p_upgradeRequested := b\<rparr>) = open_pids s" "open_pids (s\<lparr>p_upgradeRequestedAt := t\<rparr>) = open_pids s"
  "open_pids (s\<lparr>sy_fs := f\<rparr>) = open_pids s" "open_pids (s\<lparr>sy_n := n\<rparr>) = open_pids s"
  by (simp_all add: open_pids_def)

text \<open>The poolers that were started.\<close>

fun is_start :: "pevent \<Rightarrow> bool" where
  "is_start (Started (Inr pid)) = True"
| "is_start _ = False"

definition starts :: "process \<Rightarrow> pevent list" where
  "starts s = filter is_start (p_log s)"

lemma starts_log [simp]: "starts (log_ev e s) = starts s @ (if is_start e then [e] else [])"
  by (simp add: starts_def)

lemma starts_fields [simp]:
  "starts (s\<lparr>p_cmd := c\<rparr>) = starts s" "starts (s\<lparr>p_adoptedPid := a\<rparr>) = starts s"
  "starts (s\<lparr>p_upgradeRequested := b\<rparr>) = starts s" "starts (s\<lparr>p_upgradeRequestedAt := t\<rparr>) = starts s"
  "starts (s\<lparr>sy_fs := f\<rparr>) = starts s" "starts (s\<lparr>sy_n := n\<rparr>) = starts s"
  by (simp_all add: starts_def)

text \<open>Operations that neither start, adopt nor reap.\<close>

definition calm :: "process \<Rightarrow> process \<Rightarrow> bool" where
  "calm s s' \<longleftrightarrow> open_pids s' = open_pids s \<and> p_cmd s' = p_cmd s \<and> p_adoptedPid s' = p_adoptedPid s \<and>
     starts s' = starts s \<and> (\<exists>l. p_log s' = p_log s @ l)"

lemma calm_refl [simp]: "calm s s"
  by (simp add: calm_def)

lemma calm_trans: "calm s t \<Longrightarrow> calm t v \<Longrightarrow> calm s v"
  by (auto simp: calm_def)

lemma calm_log: "open_step (open_pids s) e = open_pids s \<Longrightarrow> \<not> is_start e \<Longrightarrow> calm s (log_ev e s)"
  by (auto simp: calm_def)

lemma calm_update [simp]:
  "calm s (t\<lparr>p_upgradeRequested := b\<rparr>) = calm s t" "calm s (t\<lparr>p_upgradeRequestedAt := a\<rparr>) = calm s t"
  "calm s (t\<lparr>sy_fs := f\<rparr>) = calm s t" "calm s (t\<lparr>sy_n := n\<rparr>) = calm s t"
  by (simp_all add: calm_def)

lemma calm_sleep [simp]: "calm s (sleep d s)"
  by (simp add: sleep_def calm_log)

lemma calm_now [simp]: "calm s (snd (now P s))"
  by (simp add: now_def Let_def calm_log)

lemma calm_kill [simp]: "sig \<noteq> SIG0 \<Longrightarrow> calm s (snd (sys_kill P pid sig s))"
  by (simp add: sys_kill_def Let_def calm_log)

lemma calm_waitDelay [simp]: "calm s (snd (waitDelay P s))"
  by (auto simp: waitDelay_def ReadFile_def syscall_def Let_def split: option.split)

lemma calm_signal [simp]: "sig \<noteq> SIG0 \<Longrightarrow> calm s (snd (signalLocked P sig s))"
  by (simp add: signalLocked_def Let_def sys_kill_def calm_log split: kill_result.split)

lemma calm_Reload [simp]: "calm s (snd (Reload P s))" and calm_Restart [simp]: "calm s (snd (Restart P s))"
  by (simp_all add: Reload_def Restart_def)

lemma calm_Upgrade [simp]: "calm s (snd (Upgrade P s))"
proof (cases "signalLocked P SIGUSR2 s")
  case (Pair r t)
  then have "calm s t" using calm_signal [of SIGUSR2 s P] by auto
  with Pair calm_trans [OF _ calm_now, of s t P] show ?thesis
    by (simp add: Upgrade_def bindS_def Let_def case_prod_unfold split: sum.split)
qed

lemma calm_fresh [simp]: "calm s (snd (upgradeRequestFreshLocked P s))"
  by (simp add: upgradeRequestFreshLocked_def Let_def case_prod_unfold calm_trans [OF calm_now calm_waitDelay])

lemma calm_in_flight [simp]: "calm s (snd (UpgradeInFlight P s))"
  by (simp add: UpgradeInFlight_def)

lemma calm_consume [simp]: "calm s (snd (consumeUpgradeRequest P s))"
  by (simp add: consumeUpgradeRequest_def case_prod_unfold Let_def)

lemma calm_find [simp]: "calm s (snd (findSuccessorPid P b old s))"
  by (simp add: findSuccessorPid_def Let_def calm_log)

lemma calm_kill_entries [simp]: "calm s (snd (kill_entries P b x es s))"
proof (induction es arbitrary: s)
  case (Cons e es)
  have "calm s (snd (kill_entries P b x es (snd (sys_kill P pid SIGKILL s))))" for pid
    by (rule calm_trans [OF calm_kill Cons.IH]) simp
  with Cons.IH [of s] show ?case by (simp add: Let_def case_prod_unfold split: option.split)
qed simp

lemma calm_strays [simp]: "calm s (snd (killStrays P b x s))"
  by (simp add: killStrays_def Let_def calm_log calm_trans [OF calm_log calm_kill_entries] split: option.split)

lemma calm_sweep [simp]: "calm s (sweepStrays P s)"
  by (simp add: sweepStrays_def)

fun task_ok :: "task \<Rightarrow> bool" where
  "task_ok (TCheck pid sig) = (sig \<noteq> SIG0)"
| "task_ok (TKill pid sig) = (sig \<noteq> SIG0)"
| "task_ok _ = True"

lemma task_step_calm: "task_ok t \<Longrightarrow> calm s (snd (task_step P t s)) \<and> list_all task_ok (fst (task_step P t s))"
  by (cases t) (simp_all add: Let_def case_prod_unfold after_kill_def calm_trans [OF calm_waitDelay calm_now]
    calm_trans [OF calm_kill calm_now] calm_trans [OF calm_now calm_kill])

section \<open>The invariant\<close>

text \<open>What the supervisor relies on: a cancelled context stays cancelled, and no process has the number 0.\<close>

definition ctx_ok :: "proc_env \<Rightarrow> bool" where
  "ctx_ok P \<longleftrightarrow> (\<forall>l e. px_done P l \<longrightarrow> px_done P (l @ [e]))"

definition table_ok :: "proc_env \<Rightarrow> bool" where
  "table_ok P \<longleftrightarrow> (\<forall>l es e. px_proc P l = Some es \<longrightarrow> e \<in> set es \<longrightarrow> Atoi (pe_Name e) \<noteq> Some 0)"

lemma ctx_ok_append: "ctx_ok P \<Longrightarrow> px_done P l \<Longrightarrow> px_done P (l @ l')"
proof (induction l' rule: rev_induct)
  case (snoc e l')
  then show ?case unfolding ctx_ok_def append_assoc [symmetric] by blast
qed simp

lemma calm_done: "ctx_ok P \<Longrightarrow> calm s s' \<Longrightarrow> px_done P (p_log s) \<Longrightarrow> px_done P (p_log s')"
  by (auto simp: calm_def ctx_ok_append)

definition has_process :: "process \<Rightarrow> bool" where
  "has_process s \<longleftrightarrow> p_adoptedPid s \<noteq> 0 \<or> (case p_cmd s of None \<Rightarrow> False | Some c \<Rightarrow> cm_Pid c \<noteq> None)"

definition running :: "int \<Rightarrow> process \<Rightarrow> bool" where
  "running pid s \<longleftrightarrow> has_process s \<and> pidLocked s = pid \<and> open_pids s = [pid]"

definition stopped :: "process \<Rightarrow> bool" where
  "stopped s \<longleftrightarrow> p_adoptedPid s = 0 \<and> open_pids s = []"

fun pc_inv :: "proc_env \<Rightarrow> pc \<Rightarrow> int \<Rightarrow> process \<Rightarrow> bool" where
  "pc_inv P PWait pid s = running pid s"
| "pc_inv P (PWaitCmd q) pid s = (running pid s \<and> q = pid \<and> p_adoptedPid s = 0)"
| "pc_inv P (PWait4 q d) pid s = (running pid s \<and> q = pid \<and> p_adoptedPid s = q)"
| "pc_inv P (PGone q d g) pid s =
     (running pid s \<and> q = pid \<and> p_adoptedPid s = q \<and> (g \<noteq> None \<longrightarrow> px_done P (p_log s)))"
| "pc_inv P PExited pid s = (stopped s \<or> length (open_pids s) \<le> 1 \<and> px_done P (p_log s))"
| "pc_inv P PResync pid s = running (pidLocked s) s"
| "pc_inv P PDone pid s = (length (open_pids s) \<le> 1 \<and> px_done P (p_log s))"
| "pc_inv P _ pid s = stopped s"

definition sup_inv :: "proc_env \<Rightarrow> supervisor \<Rightarrow> bool" where
  "sup_inv P u \<longleftrightarrow> backoff_ok (su_backoff u) \<and> list_all task_ok (su_tasks u) \<and> pc_inv P (su_pc u) (su_pid u) (su_proc u)"

lemma calm_running: "calm s s' \<Longrightarrow> running pid s' = running pid s"
  by (simp add: calm_def running_def has_process_def pidLocked_def)

lemma calm_stopped: "calm s s' \<Longrightarrow> stopped s' = stopped s"
  by (simp add: calm_def stopped_def)

lemma calm_pid: "calm s s' \<Longrightarrow> pidLocked s' = pidLocked s"
  by (simp add: calm_def pidLocked_def)

lemma calm_adopted: "p_adoptedPid (snd (waitDelay P s)) = p_adoptedPid s"
  using calm_waitDelay [of s P] unfolding calm_def by blast

lemma calm_pc_inv: "ctx_ok P \<Longrightarrow> calm s s' \<Longrightarrow> pc_inv P pc pid s \<Longrightarrow> pc_inv P pc pid s'"
  using calm_running [of s s'] calm_stopped [of s s'] calm_pid [of s s'] calm_done [of P s s']
  by (cases pc) (auto simp: calm_def)

lemma sup_inv_calm:
  "ctx_ok P \<Longrightarrow> sup_inv P u \<Longrightarrow> calm (su_proc u) s \<Longrightarrow> sup_inv P (u\<lparr>su_proc := s\<rparr>)"
  by (auto simp: sup_inv_def intro: calm_pc_inv)

lemma sup_init_inv: "sup_init u \<Longrightarrow> sup_inv P u"
  by (simp add: sup_init_def sup_inv_def stopped_def open_pids_def backoff_ok_def backoff_constants)

section \<open>Every step keeps it\<close>

lemma Start_result:
  assumes "stopped s"
  shows "case Start P s of (Inl _, s') \<Rightarrow> stopped s' | (Inr _, s') \<Rightarrow> running (pidLocked s') s'"
proof -
  have "stopped (snd (waitDelay P s))" using assms calm_stopped [OF calm_waitDelay] by simp
  then show ?thesis
    by (auto simp: Start_def Let_def case_prod_unfold stopped_def running_def has_process_def pidLocked_def split: sum.split)
qed

lemma run_start_inv: "sup_inv P u \<Longrightarrow> su_pc u = PStart \<Longrightarrow> sup_inv P (run_start P u)"
proof -
  assume "sup_inv P u" "su_pc u = PStart"
  then have "stopped (snd (now P (su_proc u)))" and u: "backoff_ok (su_backoff u)" "list_all task_ok (su_tasks u)"
    using calm_stopped [OF calm_now] by (simp_all add: sup_inv_def)
  from Start_result [OF this(1), of P] u show ?thesis
    by (auto simp: run_start_def sup_inv_def Let_def child_task_def stopped_def
        split: prod.splits sum.splits option.splits)
qed

lemma run_start_failed_inv: "sup_inv P u \<Longrightarrow> su_pc u = PStartFailed \<Longrightarrow> sup_inv P (run_start_failed P u)"
  using backoffAfterExit_ok [of "su_backoff u" 0] calm_stopped [OF calm_sleep]
  by (auto simp: run_start_failed_def sup_inv_def backoffAfterExit_def backoffResetUptime_def Second_def stopped_def)

lemma run_wait_inv: "sup_inv P u \<Longrightarrow> su_pc u = PWait \<Longrightarrow> sup_inv P (run_wait P u)"
  using calm_running [OF calm_waitDelay [of "su_proc u" P]]
  by (auto simp: run_wait_def sup_inv_def Let_def case_prod_unfold running_def has_process_def pidLocked_def calm_adopted
      split: option.splits)

lemma run_wait_cmd_inv: "sup_inv P u \<Longrightarrow> su_pc u = PWaitCmd pid \<Longrightarrow> sup_inv P (run_wait_cmd pid u)"
  by (auto simp: run_wait_cmd_def sup_inv_def running_def stopped_def list_all_iff)

lemma finish_wait_inv:
  assumes "backoff_ok (su_backoff u)" "list_all task_ok (su_tasks u)" "p_adoptedPid s = pid"
    "open_pids s = [] \<or> length (open_pids s) \<le> 1 \<and> px_done P (p_log s)"
  shows "sup_inv P (finish_wait pid s u)"
  using assms by (auto simp: finish_wait_def sup_inv_def stopped_def)

lemma run_wait4_inv: "sup_inv P u \<Longrightarrow> su_pc u = PWait4 pid d \<Longrightarrow> sup_inv P (run_wait4 P pid d u)"
  by (auto simp: run_wait4_def Let_def split: wait_result.split intro!: finish_wait_inv)
    (auto simp: sup_inv_def running_def has_process_def)

lemma gone_poll_result:
  assumes "ctx_ok P" "g \<noteq> None \<longrightarrow> px_done P (p_log s)" and run: "gone_poll P pid d g s = (r, s')"
  shows "case r of
      Inl _ \<Rightarrow> p_adoptedPid s' = p_adoptedPid s \<and>
        (open_pids s' = removeAll pid (open_pids s) \<or> open_pids s' = open_pids s \<and> px_done P (p_log s'))
    | Inr g' \<Rightarrow> calm s s' \<and> (g' \<noteq> None \<longrightarrow> px_done P (p_log s'))"
proof -
  have mono: "px_done P l \<Longrightarrow> px_done P (l @ l')" for l l' using assms(1) by (rule ctx_ok_append)
  have mono': "px_done P (l @ [e]) \<Longrightarrow> px_done P (l @ e # l')" for l e l'
    using mono [of "l @ [e]" l'] by simp
  show ?thesis
    using assms(2) run
    by (auto simp: gone_poll_def sys_kill_def now_def sleep_def Let_def calm_def mono mono'
        split: kill_result.splits option.splits if_splits)
qed

lemma run_gone_inv:
  assumes "ctx_ok P" "sup_inv P u" "su_pc u = PGone pid d g"
  shows "sup_inv P (run_gone P pid d g u)"
proof -
  from assms have u: "running pid (su_proc u)" "p_adoptedPid (su_proc u) = pid" "g \<noteq> None \<longrightarrow> px_done P (p_log (su_proc u))"
    "backoff_ok (su_backoff u)" "list_all task_ok (su_tasks u)" "su_pid u = pid"
    by (auto simp: sup_inv_def)
  obtain r s where poll: "gone_poll P pid d g (su_proc u) = (r, s)" by (rule prod.exhaust)
  note result = gone_poll_result [OF assms(1) u(3) poll]
  show ?thesis
  proof (cases r)
    case (Inl e)
    with result poll u have "p_adoptedPid s = pid"
      "open_pids s = [] \<or> length (open_pids s) \<le> 1 \<and> px_done P (p_log s)"
      by (auto simp: running_def)
    with finish_wait_inv [OF u(4,5) this] Inl poll show ?thesis by (simp add: run_gone_def)
  next
    case (Inr g')
    with result poll u calm_running [of "su_proc u" s pid] show ?thesis
      by (auto simp: run_gone_def sup_inv_def calm_def)
  qed
qed

lemma run_exited_inv: "sup_inv P u \<Longrightarrow> su_pc u = PExited \<Longrightarrow> sup_inv P (run_exited P u)"
  using calm_stopped [OF calm_consume [of "su_proc u" P]]
    calm_stopped [OF calm_now [of "snd (consumeUpgradeRequest P (su_proc u))" P]]
  by (auto simp: run_exited_def sup_inv_def Let_def case_prod_unfold list_all_iff stopped_def)

lemma scan_nonzero:
  "table_ok P \<Longrightarrow> fst (findSuccessorPid P b old s) = Some pid \<Longrightarrow> pid \<noteq> 0 \<and> pid \<noteq> old"
  by (fastforce simp: findSuccessorPid_def table_ok_def is_pooler_def Let_def dest: scan_entries_Some split: option.splits)

lemma adopt_poll_result:
  assumes "table_ok P" "stopped s" and run: "adopt_poll P old dl s = (r, s')"
  shows "if r = Some True then running (pidLocked s') s' \<and> pidLocked s' \<noteq> old else calm s s'"
proof -
  obtain found s1 where find: "findSuccessorPid P (px_binary P) old s = (found, s1)" by (rule prod.exhaust)
  then have s1: "calm s s1" using calm_find [of s P "px_binary P" old] by simp
  show ?thesis
  proof (cases found)
    case (Some pid)
    with scan_nonzero [OF assms(1), of "px_binary P" old s pid] find have "pid \<noteq> 0" "pid \<noteq> old" by auto
    with Some find run s1 assms(2) show ?thesis
      by (auto simp: adopt_poll_def running_def has_process_def pidLocked_def stopped_def calm_def)
  next
    case None
    with run find show ?thesis
      using s1 calm_now [of s1 P] calm_sleep [of "snd (now P s1)"]
      by (auto simp: adopt_poll_def Let_def case_prod_unfold calm_def split: if_splits)
  qed
qed

lemma run_adopt_inv:
  assumes "table_ok P" "sup_inv P u" "su_pc u = PAdopt dl"
  shows "sup_inv P (run_adopt P dl u)"
proof -
  obtain r s where poll: "adopt_poll P (su_pid u) dl (su_proc u) = (r, s)" by (rule prod.exhaust)
  from assms have u: "stopped (su_proc u)" by (simp add: sup_inv_def)
  from adopt_poll_result [OF assms(1) u poll] poll assms(2,3) calm_stopped [of "su_proc u" s] show ?thesis
    by (auto simp: run_adopt_def sup_inv_def Let_def split: option.splits bool.splits if_splits)
qed

lemma run_resync_inv: "sup_inv P u \<Longrightarrow> su_pc u = PResync \<Longrightarrow> sup_inv P (run_resync P u)"
  using calm_trans [OF calm_Reload [of "su_proc u" P] calm_now [of _ P]]
  by (auto simp: run_resync_def sup_inv_def Let_def case_prod_unfold calm_running calm_pid)

lemma run_crash_inv: "sup_inv P u \<Longrightarrow> su_pc u = PCrash \<Longrightarrow> sup_inv P (run_crash P u)"
  using calm_stopped [OF calm_now [of "su_proc u" P]]
  by (auto simp: run_crash_def sup_inv_def Let_def case_prod_unfold backoffAfterExit_ok)

lemma run_backoff_inv: "sup_inv P u \<Longrightarrow> su_pc u = PBackoff \<Longrightarrow> sup_inv P (run_backoff P u)"
  using calm_stopped [OF calm_sleep [of "su_proc u" "su_backoff u"]]
  by (auto simp: run_backoff_def sup_inv_def stopped_def)

lemma run_step_inv:
  assumes "ctx_ok P" "table_ok P" "sup_inv P u"
  shows "sup_inv P (run_step P u)"
proof (cases "su_pc u")
  case PSweep
  with assms calm_stopped [OF calm_sweep [of "su_proc u" P]] show ?thesis
    by (simp add: run_step_def sup_inv_def)
qed (use assms in \<open>simp_all add: run_step_def run_start_inv run_start_failed_inv run_wait_inv run_wait_cmd_inv
    run_wait4_inv run_gone_inv run_exited_inv run_adopt_inv run_resync_inv run_crash_inv run_backoff_inv\<close>)

lemma sup_step_inv:
  assumes "ctx_ok P" "table_ok P" "sup_inv P u" "sup_step P u v"
  shows "sup_inv P v"
  using assms(4)
proof cases
  case (helper pre t post ts s)
  from assms(3) helper(2) have "task_ok t" by (simp add: sup_inv_def)
  from task_step_calm [OF this, of "su_proc u" P] helper(3) have "calm (su_proc u) s" "list_all task_ok ts" by auto
  with sup_inv_calm [OF assms(1,3) this(1)] helper show ?thesis
    using assms(3) by (auto simp: sup_inv_def)
next
  case (other t n files)
  have "calm (su_proc u) (log_ev (Clock t) ((su_proc u)\<lparr>sy_fs := files, sy_n := n\<rparr>))"
    by (rule calm_trans [of _ "(su_proc u)\<lparr>sy_fs := files, sy_n := n\<rparr>"]) (simp_all add: calm_log)
  with other sup_inv_calm [OF assms(1,3)] show ?thesis by blast
qed (use assms in \<open>simp_all add: run_step_inv sup_inv_calm\<close>)

interpretation sup: invariant_system sup_init "sup_step P" "\<lambda>u. ctx_ok P \<and> table_ok P \<longrightarrow> sup_inv P u" for P
  by unfold_locales (auto intro: sup_init_inv sup_step_inv)

section \<open>What the supervisor guarantees\<close>

fun waiting :: "pc \<Rightarrow> bool" where
  "waiting PWait = True"
| "waiting (PWaitCmd pid) = True"
| "waiting (PWait4 pid drain) = True"
| "waiting (PGone pid drain giveUp) = True"
| "waiting _ = False"

text \<open>(C10) There is never a second pooler. In every reachable state at most one pooler was started or adopted
  without a report of its end; when the next one is started there is none; while the supervisor waits, that
  one pooler is the process that Reload, Restart and Upgrade signal; and the back-off is within its bounds.\<close>

theorem one_pooler:
  assumes "ctx_ok P" "table_ok P" "sup_init u0" "(sup_step P)\<^sup>*\<^sup>* u0 u"
  shows "length (open_pids (su_proc u)) \<le> 1 \<and>
    (if su_pc u = PStart then open_pids (su_proc u) = []
     else if waiting (su_pc u) then open_pids (su_proc u) = [pidLocked (su_proc u)] else True) \<and>
    su_backoff u \<in> {initialBackoff..maxBackoff}"
proof -
  have "sup_inv P u" using sup.reachable_inv [OF assms(3,4)] assms(1,2) by blast
  then show ?thesis
    by (cases "su_pc u") (auto simp: sup_inv_def backoff_ok_def running_def stopped_def)
qed

text \<open>Steps that start nothing.\<close>

definition extends :: "process \<Rightarrow> process \<Rightarrow> bool" where
  "extends s s' \<longleftrightarrow> starts s' = starts s \<and> (\<exists>l. p_log s' = p_log s @ l)"

lemma calm_extends: "calm s s' \<Longrightarrow> extends s s'"
  by (simp add: calm_def extends_def)

lemma extends_trans: "extends s t \<Longrightarrow> extends t v \<Longrightarrow> extends s v"
  by (auto simp: extends_def)

lemma extends_log [simp]: "extends s (log_ev e t) = (extends s t \<and> \<not> is_start e)" if "extends s t"
  using that by (auto simp: extends_def)

lemma extends_fields [simp]:
  "extends s s" "extends s (t\<lparr>p_adoptedPid := a\<rparr>) = extends s t" "extends s (t\<lparr>p_cmd := c\<rparr>) = extends s t"
  by (simp_all add: extends_def)

lemma gone_poll_extends: "extends s (snd (gone_poll P pid d g s))"
  by (auto simp: gone_poll_def sys_kill_def now_def sleep_def Let_def split: kill_result.split option.split)

lemma adopt_poll_extends: "extends s (snd (adopt_poll P old dl s))"
  by (auto simp: adopt_poll_def findSuccessorPid_def now_def sleep_def Let_def split: option.split)

lemma Start_cancelled:
  assumes "ctx_ok P" "px_done P (p_log s)"
  shows "isl (fst (Start P s)) \<and> extends s (snd (Start P s))"
proof -
  have "px_done P (p_log (snd (waitDelay P s)))" by (rule calm_done [OF assms(1) calm_waitDelay assms(2)])
  with calm_extends [OF calm_waitDelay [of s P]] show ?thesis
    by (simp add: Start_def Let_def case_prod_unfold)
qed

lemma run_start_cancelled:
  assumes "ctx_ok P" "px_done P (p_log (su_proc u))"
  shows "su_pc (run_start P u) = PDone \<and> extends (su_proc u) (su_proc (run_start P u))"
proof -
  obtain t s1 where n: "now P (su_proc u) = (t, s1)" by (rule prod.exhaust)
  obtain r s2 where st: "Start P s1 = (r, s2)" by (rule prod.exhaust)
  have c: "calm (su_proc u) s1" using calm_now [of "su_proc u" P] n by simp
  from Start_cancelled [OF assms(1) calm_done [OF assms(1) c assms(2)]] st
  have s2: "isl r" "extends s1 s2" by simp_all
  then have e: "extends (su_proc u) s2" using extends_trans [OF calm_extends [OF c]] by blast
  then have "px_done P (p_log s2)" using assms ctx_ok_append by (auto simp: extends_def)
  with n st s2 e show ?thesis by (cases r) (auto simp: run_start_def)
qed

lemma run_step_cancelled:
  assumes "ctx_ok P" "px_done P (p_log (su_proc u))"
  shows "extends (su_proc u) (su_proc (run_step P u))"
proof (cases "su_pc u")
  case PStart
  with run_start_cancelled [OF assms] show ?thesis by (simp add: run_step_def)
next
  case (PGone pid d g)
  with gone_poll_extends [of "su_proc u" P pid d g] show ?thesis
    by (auto simp: run_step_def run_gone_def finish_wait_def split: prod.splits sum.splits)
next
  case (PAdopt dl)
  with adopt_poll_extends [of "su_proc u" P "su_pid u" dl] show ?thesis
    by (auto simp: run_step_def run_adopt_def Let_def split: prod.splits option.splits bool.splits)
next
  case PResync
  with calm_extends [OF calm_trans [OF calm_Reload [of "su_proc u" P] calm_now [of _ P]]] show ?thesis
    by (simp add: run_step_def run_resync_def Let_def case_prod_unfold)
qed (use assms in \<open>auto simp: run_step_def run_start_failed_def run_wait_def run_wait_cmd_def run_wait4_def finish_wait_def
    run_exited_def run_crash_def run_backoff_def Let_def case_prod_unfold calm_extends
    split: wait_result.split option.split\<close>)

lemma task_step_extends: "extends s (snd (task_step P t s))"
proof (cases "task_ok t")
  case True
  with task_step_calm show ?thesis by (blast intro: calm_extends)
next
  case False
  then show ?thesis by (cases t) (simp_all add: sys_kill_def Let_def)
qed

lemma sup_step_cancelled:
  assumes "ctx_ok P" "px_done P (p_log (su_proc u))" "sup_step P u v"
  shows "extends (su_proc u) (su_proc v)"
  using assms(3)
proof cases
  case (helper pre t post ts s)
  with task_step_extends [of "su_proc u" P t] show ?thesis by simp
next
  case (other t n files)
  then show ?thesis by (simp add: extends_def)
qed (use run_step_cancelled [OF assms(1,2)] in \<open>simp_all add: calm_extends\<close>)

text \<open>Nothing is started after the cancellation. Once the context is cancelled, no interleaving of the
  supervisor, its helpers and the watchers starts another pooler, and the supervisor returns from the start, the
  back-off and an observed exit at its next step.\<close>

theorem no_start_after_cancel:
  assumes "ctx_ok P" "px_done P (p_log (su_proc u))" "(sup_step P)\<^sup>*\<^sup>* u v"
  shows "starts (su_proc v) = starts (su_proc u) \<and>
    (if su_pc v \<in> set [PStart, PStartFailed, PExited, PBackoff] then su_pc (run_step P v) = PDone else True)"
proof -
  from assms(3) have v: "extends (su_proc u) (su_proc v)"
  proof (induction rule: rtranclp_induct)
    case (step v w)
    then have "px_done P (p_log (su_proc v))" using assms(1,2) ctx_ok_append by (auto simp: extends_def)
    from sup_step_cancelled [OF assms(1) this step.hyps(2)] step.IH show ?case by (blast intro: extends_trans)
  qed simp
  then have "px_done P (p_log (su_proc v))" using assms(1,2) ctx_ok_append by (auto simp: extends_def)
  with run_start_cancelled [OF assms(1) this] v show ?thesis
    by (auto simp: extends_def run_step_def run_start_failed_def run_exited_def run_backoff_def Let_def)
qed

section \<open>The supervisor stops\<close>

definition stops :: "proc_env \<Rightarrow> supervisor \<Rightarrow> bool" where
  "stops P u \<longleftrightarrow> (\<exists>k. su_pc ((run_step P ^^ k) u) = PDone)"

lemma stops_done: "su_pc u = PDone \<Longrightarrow> stops P u"
  unfolding stops_def by (rule exI [of _ 0]) simp

lemma stops_step: "stops P (run_step P u) \<Longrightarrow> stops P u"
  unfolding stops_def by (metis funpow_Suc_right o_apply)

text \<open>A blocking \<open>wait4\<close> is not interrupted for ever.\<close>

definition wait_ok :: "proc_env \<Rightarrow> bool" where
  "wait_ok P \<longleftrightarrow> (\<forall>l pid. \<exists>n. px_wait4 P (l @ replicate n (Wait4 pid EINTR)) pid \<noteq> EINTR)"

definition cancelled :: "proc_env \<Rightarrow> supervisor \<Rightarrow> bool" where
  "cancelled P u \<longleftrightarrow> px_done P (p_log (su_proc u))"

lemma cancelled_step: "ctx_ok P \<Longrightarrow> cancelled P u \<Longrightarrow> cancelled P (run_step P u)"
  unfolding cancelled_def using run_step_cancelled [of P u]
  by (auto simp: extends_def dest: ctx_ok_append)

lemma cancelled_next:
  assumes "ctx_ok P" "cancelled P u" "\<And>v. cancelled P v \<Longrightarrow> su_pc v = su_pc (run_step P u) \<Longrightarrow> stops P v"
  shows "stops P u"
  by (rule stops_step, rule assms(3) [OF cancelled_step [OF assms(1,2)] refl])

lemma stops_now:
  assumes "ctx_ok P" "cancelled P u" "su_pc u \<in> set [PStart, PStartFailed, PExited, PBackoff]"
  shows "stops P u"
proof (rule stops_step, rule stops_done)
  show "su_pc (run_step P u) = PDone"
    using run_start_cancelled [of P u] assms
    by (auto simp: cancelled_def run_step_def run_start_failed_def run_exited_def run_backoff_def Let_def)
qed

lemma stops_crash: "ctx_ok P \<Longrightarrow> cancelled P u \<Longrightarrow> su_pc u \<in> set [PCrash, PSweep] \<Longrightarrow> stops P u"
proof -
  assume P: "ctx_ok P"
  have crash: "cancelled P u \<Longrightarrow> su_pc u = PCrash \<Longrightarrow> stops P u" for u
    by (rule cancelled_next [OF P]) (auto simp: run_step_def run_crash_def Let_def case_prod_unfold intro!: stops_now [OF P])
  have "cancelled P u \<Longrightarrow> su_pc u = PSweep \<Longrightarrow> stops P u" for u
    by (rule cancelled_next [OF P]) (auto simp: run_step_def intro!: crash)
  with crash show "cancelled P u \<Longrightarrow> su_pc u \<in> set [PCrash, PSweep] \<Longrightarrow> stops P u" by auto
qed

lemma gone_poll_deadline:
  assumes "clock_ok P" "gone_poll P pid d (Some dl) s = (Inr g, s')"
  shows "g = Some dl \<and> px_now P (p_log s) + adoptedLivenessInterval \<le> px_now P (p_log s') \<and> px_now P (p_log s) \<le> dl"
proof -
  let ?s1 = "log_ev (Kill pid SIG0 (px_kill P (p_log s) pid SIG0)) s"
  let ?s2 = "log_ev (Clock (px_now P (p_log ?s1))) ?s1"
  have "px_now P (p_log s) \<le> px_now P (p_log ?s1)" "px_now P (p_log ?s1) \<le> px_now P (p_log ?s2)"
    "px_now P (p_log ?s2) + adoptedLivenessInterval \<le> px_now P (p_log (sleep adoptedLivenessInterval ?s2))"
    using clock_mono [OF assms(1)] clock_sleep [OF assms(1)] by blast+
  moreover have "g = Some dl \<and> s' = sleep adoptedLivenessInterval ?s2 \<and> px_now P (p_log ?s1) \<le> dl"
    using assms(2)
    by (auto simp: gone_poll_def sys_kill_def now_def Let_def split: kill_result.splits if_splits)
  ultimately show ?thesis by auto
qed

lemma stops_gone_deadline:
  assumes "ctx_ok P" "clock_ok P"
  shows "cancelled P u \<Longrightarrow> su_pc u = PGone pid d (Some dl) \<Longrightarrow>
    dl - px_now P (p_log (su_proc u)) < int n * adoptedLivenessInterval \<Longrightarrow> stops P u"
proof (induction n arbitrary: u)
  case (0 u)
  obtain r s where poll: "gone_poll P pid d (Some dl) (su_proc u) = (r, s)" by (rule prod.exhaust)
  from 0 have "\<not> px_now P (p_log (su_proc u)) \<le> dl" by simp
  then obtain e where "r = Inl e"
    using gone_poll_deadline [OF assms(2), of pid d dl "su_proc u" _ s] poll by (cases r) auto
  then show ?case
    using 0 poll by (intro cancelled_next [OF assms(1), of u] stops_now [OF assms(1)])
      (auto simp: run_step_def run_gone_def finish_wait_def)
next
  case (Suc n u)
  obtain r s where poll: "gone_poll P pid d (Some dl) (su_proc u) = (r, s)" by (rule prod.exhaust)
  show ?case
  proof (cases r)
    case (Inl e)
    then show ?thesis
      using Suc.prems poll by (intro cancelled_next [OF assms(1), of u] stops_now [OF assms(1)])
        (auto simp: run_step_def run_gone_def finish_wait_def)
  next
    case (Inr g)
    from gone_poll_deadline [OF assms(2) poll [unfolded Inr]]
    have g: "g = Some dl" and "dl - px_now P (p_log s) < int n * adoptedLivenessInterval"
      using Suc.prems(3) by (simp_all add: algebra_simps)
    moreover have "run_step P u = u\<lparr>su_proc := s, su_pc := PGone pid d (Some dl)\<rparr>"
      using Suc.prems(2) poll Inr g by (simp add: run_step_def run_gone_def)
    ultimately show ?thesis
      using Suc.IH [of "run_step P u"] cancelled_step [OF assms(1) Suc.prems(1)] stops_step [of P u] by simp
  qed
qed

lemma stops_gone:
  assumes "ctx_ok P" "clock_ok P" "cancelled P u" "su_pc u = PGone pid d g"
  shows "stops P u"
proof -
  have dl: "stops P v" if "cancelled P v" "su_pc v = PGone pid d (Some dl)" for v dl
  proof -
    have "dl - px_now P (p_log (su_proc v)) < int (nat (\<bar>dl - px_now P (p_log (su_proc v))\<bar> + 1)) * adoptedLivenessInterval"
      by (simp add: adoptedLivenessInterval_def Millisecond_def abs_if)
    then show ?thesis by (rule stops_gone_deadline [OF assms(1,2) that])
  qed
  show ?thesis
  proof (cases g)
    case None
    have "px_done P (p_log (su_proc u) @ [e])" for e
      using assms(1,3) by (simp add: cancelled_def ctx_ok_def)
    then have "\<exists>x s. gone_poll P pid d None (su_proc u) = (Inl x, s) \<or> (\<exists>t. gone_poll P pid d None (su_proc u) = (Inr (Some t), s))"
      by (auto simp: gone_poll_def sys_kill_def now_def Let_def split: kill_result.split)
    then have "su_pc (run_step P u) = PExited \<or> (\<exists>t. su_pc (run_step P u) = PGone pid d (Some t))"
      using assms(4) None by (auto simp: run_step_def run_gone_def finish_wait_def)
    then show ?thesis
      using cancelled_next [OF assms(1,3)] stops_now [OF assms(1)] dl by force
  qed (use dl assms in auto)
qed

lemma stops_wait4:
  assumes P: "ctx_ok P" "clock_ok P" "wait_ok P" and "cancelled P u" "su_pc u = PWait4 pid d"
  shows "stops P u"
proof -
  have "px_wait4 P (p_log (su_proc v) @ replicate n (Wait4 pid EINTR)) pid \<noteq> EINTR \<Longrightarrow>
      cancelled P v \<Longrightarrow> su_pc v = PWait4 pid d \<Longrightarrow> stops P v" for n v
  proof (induction n arbitrary: v)
    case (0 v)
    then have "su_pc (run_step P v) = PExited \<or> su_pc (run_step P v) = PGone pid d None"
      by (auto simp: run_step_def run_wait4_def Let_def finish_wait_def split: wait_result.split)
    with 0(2) show ?case
      using cancelled_next [OF P(1)] stops_now [OF P(1)] stops_gone [OF P(1,2)] by force
  next
    case (Suc n v)
    show ?case
    proof (cases "px_wait4 P (p_log (su_proc v)) pid = EINTR")
      case True
      then have "run_step P v = v\<lparr>su_proc := log_ev (Wait4 pid EINTR) (su_proc v)\<rparr>"
        using Suc.prems(3) by (simp add: run_step_def run_wait4_def Let_def)
      with Suc.IH [of "run_step P v"] Suc.prems(1,3) cancelled_step [OF P(1) Suc.prems(2)] stops_step [of P v]
      show ?thesis by simp
    next
      case False
      then have "su_pc (run_step P v) = PExited \<or> su_pc (run_step P v) = PGone pid d None"
        using Suc.prems(3) by (auto simp: run_step_def run_wait4_def Let_def finish_wait_def split: wait_result.split)
      with Suc.prems(2) show ?thesis
        using cancelled_next [OF P(1)] stops_now [OF P(1)] stops_gone [OF P(1,2)] by force
    qed
  qed
  with assms show ?thesis unfolding wait_ok_def by blast
qed

lemma stops_wait:
  assumes P: "ctx_ok P" "clock_ok P" "wait_ok P" and u: "cancelled P u" "su_pc u \<in> {PWait, PWaitCmd pid, PResync}"
  shows "stops P u"
proof -
  have cmd: "cancelled P v \<Longrightarrow> su_pc v = PWaitCmd q \<Longrightarrow> stops P v" for v q
    by (rule cancelled_next [OF P(1)]) (auto simp: run_step_def run_wait_cmd_def intro!: stops_now [OF P(1)])
  have wait: "stops P v" if "cancelled P v" "su_pc v = PWait" for v
  proof (rule cancelled_next [OF P(1) that(1)])
    fix w
    assume w: "cancelled P w" "su_pc w = su_pc (run_step P v)"
    with that(2) have "su_pc w = PExited \<or> (\<exists>q. su_pc w = PWaitCmd q) \<or> (\<exists>q d. su_pc w = PWait4 q d)"
      by (auto simp: run_step_def run_wait_def Let_def case_prod_unfold split: option.splits)
    with w(1) show "stops P w" using cmd stops_wait4 [OF P] stops_now [OF P(1)] by auto
  qed
  have "cancelled P v \<Longrightarrow> su_pc v = PResync \<Longrightarrow> stops P v" for v
    by (rule cancelled_next [OF P(1)]) (auto simp: run_step_def run_resync_def Let_def case_prod_unfold intro!: wait)
  with cmd wait u show ?thesis by blast
qed

lemma stops_adopt:
  assumes P: "ctx_ok P" "clock_ok P" "wait_ok P" and u: "cancelled P u" "su_pc u = PAdopt dl"
  shows "stops P u"
proof (rule cancelled_next [OF P(1) u(1)])
  fix w
  assume w: "cancelled P w" "su_pc w = su_pc (run_step P u)"
  have "px_done P (p_log (su_proc u) @ [e, e'])" for e e'
    using u(1) P(1) ctx_ok_append by (auto simp: cancelled_def)
  then have "fst (adopt_poll P old dl (su_proc u)) \<noteq> None" for old
    by (auto simp: adopt_poll_def findSuccessorPid_def now_def Let_def split: option.split)
  then have "su_pc w = PResync \<or> su_pc w = PSweep"
    using w(2) u(2) by (auto simp: run_step_def run_adopt_def Let_def case_prod_unfold split: option.splits bool.splits)
  with w(1) show "stops P w" using stops_wait [OF P] stops_crash [OF P(1)] by auto
qed

text \<open>The supervisor stops. After the cancellation the main loop reaches its return in finitely many steps
  from any point, the adoption of a successor and the wait for a process that ignores all signals included, provided
  that the clock advances and \<open>wait4\<close> is not interrupted for ever.\<close>

theorem supervisor_stops:
  assumes "ctx_ok P" "clock_ok P" "wait_ok P" "px_done P (p_log (su_proc u))"
  shows "\<exists>k. su_pc ((run_step P ^^ k) u) = PDone"
proof -
  have c: "cancelled P u" using assms(4) by (simp add: cancelled_def)
  have "stops P u"
    by (cases "su_pc u") (use c in \<open>auto intro: stops_done stops_now [OF assms(1)] stops_crash [OF assms(1)]
      stops_gone [OF assms(1,2)] stops_wait4 [OF assms(1-3)] stops_wait [OF assms(1-3)] stops_adopt [OF assms(1-3)]\<close>)
  then show ?thesis by (simp add: stops_def)
qed

section \<open>Handover\<close>

text \<open>A handover is not a restart. When the successor is found, it is supervised from then on, the upgrade
  is counted as a success, neither the restart counter nor the back-off moves, and the successor is told to reload
  the configuration that may have changed while its predecessor drained.\<close>

theorem handover_resyncs:
  assumes "table_ok P" "su_pc u = PAdopt deadline"
    and "fst (findSuccessorPid P (px_binary P) (su_pid u) (su_proc u)) = Some pid"
  shows "let v = run_step P (run_step P u) in
    su_pc v = PWait \<and> su_pid v = pid \<and> pidLocked (su_proc v) = pid \<and> pid \<noteq> su_pid u \<and>
    su_upgraded v = su_upgraded u + 1 \<and> su_restarts v = su_restarts u \<and> su_backoff v = su_backoff u \<and>
    list_ex (\<lambda>e. case e of Kill q sig r \<Rightarrow> q = pid \<and> sig = SIGHUP | _ \<Rightarrow> False)
      (drop (length (p_log (su_proc u))) (p_log (su_proc v)))"
proof -
  from scan_nonzero [OF assms(1,3)] have pid: "pid \<noteq> 0" "pid \<noteq> su_pid u" by auto
  let ?r = "px_proc P (p_log (su_proc u))"
  let ?s = "log_ev (Adopted pid) ((log_ev (ReadProc ?r) (su_proc u))\<lparr>p_cmd := None, p_adoptedPid := pid\<rparr>)"
  have one: "run_step P u = u\<lparr>su_proc := ?s, su_upgraded := su_upgraded u + 1, su_pc := PResync\<rparr>"
    using assms(2,3)
    by (simp add: run_step_def run_adopt_def adopt_poll_def findSuccessorPid_def Let_def log_ev_def split: option.splits)
  have "pidLocked ?s = pid" using pid by (simp add: pidLocked_def)
  with pid show ?thesis
    unfolding one
    by (simp add: run_step_def run_resync_def Reload_def signalLocked_def sys_kill_def now_def Let_def pidLocked_def
        split: kill_result.split)
qed

section \<open>Schedules\<close>

text \<open>A schedule picks one of the enabled steps; every state it leads to is reachable.\<close>

datatype choice = Main | Helper nat | Up

definition sched_step :: "proc_env \<Rightarrow> choice \<Rightarrow> supervisor \<Rightarrow> supervisor" where
  "sched_step P c u =
     (case c of
        Main \<Rightarrow> run_step P u
      | Helper i \<Rightarrow>
          if i < length (su_tasks u)
          then (let (ts, s) = task_step P (su_tasks u ! i) (su_proc u)
                in u\<lparr>su_tasks := take i (su_tasks u) @ ts @ drop (Suc i) (su_tasks u), su_proc := s\<rparr>)
          else run_step P u
      | Up \<Rightarrow> u\<lparr>su_proc := snd (Upgrade P (su_proc u))\<rparr>)"

lemma sched_step_sup: "sup_step P u (sched_step P c u)"
proof (cases "\<exists>i. c = Helper i \<and> i < length (su_tasks u)")
  case True
  then obtain i where i: "c = Helper i" "i < length (su_tasks u)" by blast
  obtain ts s where run: "task_step P (su_tasks u ! i) (su_proc u) = (ts, s)" by (rule prod.exhaust)
  from sup_step.helper [OF id_take_nth_drop [OF i(2)] run] i run show ?thesis
    by (simp add: sched_step_def)
qed (auto simp: sched_step_def intro: sup_step.intros split: choice.split)

lemma schedule_reachable: "(sup_step P)\<^sup>*\<^sup>* u (fold (sched_step P) cs u)"
proof (induction cs arbitrary: u)
  case (Cons c cs)
  from converse_rtranclp_into_rtranclp [OF sched_step_sup Cons.IH] show ?case by simp
qed simp

definition fresh_supervisor :: supervisor where
  "fresh_supervisor =
     \<lparr>su_pc = PStart, su_backoff = initialBackoff, su_startedAt = 0, su_pid = 0, su_restarts = 0, su_upgraded = 0,
      su_upgradeFailed = 0, su_tasks = [], su_proc = demo_process\<rparr>"

lemma fresh_init: "sup_init fresh_supervisor"
  by (simp add: sup_init_def fresh_supervisor_def demo_process_def)

text \<open>An operating system in which every event takes ten seconds, the configuration does not decode and the context is cancelled with the adoption
  of a successor.\<close>

definition slow_env :: proc_env where
  "slow_env = (demo_env ''30s'')\<lparr>px_now := (\<lambda>l. 10 * Second * int (length l)), px_unmarshal := (\<lambda>_. Inl ''no config''),
     px_done := (\<lambda>l. Adopted 30 \<in> set l), px_wait4 := (\<lambda>_ _. Exited 0 False)\<rparr>"

lemma demo_table_ok: "list_all (\<lambda>e. Atoi (pe_Name e) \<noteq> Some 0) demo_table"
  by code_simp

lemma slow_ok: "ctx_ok slow_env" "table_ok slow_env"
  using demo_table_ok by (auto simp: ctx_ok_def table_ok_def slow_env_def demo_env_def list_all_iff)

section \<open>Two windows\<close>

text \<open>Pid() is not 0 when nothing runs. After a direct child was reaped and until the next start, the supervisor
  keeps the number of the dead process: Pid() returns it although no pooler is open, and Reload signals it.\<close>

theorem pid_of_dead_child:
  assumes "ctx_ok P" "table_ok P" "sup_init u0" "(sup_step P)\<^sup>*\<^sup>* u0 u" "su_pc u = PWaitCmd pid" "pid \<noteq> 0"
  shows "open_pids (su_proc (run_step P u)) = [] \<and> pidLocked (su_proc (run_step P u)) = pid \<and>
    (\<exists>r. last (p_log (snd (Reload P (su_proc (run_step P u))))) = Kill pid SIGHUP r)"
proof -
  have "sup_inv P u" using sup.reachable_inv [OF assms(3,4)] assms(1,2) by blast
  with assms(5,6) show ?thesis
    by (auto simp: sup_inv_def running_def run_step_def run_wait_cmd_def Reload_def signalLocked_def sys_kill_def Let_def
        split: kill_result.split)
qed

theorem pid_of_dead_child_witness:
  "open_pids (su_proc (fold (sched_step slow_env) [Main, Main, Main] fresh_supervisor)) = [] \<and>
   pidLocked (su_proc (fold (sched_step slow_env) [Main, Main, Main] fresh_supervisor)) = 20"
proof -
  let ?u = "fold (sched_step slow_env) [Main, Main] fresh_supervisor"
  have pc: "su_pc ?u = PWaitCmd 20" by code_simp
  from pid_of_dead_child [OF slow_ok fresh_init schedule_reachable pc]
  have "open_pids (su_proc (run_step slow_env ?u)) = [] \<and> pidLocked (su_proc (run_step slow_env ?u)) = 20" by simp
  then show ?thesis by (simp add: sched_step_def)
qed

text \<open>(C37) The SIGKILL timer can fire at a reaped process. \<open>killAdopted\<close> releases the mutex before it sends the signal;
  in a reachable state the adopted process has been reaped and forgotten in between, and the last event is a SIGKILL
  to its number, which may by then belong to another process.\<close>

theorem kill_after_reap:
  "\<exists>P u0 u. ctx_ok P \<and> table_ok P \<and> sup_init u0 \<and> (sup_step P)\<^sup>*\<^sup>* u0 u \<and>
     open_pids (su_proc u) = [] \<and> p_adoptedPid (su_proc u) = 0 \<and>
     Wait4 30 (Exited 0 False) \<in> set (butlast (p_log (su_proc u))) \<and> last (p_log (su_proc u)) = Kill 30 SIGKILL KillOk"
proof -
  let ?cs = "[Main, Main, Up, Main, Main, Main, Main, Main, Helper 0, Helper 0, Helper 0, Helper 0, Helper 0, Helper 0,
    Helper 0, Helper 0, Main, Helper 0]"
  let ?u = "fold (sched_step slow_env) ?cs fresh_supervisor"
  have "open_pids (su_proc ?u) = [] \<and> p_adoptedPid (su_proc ?u) = 0 \<and>
     Wait4 30 (Exited 0 False) \<in> set (butlast (p_log (su_proc ?u))) \<and> last (p_log (su_proc ?u)) = Kill 30 SIGKILL KillOk"
    by code_simp
  with slow_ok fresh_init schedule_reachable [of slow_env fresh_supervisor ?cs] show ?thesis by blast
qed

section \<open>Instances\<close>

theorem one_pooler_witness:
  "open_pids (su_proc (fold (sched_step slow_env) [Main, Main] fresh_supervisor)) = [20]"
proof -
  let ?u = "fold (sched_step slow_env) [Main, Main] fresh_supervisor"
  have "waiting (su_pc ?u) \<and> su_pc ?u \<noteq> PStart \<and> pidLocked (su_proc ?u) = 20" by code_simp
  with one_pooler [OF slow_ok fresh_init schedule_reachable [of slow_env fresh_supervisor "[Main, Main]"]]
  show ?thesis by presburger
qed

definition handed_over :: supervisor where
  "handed_over = fold (sched_step slow_env) [Main, Main, Up, Main, Main] fresh_supervisor"

theorem handover_resyncs_witness:
  "su_pid (run_step slow_env (run_step slow_env handed_over)) = 30 \<and> su_pc (run_step slow_env (run_step slow_env handed_over)) = PWait"
proof -
  have "case su_pc handed_over of PAdopt _ \<Rightarrow> True | _ \<Rightarrow> False" by code_simp
  then obtain deadline where pc: "su_pc handed_over = PAdopt deadline" by (auto split: pc.splits)
  have found: "fst (findSuccessorPid slow_env (px_binary slow_env) (su_pid handed_over) (su_proc handed_over)) = Some 30"
    by code_simp
  from handover_resyncs [OF slow_ok(2) pc found] show ?thesis by (simp only: Let_def)
qed

theorem no_start_after_cancel_witness:
  "starts (su_proc (fold (sched_step slow_env) [Main, Main, Main] (run_step slow_env handed_over))) =
   starts (su_proc (run_step slow_env handed_over))"
proof -
  have "px_done slow_env (p_log (su_proc (run_step slow_env handed_over)))" by code_simp
  from no_start_after_cancel [OF slow_ok(1) this schedule_reachable] show ?thesis by blast
qed

theorem supervisor_stops_witness:
  "\<exists>k. su_pc ((run_step (demo_env ''30s'') ^^ k) (fresh_supervisor\<lparr>su_pc := PGone 30 Second None\<rparr>)) = PDone"
proof -
  have "ctx_ok (demo_env ''30s'')" "wait_ok (demo_env ''30s'')"
    by (simp_all add: ctx_ok_def wait_ok_def demo_env_def)
  moreover have "px_done (demo_env ''30s'') (p_log (su_proc (fresh_supervisor\<lparr>su_pc := PGone 30 Second None\<rparr>)))"
    by (simp add: demo_env_def)
  ultimately show ?thesis by (intro supervisor_stops demo_clock)
qed

end
