(* ===== verification/Supervisor_Spec.thy ===== *)
theory Supervisor_Spec
  imports Supervisor
begin

text \<open>
  What \<open>RunWithRestart\<close> promises, as a small machine, and a simulation: every interleaving of the supervisor with its
  helpers and the watchers (\<open>sup_step\<close>) is a run of that machine.

  The machine has one slot for a pooler. A pooler is started into the empty slot unless the context is cancelled, adopted
  into the empty slot, and leaves it when its end was observed; the loop returns only after the cancellation, and then
  the slot does not change any more.
\<close>

section \<open>The machine\<close>

record service =
  sp_slot :: "int option"
  sp_starts :: nat
  sp_cancelled :: bool
  sp_over :: bool

inductive spec_step :: "service \<Rightarrow> service \<Rightarrow> bool" where
  start: "sp_slot a = None \<Longrightarrow> \<not> sp_cancelled a \<Longrightarrow> \<not> sp_over a \<Longrightarrow>
    spec_step a (a\<lparr>sp_slot := Some pid, sp_starts := sp_starts a + 1\<rparr>)"
| adopt: "sp_slot a = None \<Longrightarrow> \<not> sp_over a \<Longrightarrow> spec_step a (a\<lparr>sp_slot := Some pid\<rparr>)"
| gone: "sp_slot a = Some pid \<Longrightarrow> \<not> sp_over a \<Longrightarrow> spec_step a (a\<lparr>sp_slot := None\<rparr>)"
| cancel: "spec_step a (a\<lparr>sp_cancelled := True\<rparr>)"
| leave: "sp_cancelled a \<Longrightarrow> spec_step a (a\<lparr>sp_over := True\<rparr>)"

inductive_simps spec_step_iff: "spec_step a b"

definition spec_init :: "service \<Rightarrow> bool" where
  "spec_init a \<longleftrightarrow> sp_slot a = None \<and> sp_starts a = 0 \<and> \<not> sp_over a"

text \<open>What holds of the machine's runs: cancellation is final and ends the starts, and returning is final and follows it.\<close>

definition spec_after :: "service \<Rightarrow> service \<Rightarrow> bool" where
  "spec_after a b \<longleftrightarrow> (sp_cancelled a \<longrightarrow> sp_cancelled b \<and> sp_starts b = sp_starts a) \<and>
     (sp_over a \<longrightarrow> sp_over b \<and> sp_slot b = sp_slot a) \<and> (sp_over b \<longrightarrow> sp_over a \<or> sp_cancelled b)"

lemma spec_run_after: "spec_step\<^sup>*\<^sup>* a b \<Longrightarrow> (sp_over a \<longrightarrow> sp_cancelled a) \<Longrightarrow> spec_after a b"
proof (induction rule: rtranclp_induct)
  case (step b c)
  then show ?case by (auto simp: spec_after_def elim!: spec_step.cases)
qed (simp add: spec_after_def)

section \<open>Simulation\<close>

locale simulation = invariant_system init step inv
  for init :: "'s \<Rightarrow> bool" and step :: "'s \<Rightarrow> 's \<Rightarrow> bool" and inv :: "'s \<Rightarrow> bool" +
  fixes spec :: "'a \<Rightarrow> 'a \<Rightarrow> bool"
    and abs :: "'s \<Rightarrow> 'a"
  assumes simulates: "inv s \<Longrightarrow> step s t \<Longrightarrow> spec\<^sup>*\<^sup>* (abs s) (abs t)"
begin

lemma refines: "step\<^sup>*\<^sup>* s t \<Longrightarrow> inv s \<Longrightarrow> spec\<^sup>*\<^sup>* (abs s) (abs t)"
proof (induction rule: rtranclp_induct)
  case (step t v)
  then have "inv t" by (blast intro: inv_steps)
  with step simulates [of t v] show ?case by (auto intro: rtranclp_trans)
qed simp

end

section \<open>The supervisor simulates it\<close>

definition slot_of :: "int list \<Rightarrow> int option" where
  "slot_of ps = (case ps of [] \<Rightarrow> None | p # _ \<Rightarrow> Some p)"

lemma slot_of_simps [simp]: "slot_of [] = None" "slot_of (p # ps) = Some p"
  by (simp_all add: slot_of_def)

definition service_of :: "proc_env \<Rightarrow> supervisor \<Rightarrow> service" where
  "service_of P u = \<lparr>sp_slot = slot_of (open_pids (su_proc u)), sp_starts = length (starts (su_proc u)),
     sp_cancelled = px_done P (p_log (su_proc u)), sp_over = (su_pc u = PDone)\<rparr>"

text \<open>The shape of a simulated step: one change of the slot, then possibly the cancellation, then possibly the return.\<close>

definition move :: "service \<Rightarrow> service \<Rightarrow> bool" where
  "move a b \<longleftrightarrow> (sp_cancelled a \<longrightarrow> sp_cancelled b) \<and> (sp_over a \<longrightarrow> sp_over b) \<and>
     (sp_over b \<longrightarrow> sp_over a \<or> sp_cancelled b) \<and>
     (\<exists>c. (spec_step a c \<or> c = a) \<and> sp_slot c = sp_slot b \<and> sp_starts c = sp_starts b \<and>
        sp_cancelled c = sp_cancelled a \<and> sp_over c = sp_over a)"

lemma move_run: "move a b \<Longrightarrow> spec_step\<^sup>*\<^sup>* a b"
proof -
  assume m: "move a b"
  then obtain c where c: "spec_step\<^sup>*\<^sup>* a c" "sp_slot c = sp_slot b" "sp_starts c = sp_starts b"
    "sp_cancelled c = sp_cancelled a" "sp_over c = sp_over a" by (auto simp: move_def)
  define d where "d = c\<lparr>sp_cancelled := sp_cancelled b\<rparr>"
  have cd: "spec_step\<^sup>*\<^sup>* c d"
  proof (cases "sp_cancelled b = sp_cancelled c")
    case False
    with m c(4) have "sp_cancelled b" by (auto simp: move_def)
    with cancel [of c] have "spec_step c d" by (simp add: d_def)
    then show ?thesis by (rule r_into_rtranclp)
  qed (simp add: d_def)
  have db: "spec_step\<^sup>*\<^sup>* d b"
  proof (cases "sp_over b = sp_over d")
    case True
    with c(2,3) have "b = d" by (simp add: d_def)
    then show ?thesis by simp
  next
    case False
    with m c(5) have "sp_cancelled d" "sp_over b" by (auto simp: move_def d_def)
    moreover have "b = d\<lparr>sp_over := True\<rparr>" using c(2,3) \<open>sp_over b\<close> by (simp add: d_def)
    ultimately have "spec_step d b" using leave [of d] by simp
    then show ?thesis by (rule r_into_rtranclp)
  qed
  show ?thesis by (rule rtranclp_trans [OF c(1) rtranclp_trans [OF cd db]])
qed

lemma moveI:
  assumes "sp_cancelled a \<longrightarrow> sp_cancelled b" "sp_over a \<longrightarrow> sp_over b" "sp_over b \<longrightarrow> sp_over a \<or> sp_cancelled b"
    and "spec_step a c \<or> c = a" "sp_slot c = sp_slot b" "sp_starts c = sp_starts b"
      "sp_cancelled c = sp_cancelled a" "sp_over c = sp_over a"
  shows "move a b"
  unfolding move_def using assms by blast

definition slot_change :: "bool \<Rightarrow> process \<Rightarrow> process \<Rightarrow> bool" where
  "slot_change stop s s' \<longleftrightarrow>
     open_pids s' = open_pids s \<and> starts s' = starts s \<or>
     open_pids s = [] \<and> \<not> stop \<and> (\<exists>pid. open_pids s' = [pid]) \<and> length (starts s') = Suc (length (starts s)) \<or>
     open_pids s = [] \<and> (\<exists>pid. open_pids s' = [pid]) \<and> starts s' = starts s \<or>
     (\<exists>pid. open_pids s = [pid]) \<and> open_pids s' = [] \<and> starts s' = starts s"

lemma move_change:
  assumes "ctx_ok P" "\<exists>l. p_log (su_proc v) = p_log (su_proc u) @ l" "su_pc u \<noteq> PDone"
    and "su_pc v = PDone \<longrightarrow> px_done P (p_log (su_proc v))"
    and "slot_change (px_done P (p_log (su_proc u))) (su_proc u) (su_proc v)"
  shows "move (service_of P u) (service_of P v)"
proof -
  let ?a = "service_of P u" and ?b = "service_of P v"
  have top: "sp_cancelled ?a \<longrightarrow> sp_cancelled ?b" "sp_over ?a \<longrightarrow> sp_over ?b" "sp_over ?b \<longrightarrow> sp_over ?a \<or> sp_cancelled ?b"
    using assms(1-4) ctx_ok_append by (auto simp: service_of_def)
  from assms(5) [unfolded slot_change_def] show ?thesis
  proof (elim disjE conjE exE)
    assume "open_pids (su_proc v) = open_pids (su_proc u)" "starts (su_proc v) = starts (su_proc u)"
    then show ?thesis by (intro moveI [OF top, of ?a]) (simp_all add: service_of_def)
  next
    fix pid assume *: "open_pids (su_proc u) = []" "\<not> px_done P (p_log (su_proc u))" "open_pids (su_proc v) = [pid]"
      "length (starts (su_proc v)) = Suc (length (starts (su_proc u)))"
    then have st: "spec_step ?a (?a\<lparr>sp_slot := Some pid, sp_starts := sp_starts ?a + 1\<rparr>)"
      using assms(3) by (intro spec_step.start) (simp_all add: service_of_def)
    from * show ?thesis by (intro moveI [OF top disjI1 [OF st]]) (simp_all add: service_of_def)
  next
    fix pid assume *: "open_pids (su_proc u) = []" "open_pids (su_proc v) = [pid]" "starts (su_proc v) = starts (su_proc u)"
    then have st: "spec_step ?a (?a\<lparr>sp_slot := Some pid\<rparr>)"
      using assms(3) by (intro spec_step.adopt) (simp_all add: service_of_def)
    from * show ?thesis by (intro moveI [OF top disjI1 [OF st]]) (simp_all add: service_of_def)
  next
    fix pid assume *: "open_pids (su_proc u) = [pid]" "open_pids (su_proc v) = []" "starts (su_proc v) = starts (su_proc u)"
    then have st: "spec_step ?a (?a\<lparr>sp_slot := None\<rparr>)"
      using assms(3) by (intro spec_step.gone) (simp_all add: service_of_def)
    from * show ?thesis by (intro moveI [OF top disjI1 [OF st]]) (simp_all add: service_of_def)
  qed
qed

lemma move_calm:
  assumes "ctx_ok P" "calm (su_proc u) (su_proc v)" "su_pc u = PDone \<longrightarrow> su_pc v = PDone"
    and "su_pc v = PDone \<longrightarrow> su_pc u = PDone \<or> px_done P (p_log (su_proc v))"
  shows "move (service_of P u) (service_of P v)"
proof (rule moveI [where c = "service_of P u"])
  show "sp_cancelled (service_of P u) \<longrightarrow> sp_cancelled (service_of P v)"
    using calm_done [OF assms(1,2)] by (simp add: service_of_def)
qed (use assms(2-4) in \<open>simp_all add: service_of_def calm_def\<close>)

section \<open>Each step\<close>

lemma calm_change: "calm s s' \<Longrightarrow> slot_change c s s'"
  by (simp add: slot_change_def calm_def)

lemma run_start_change:
  assumes "ctx_ok P" "sup_inv P u" "su_pc u = PStart"
  shows "slot_change (px_done P (p_log (su_proc u))) (su_proc u) (su_proc (run_start P u)) \<and>
    (\<exists>l. p_log (su_proc (run_start P u)) = p_log (su_proc u) @ l) \<and>
    (su_pc (run_start P u) = PDone \<longrightarrow> px_done P (p_log (su_proc (run_start P u))))"
proof -
  let ?s = "snd (waitDelay P (snd (now P (su_proc u))))"
  have calm: "calm (su_proc u) ?s" by (rule calm_trans [OF calm_now calm_waitDelay])
  then obtain l where log: "p_log ?s = p_log (su_proc u) @ l" and same: "open_pids ?s = []" "starts ?s = starts (su_proc u)"
    "open_pids (su_proc u) = []" using assms(2,3) by (auto simp: calm_def sup_inv_def stopped_def)
  have fin: "px_done P (p_log (su_proc u)) \<Longrightarrow> px_done P (p_log ?s)" using calm_done [OF assms(1) calm] .
  show ?thesis
    using same fin log
    by (auto simp: run_start_def Start_def Let_def case_prod_unfold slot_change_def split: sum.splits if_splits)
qed

lemma run_wait_cmd_change:
  assumes "sup_inv P u" "su_pc u = PWaitCmd pid"
  shows "slot_change c (su_proc u) (su_proc (run_wait_cmd pid u))"
  using assms by (simp add: sup_inv_def running_def run_wait_cmd_def slot_change_def)

lemma run_wait4_change:
  assumes "sup_inv P u" "su_pc u = PWait4 pid d"
  shows "slot_change c (su_proc u) (su_proc (run_wait4 P pid d u))"
  using assms
  by (auto simp: sup_inv_def running_def run_wait4_def finish_wait_def slot_change_def Let_def split: wait_result.split)

lemma run_gone_change:
  assumes "ctx_ok P" "sup_inv P u" "su_pc u = PGone pid d g"
  shows "slot_change c (su_proc u) (su_proc (run_gone P pid d g u))"
proof -
  obtain r s where poll: "gone_poll P pid d g (su_proc u) = (r, s)" by (rule prod.exhaust)
  have g: "g \<noteq> None \<longrightarrow> px_done P (p_log (su_proc u))" and up: "open_pids (su_proc u) = [pid]"
    using assms(2,3) by (auto simp: sup_inv_def running_def)
  have "starts s = starts (su_proc u)" using gone_poll_extends [of "su_proc u" P pid d g] poll by (simp add: extends_def)
  with gone_poll_result [OF assms(1) g poll] poll up show ?thesis
    by (cases r) (auto simp: run_gone_def finish_wait_def slot_change_def calm_def)
qed

lemma run_adopt_change:
  assumes "table_ok P" "sup_inv P u" "su_pc u = PAdopt dl"
  shows "slot_change c (su_proc u) (su_proc (run_adopt P dl u))"
proof -
  obtain r s where poll: "adopt_poll P (su_pid u) dl (su_proc u) = (r, s)" by (rule prod.exhaust)
  from assms have u: "stopped (su_proc u)" by (simp add: sup_inv_def)
  have "starts s = starts (su_proc u)" using adopt_poll_extends [of "su_proc u" P "su_pid u" dl] poll by (simp add: extends_def)
  with adopt_poll_result [OF assms(1) u poll] poll u show ?thesis
    by (auto simp: run_adopt_def Let_def slot_change_def calm_def stopped_def running_def split: option.splits bool.splits if_splits)
qed

lemma run_step_calm:
  assumes "su_pc u \<in> {PStartFailed, PWait, PExited, PResync, PSweep, PCrash, PBackoff, PDone}"
  shows "calm (su_proc u) (su_proc (run_step P u))"
  using assms
    calm_trans [OF calm_consume [of "su_proc u" P] calm_now [of "snd (consumeUpgradeRequest P (su_proc u))" P]]
    calm_trans [OF calm_Reload [of "su_proc u" P] calm_now [of "snd (Reload P (su_proc u))" P]]
  by (auto simp: run_step_def run_start_failed_def run_wait_def run_exited_def run_resync_def run_crash_def run_backoff_def Let_def
      case_prod_unfold split: option.split)

lemma run_step_over: "su_pc u \<notin> {PStart, PDone} \<Longrightarrow> su_pc (run_step P u) = PDone \<Longrightarrow> px_done P (p_log (su_proc (run_step P u)))"
  by (cases "su_pc u")
    (auto simp: run_step_def run_start_failed_def run_wait_def run_wait_cmd_def run_wait4_def run_gone_def run_exited_def run_adopt_def
      run_resync_def run_crash_def run_backoff_def finish_wait_def Let_def case_prod_unfold
      split: option.splits sum.splits wait_result.splits bool.splits if_splits)

lemma run_step_extends: "su_pc u \<noteq> PStart \<Longrightarrow> extends (su_proc u) (su_proc (run_step P u))"
proof (cases "su_pc u")
  case (PGone pid d g)
  then show ?thesis
    using gone_poll_extends [of "su_proc u" P pid d g]
    by (auto simp: run_step_def run_gone_def finish_wait_def case_prod_unfold split: sum.split)
next
  case (PAdopt dl)
  then show ?thesis
    using adopt_poll_extends [of "su_proc u" P "su_pid u" dl]
    by (auto simp: run_step_def run_adopt_def Let_def case_prod_unfold split: option.split bool.split)
next
  case (PWaitCmd pid)
  then show ?thesis by (simp add: run_step_def run_wait_cmd_def extends_def)
next
  case (PWait4 pid d)
  then show ?thesis
    by (auto simp: run_step_def run_wait4_def finish_wait_def extends_def Let_def split: wait_result.split)
qed (auto intro!: calm_extends run_step_calm)

lemma run_step_move:
  assumes "ctx_ok P" "table_ok P" "sup_inv P u"
  shows "move (service_of P u) (service_of P (run_step P u))"
proof (cases "su_pc u \<in> {PStartFailed, PWait, PExited, PResync, PSweep, PCrash, PBackoff, PDone}")
  case True
  note pc = this
  show ?thesis
    using run_step_over [of u P] pc by (intro move_calm [OF assms(1) run_step_calm [OF pc]]) (auto simp: run_step_def)
next
  case False
  then have "slot_change (px_done P (p_log (su_proc u))) (su_proc u) (su_proc (run_step P u))"
    using run_start_change [OF assms(1,3)] run_wait_cmd_change [OF assms(3)] run_wait4_change [OF assms(3)]
      run_gone_change [OF assms(1,3)] run_adopt_change [OF assms(2,3)]
    by (cases "su_pc u") (simp_all add: run_step_def)
  moreover have "\<exists>l. p_log (su_proc (run_step P u)) = p_log (su_proc u) @ l"
    using run_start_change [OF assms(1,3)] run_step_extends [of u P]
    by (cases "su_pc u = PStart") (simp_all add: extends_def run_step_def)
  moreover have "su_pc (run_step P u) = PDone \<longrightarrow> px_done P (p_log (su_proc (run_step P u)))"
    using run_start_change [OF assms(1,3)] run_step_over [of u P] False
    by (cases "su_pc u = PStart") (auto simp: run_step_def)
  ultimately show ?thesis using False by (intro move_change [OF assms(1)]) auto
qed

lemma sup_step_simulated:
  assumes "ctx_ok P" "table_ok P" "sup_inv P u" "sup_step P u v"
  shows "spec_step\<^sup>*\<^sup>* (service_of P u) (service_of P v)"
  using assms(4)
proof cases
  case main
  then show ?thesis using move_run [OF run_step_move [OF assms(1-3)]] by simp
next
  case (helper pre t post ts s)
  from assms(3) helper(2) have "task_ok t" by (simp add: sup_inv_def)
  from task_step_calm [OF this, of "su_proc u" P] helper have "calm (su_proc u) (su_proc v)" "su_pc v = su_pc u" by auto
  then show ?thesis by (intro move_run move_calm [OF assms(1)]) simp_all
next
  case (other t n files)
  have "calm (su_proc u) (log_ev (Clock t) ((su_proc u)\<lparr>sy_fs := files, sy_n := n\<rparr>))"
    by (rule calm_trans [of _ "(su_proc u)\<lparr>sy_fs := files, sy_n := n\<rparr>"]) (simp_all add: calm_log)
  with other show ?thesis by (intro move_run move_calm [OF assms(1)]) simp_all
qed (intro move_run move_calm [OF assms(1)]; simp)+

interpretation sup_spec: simulation "\<lambda>u. ctx_ok P \<and> table_ok P \<and> sup_init u" "sup_step P" "\<lambda>u. ctx_ok P \<and> table_ok P \<and> sup_inv P u"
  spec_step "service_of P" for P
  by unfold_locales (auto intro: sup_init_inv sup_step_inv sup_step_simulated)

text \<open>(C11) The supervisor refines the one-slot machine. Every run of the supervisor, its helper goroutines and the calls of the
  watchers, in any interleaving, is a run of the machine: poolers are started and adopted only into the empty slot and
  leave it when their end was observed, none is started after the cancellation, and the loop returns only after
  it and leaves the slot alone from then on.\<close>

theorem supervisor_refines_slot:
  assumes "ctx_ok P" "table_ok P" "sup_init u0" "(sup_step P)\<^sup>*\<^sup>* u0 u" "(sup_step P)\<^sup>*\<^sup>* u v"
  shows "spec_init (service_of P u0) \<and> spec_step\<^sup>*\<^sup>* (service_of P u0) (service_of P u) \<and>
    spec_step\<^sup>*\<^sup>* (service_of P u) (service_of P v) \<and> spec_after (service_of P u) (service_of P v)"
proof -
  have inv: "ctx_ok P \<and> table_ok P \<and> sup_inv P u0" using assms(1-3) sup_init_inv by blast
  then have invu: "ctx_ok P \<and> table_ok P \<and> sup_inv P u" by (rule sup_spec.inv_steps [OF assms(4)])
  have init: "spec_init (service_of P u0)"
    using assms(3) by (simp add: spec_init_def service_of_def sup_init_def open_pids_def starts_def)
  have run: "spec_step\<^sup>*\<^sup>* (service_of P u0) (service_of P u)" by (rule sup_spec.refines [OF assms(4) inv])
  have run': "spec_step\<^sup>*\<^sup>* (service_of P u) (service_of P v)" by (rule sup_spec.refines [OF assms(5) invu])
  have "\<not> sp_over (service_of P u0)" using init by (simp add: spec_init_def)
  with spec_run_after [OF run] have "sp_over (service_of P u) \<longrightarrow> sp_cancelled (service_of P u)"
    by (auto simp: spec_after_def)
  from init run run' spec_run_after [OF run' this] show ?thesis by blast
qed

lemma demo_service:
  "sp_starts (service_of slow_env (fold (sched_step slow_env) [Main, Main] fresh_supervisor)) = 1"
  "sp_slot (service_of slow_env (fold (sched_step slow_env) [Main, Main] fresh_supervisor)) = Some 20"
  by code_simp+

theorem supervisor_refines_slot_witness:
  "\<exists>v. (sup_step slow_env)\<^sup>*\<^sup>* fresh_supervisor v \<and>
     spec_step\<^sup>*\<^sup>* (service_of slow_env fresh_supervisor) (service_of slow_env v) \<and>
     sp_starts (service_of slow_env v) = 1 \<and> sp_slot (service_of slow_env v) = Some 20"
proof -
  let ?v = "fold (sched_step slow_env) [Main, Main] fresh_supervisor"
  have run: "(sup_step slow_env)\<^sup>*\<^sup>* fresh_supervisor ?v" by (rule schedule_reachable)
  from supervisor_refines_slot [OF slow_ok fresh_init run rtranclp.rtrancl_refl] run demo_service show ?thesis by blast
qed

end
