(* ===== verification/Wrapper_Main.thy ===== *)
theory Wrapper_Main
  imports Binary_Server Supervisor Lifecycle Render_Controller
begin

text \<open>
  The wrapper's entry point, \<open>cmd/wrapper/main.go\<close>, up to the start of its goroutines, with the helpers it calls:
  \<open>internal/wrapper/loglevel.go\<close>, \<open>internal/wrapper/rlimit_linux.go\<close> and the constructor of the process.
  The environment is a list of variables, as the sidecar container declares them. The goroutines themselves are
  the watchers' polls (\<open>File_Watcher\<close>, \<open>Binary_Sync\<close>) and the supervisor (\<open>Supervisor\<close>); health serving is I/O.

  The theorems join the parts: the sidecar reads the Secret the controller writes; a wrapper that starts serves
  a tested configuration with a binary it can account for; and the role watcher restarts the pooler exactly on
  demotions.
\<close>

section \<open>Environment variables\<close>

definition getenv :: "(string \<times> string) list \<Rightarrow> string \<Rightarrow> string" where
  "getenv vars key = (case map_of vars key of None \<Rightarrow> [] | Some v \<Rightarrow> v)"

definition envOr :: "(string \<times> string) list \<Rightarrow> string \<Rightarrow> string \<Rightarrow> string" where
  "envOr vars key defaultVal = (if getenv vars key \<noteq> [] then getenv vars key else defaultVal)"

definition envInt :: "(string \<times> string) list \<Rightarrow> string \<Rightarrow> int \<Rightarrow> int" where
  "envInt vars key defaultVal =
     (let v = getenv vars key in
      if v = [] then defaultVal else (case Atoi v of None \<Rightarrow> defaultVal | Some i \<Rightarrow> i))"

section \<open>Log level\<close>

text \<open>The levels of \<^verbatim>\<open>slog\<close> are ordered by severity.\<close>

datatype slog_level = LevelDebug | LevelInfo | LevelWarn | LevelError

fun level_value :: "slog_level \<Rightarrow> int" where
  "level_value LevelDebug = -4"
| "level_value LevelInfo = 0"
| "level_value LevelWarn = 4"
| "level_value LevelError = 8"

lemma level_value_inj: "level_value a = level_value b \<Longrightarrow> a = b"
  by (cases a; cases b) simp_all

instantiation slog_level :: linorder
begin

definition less_eq_slog_level :: "slog_level \<Rightarrow> slog_level \<Rightarrow> bool" where
  "less_eq_slog_level a b = (level_value a \<le> level_value b)"

definition less_slog_level :: "slog_level \<Rightarrow> slog_level \<Rightarrow> bool" where
  "less_slog_level a b = (level_value a < level_value b)"

instance
  by standard (auto simp: less_eq_slog_level_def less_slog_level_def dest: level_value_inj)

end

definition ParseLogLevel :: "string \<Rightarrow> slog_level" where
  "ParseLogLevel s =
     (if s = ''error'' then LevelError
      else if s = ''warn'' then LevelWarn
      else if s = ''debug'' \<or> s = ''trace'' then LevelDebug
      else LevelInfo)"

section \<open>The descriptor limit\<close>

record rlimit =
  rl_Cur :: "64 word"
  rl_Max :: "64 word"

definition MaxNoFile :: "64 word" where "MaxNoFile = 65536"

text \<open>\<open>getErr\<close> and \<open>setErr\<close> say whether the two system calls fail.\<close>

definition CapFileDescriptorLimit :: "bool \<Rightarrow> bool \<Rightarrow> rlimit \<Rightarrow> rlimit" where
  "CapFileDescriptorLimit getErr setErr limit =
     (if getErr then limit
      else if rl_Cur limit \<le> MaxNoFile then limit
      else if setErr then limit
      else \<lparr>rl_Cur = MaxNoFile, rl_Max = rl_Max limit\<rparr>)"

section \<open>Wiring\<close>

definition PgDoormanBinary :: string where "PgDoormanBinary = RuntimeBinaryPath"

definition NewProcess :: "string \<Rightarrow> proc_env \<Rightarrow> proc_env" where
  "NewProcess configPath P = P\<lparr>px_configPath := configPath, px_binary := PgDoormanBinary,
     px_waitMargin := shutdownWaitMargin, px_successorTimeout := successorSearchTimeout\<rparr>"

definition source_path :: "(string \<times> string) list \<Rightarrow> string" where
  "source_path vars = envOr vars ''CONFIG_SOURCE'' ConfigSourcePath"

definition spec_source :: "(string \<times> string) list \<Rightarrow> string" where
  "spec_source vars = dir_of (source_path vars) @ ''/'' @ BinarySpecKey"

definition main_watcher :: "(string \<times> string) list \<Rightarrow> reload_metrics \<Rightarrow> file_watcher" where
  "main_watcher vars metrics =
     NewFileWatcher PgDoormanBinary (source_path vars) RuntimeConfigPath (getenv vars ''TLS_KEY_PATH'')
       ConvertedTLSKeyPath metrics"

definition main_syncer :: "(string \<times> string) list \<Rightarrow> string \<Rightarrow> binary_syncer" where
  "main_syncer vars arch = NewBinarySyncer (spec_source vars) ImageBinaryPath RuntimeBinaryPath arch"

datatype main_error = BinarySyncFailed bin_error | ConfigApplyFailed startup_error

definition wrapper_start ::
  "bin_env \<Rightarrow> 'k watch_env \<Rightarrow> (string \<times> string) list \<Rightarrow> string \<Rightarrow> reload_metrics \<Rightarrow> bool \<Rightarrow> 'z sys_scheme \<Rightarrow>
   (main_error + file_watcher \<times> binary_watcher) \<times> 'z sys_scheme" where
  "wrapper_start E V vars arch metrics stale s =
     (let fw = main_watcher vars metrics;
          syncer = main_syncer vars arch
      in case EnsureAtStartup E syncer stale s of
           (Inl e, _, s1) \<Rightarrow> (Inl (BinarySyncFailed e), s1)
         | (Inr seed, stale1, s1) \<Rightarrow>
             (case ApplyInitialConfig E V fw syncer seed stale1 s1 of
                (Inl e, _, s2) \<Rightarrow> (Inl (ConfigApplyFailed e), s2)
              | (Inr (fw', seed'), stale2, s2) \<Rightarrow>
                  (Inr (fw', Seed seed' (NewBinaryWatcher (spec_source vars) syncer arch stale2)), s2)))"

section \<open>Helpers, proved\<close>

lemma ParseLogLevel_default: "ParseLogLevel s \<noteq> LevelInfo \<longleftrightarrow> s \<in> set [''error'', ''warn'', ''debug'', ''trace'']"
  by (auto simp: ParseLogLevel_def)

lemma ParseLogLevel_verbosity:
  "sorted (map ParseLogLevel [''trace'', ''debug'', ''info'', ''warn'', ''error''])"
  by (simp add: ParseLogLevel_def less_eq_slog_level_def)

text \<open>The descriptor limit is capped, never raised. Whatever the system calls answer, the soft limit does not grow and the
  hard limit stays; and if they succeed the soft limit is at most 65536, also when it was unlimited.\<close>

theorem CapFileDescriptorLimit_bounds:
  "rl_Cur (CapFileDescriptorLimit getErr setErr limit) \<le> rl_Cur limit \<and>
   rl_Max (CapFileDescriptorLimit getErr setErr limit) = rl_Max limit \<and>
   rl_Cur (CapFileDescriptorLimit False False limit) = min (rl_Cur limit) MaxNoFile"
  by (auto simp: CapFileDescriptorLimit_def min_def not_le)

section \<open>The sidecar reads what the controller writes\<close>

text \<open>A Secret mounted as a volume: each key is a file under the mount path.\<close>

definition mount_files :: "string \<Rightarrow> (string \<rightharpoonup> string) \<Rightarrow> string \<Rightarrow> string option" where
  "mount_files path data p =
     (if take (length path + 1) p = path @ ''/'' then data (drop (length path + 1) p) else None)"

lemma sidecar_env:
  "getenv (ct_Env (sidecar_container cfg)) ''CONFIG_SOURCE'' = ''/etc/pg-doorman-config/pg_doorman.yaml''"
  "getenv (ct_Env (sidecar_container cfg)) ''TLS_KEY_PATH'' = ''/etc/pg-doorman-tls/tls.key''"
  "getenv (ct_Env (sidecar_container cfg)) ''TLS_CERT_PATH'' = ''/etc/pg-doorman-tls/tls.crt''"
  "getenv (ct_Env (sidecar_container cfg)) ''HEALTH_PORT'' = Itoa WrapperHealthPort"
  by (simp_all add: getenv_def sidecar_container_def pod_constants)

lemma mounted_config:
  "mount_files configMountPath data (source_path (ct_Env (sidecar_container cfg))) = data ConfigKey"
  by (simp add: source_path_def envOr_def sidecar_env mount_files_def pod_constants ctl_constants)

text \<open>(C16) Controller, pod mutation and wrapper agree on names and paths. The volume that injection adds mounts the Secret
  the controller writes for the cluster; at the paths the wrapper takes from the sidecar's environment it finds
  there the rendered configuration and, exactly if it was published, the binary spec; the certificate and key
  paths in the configuration are the ones the sidecar mounts and the wrapper converts to; and the health port is the
  one that is probed.\<close>

theorem sidecar_reads_rendered_secret:
  "let vars = ct_Env (sidecar_container cfg); secret = desired_secret cluster config admin json in
   vo_Source (config_volume cluster) = SecretVolume (se_Name secret) \<and>
   \<lparr>vm_Name = vo_Name (config_volume cluster), vm_Path = configMountPath, vm_ReadOnly = True\<rparr> \<in> set (ct_Mounts (sidecar_container cfg)) \<and>
   mount_files configMountPath (se_Data secret) (source_path vars) = Some config \<and>
   mount_files configMountPath (se_Data secret) (spec_source vars) = json \<and>
   tf_Certificate render_tls = getenv vars ''TLS_CERT_PATH'' \<and>
   tf_PrivateKey render_tls = fw_keyPath (main_watcher vars metrics) \<and>
   mount_files tlsMountPath (\<lambda>key. Some key) (fw_rawKeyPath (main_watcher vars metrics)) = Some ''tls.key'' \<and>
   envInt vars ''HEALTH_PORT'' 0 = WrapperHealthPort"
proof -
  let ?vars = "ct_Env (sidecar_container cfg)"
  note vars = sidecar_env [of cfg]
  have src: "source_path ?vars = ''/etc/pg-doorman-config/pg_doorman.yaml''"
    "spec_source ?vars = ''/etc/pg-doorman-config/binary.json''"
    by (simp_all add: source_path_def spec_source_def envOr_def vars dir_of_def BinarySpecKey_def)
  have health: "envInt ?vars ''HEALTH_PORT'' 0 = WrapperHealthPort"
  proof -
    have "Atoi (Itoa WrapperHealthPort) = Some WrapperHealthPort"
      by (rule Atoi_Itoa) (simp add: int_fits_def WrapperHealthPort_def)
    moreover have "Atoi [] = None" by (simp add: Atoi_def)
    ultimately show ?thesis unfolding envInt_def vars Let_def by auto
  qed
  have keys: "mount_files configMountPath (se_Data (desired_secret cluster config admin json)) (source_path ?vars) = Some config"
    "mount_files configMountPath (se_Data (desired_secret cluster config admin json)) (spec_source ?vars) = json"
    by (simp_all add: src mount_files_def desired_secret_def pod_constants ctl_constants)
  have tls: "tf_Certificate render_tls = getenv ?vars ''TLS_CERT_PATH''"
    "tf_PrivateKey render_tls = fw_keyPath (main_watcher ?vars metrics)"
    "mount_files tlsMountPath (\<lambda>key. Some key) (fw_rawKeyPath (main_watcher ?vars metrics)) = Some ''tls.key''"
    by (simp_all add: vars render_tls_def TLSCertPath_def main_watcher_def NewFileWatcher_def mount_files_def pod_constants)
  show ?thesis
    unfolding Let_def using keys tls health
    by (simp add: config_volume_def desired_secret_def RenderedSecretName_def sidecar_container_def)
qed

section \<open>Starting\<close>

lemma main_paths:
  "fw_setup (main_watcher vars metrics)" "apart (main_syncer vars arch)"
  "set [sn_runtimePath (main_syncer vars arch), sn_imagePath (main_syncer vars arch)] \<inter> set (fw_writes (main_watcher vars metrics)) = {}"
proof -
  show "fw_setup (main_watcher vars metrics)"
    by (simp add: fw_setup_def separate_paths_def main_watcher_def NewFileWatcher_def tmp_path_def RuntimeConfigPath_def
        ConvertedTLSKeyPath_def)
  have "no_temp RuntimeBinaryPath ImageBinaryPath \<and> ImageBinaryPath \<noteq> RuntimeBinaryPath" by code_simp
  with wrapper_paths(1) show "apart (main_syncer vars arch)"
    by (simp add: apart_def main_syncer_def NewBinarySyncer_def)
  show "set [sn_runtimePath (main_syncer vars arch), sn_imagePath (main_syncer vars arch)] \<inter> set (fw_writes (main_watcher vars metrics)) = {}"
    by (simp add: main_syncer_def NewBinarySyncer_def fw_writes_def main_watcher_def NewFileWatcher_def candidate_path_def tmp_path_def
        CandidateSuffix_def RuntimeConfigPath_def ConvertedTLSKeyPath_def RuntimeBinaryPath_def RuntimeBinaryDir_def ImageBinaryPath_def)
qed

lemma wrapper_start_result:
  assumes "sy_fs s ImageBinaryPath = Some img"
    and "wrapper_start E V vars arch metrics stale s = (Inr (fw, bw), s')"
  shows "\<exists>config binary. sy_fs s' RuntimeConfigPath = Some config \<and> tested V config \<and>
    sy_fs s' RuntimeBinaryPath = Some binary \<and>
    (case desired_digest E (main_syncer vars arch) (map_option fi_data (sy_fs s (spec_source vars))) of
       None \<Rightarrow> has_digest E (be_sha256 E (fi_data img)) binary
     | Some (spec, d) \<Rightarrow> has_digest E d binary \<or> has_digest E (be_sha256 E (fi_data img)) binary \<and> bw_lastSpec bw = [])"
proof -
  let ?y = "main_syncer vars arch" and ?fw = "main_watcher vars metrics"
  have y: "sn_imagePath ?y = ImageBinaryPath" "sn_runtimePath ?y = RuntimeBinaryPath" "sn_specPath ?y = spec_source vars"
    "fw_runtimePath ?fw = RuntimeConfigPath"
    by (simp_all add: main_syncer_def NewBinarySyncer_def main_watcher_def NewFileWatcher_def)
  obtain r1 st1 s1 where start: "EnsureAtStartup E ?y stale s = (r1, st1, s1)" using prod_cases3 by blast
  with assms(2) obtain seed where seed: "r1 = Inr seed" by (cases r1) (auto simp: wrapper_start_def Let_def)
  obtain r2 st2 s2 where config: "ApplyInitialConfig E V ?fw ?y seed st1 s1 = (r2, st2, s2)" using prod_cases3 by blast
  with assms(2) start seed obtain fw' seed' where r2: "r2 = Inr (fw', seed')" "s' = s2"
    and bw: "bw = Seed seed' (NewBinaryWatcher (spec_source vars) ?y arch st2)"
    by (cases r2) (auto simp: wrapper_start_def Let_def)
  have image: "sy_fs s (sn_imagePath ?y) = Some img" "sy_fs s1 (sn_imagePath ?y) = Some img"
    using assms(1) EnsureAtStartup_keeps [of ?y ImageBinaryPath s E stale] main_paths(2) [of vars arch] start
    by (auto simp: keeps_def apart_def y)
  define dd where "dd = desired_digest E ?y (map_option fi_data (sy_fs s (spec_source vars)))"
  from EnsureAtStartup_correct [OF main_paths(2) image(1) start [unfolded seed]] obtain f where
    f: "sy_fs s1 RuntimeBinaryPath = Some f"
    and "case dd of None \<Rightarrow> has_digest E (be_sha256 E (fi_data img)) f \<and> seed = map_option fi_data (sy_fs s (spec_source vars))
      | Some (spec, d) \<Rightarrow> has_digest E d f \<and> seed = map_option fi_data (sy_fs s (spec_source vars)) \<or>
          has_digest E (be_sha256 E (fi_data img)) f \<and> seed = None \<and> st1"
    unfolding y dd_def by blast
  then have f': "case dd of None \<Rightarrow> has_digest E (be_sha256 E (fi_data img)) f
      | Some (spec, d) \<Rightarrow> has_digest E d f \<or> has_digest E (be_sha256 E (fi_data img)) f \<and> seed = None"
    by (cases dd) auto
  from ApplyInitialConfig_correct [OF main_paths image(2) config [unfolded r2]]
  show ?thesis
    using f f' unfolding dd_def [symmetric] y r2(2) bw Seed_def by (cases dd) auto
qed

text \<open>(C33) A wrapper that starts can serve. Whatever system calls fail and whatever the endpoint answers: if the start-up
  sequence succeeds, the runtime configuration was accepted by the binary, the runtime binary is the image's or has
  the digest that the mounted spec asks for, and if it is not the one asked for, the watcher starts with no
  applied spec, so its first poll tries again.\<close>

theorem wrapper_start_serves:
  assumes "sy_fs s ImageBinaryPath = Some img"
    and "wrapper_start E V vars arch metrics stale s = (Inr (fw, bw), s')"
  shows "\<exists>config binary. sy_fs s' RuntimeConfigPath = Some config \<and> tested V config \<and>
    sy_fs s' RuntimeBinaryPath = Some binary \<and>
    (case desired_digest E (main_syncer vars arch) (map_option fi_data (sy_fs s (spec_source vars))) of
       None \<Rightarrow> has_digest E (be_sha256 E (fi_data img)) binary
     | Some (spec, d) \<Rightarrow> has_digest E d binary \<or> has_digest E (be_sha256 E (fi_data img)) binary \<and> bw_lastSpec bw = [])"
  using assms by (rule wrapper_start_result)

section \<open>The role watcher\<close>

text \<open>Reference: the demotions in a sequence of readings of the role file, where an empty reading says nothing.\<close>

fun demotions :: "string \<Rightarrow> string list \<Rightarrow> nat" where
  "demotions role [] = 0"
| "demotions role (r # rs) =
     (if r = [] then demotions role rs
      else (if role = ''primary'' \<and> r \<noteq> ''primary'' then 1 else 0) + demotions r rs)"

definition put_role :: "string \<Rightarrow> string \<Rightarrow> process \<Rightarrow> process" where
  "put_role path content s = s\<lparr>sy_fs := (sy_fs s)(path \<mapsto> \<lparr>fi_data = content, fi_mode = 420\<rparr>)\<rparr>"

fun role_polls :: "disk \<Rightarrow> proc_env \<Rightarrow> string list \<Rightarrow> role_watcher \<times> process \<Rightarrow> role_watcher \<times> process" where
  "role_polls D P [] x = x"
| "role_polls D P (c # cs) (w, s) = role_polls D P cs (role_check D (Restart P) w (put_role (rw_roleFile w) c s))"

definition terms_of :: "int \<Rightarrow> process \<Rightarrow> nat" where
  "terms_of pid s = length (filter (\<lambda>e. e = Kill pid SIGTERM KillOk) (p_log s))"

lemma role_check_step:
  assumes "\<And>n. dk_error D n = None" "\<And>l sig. px_kill P l pid sig = KillOk" "pidLocked s = pid" "pid \<noteq> 0"
    and "role_check D (Restart P) w (put_role (rw_roleFile w) c s) = (w', s')"
  shows "rw_roleFile w' = rw_roleFile w \<and> pidLocked s' = pid \<and>
    rw_lastRole w' = (if TrimSpace c = [] then rw_lastRole w else TrimSpace c) \<and>
    terms_of pid s' = terms_of pid s + (if rw_lastRole w = ''primary'' \<and> TrimSpace c \<noteq> [] \<and> TrimSpace c \<noteq> ''primary'' then 1 else 0)"
  using assms
  by (auto simp: role_check_def put_role_def ReadFile_def syscall_def Let_def Restart_def signalLocked_def sys_kill_def terms_of_def
      pidLocked_def log_ev_def split: if_splits)

text \<open>The pooler is restarted exactly on demotions. Over any sequence of readings of the role file, the number of
  SIGTERMs the role watcher sends is the number of changes from primary to another role, whatever empty readings,
  repetitions and promotions lie between; the first reading never counts.\<close>

theorem role_watcher_demotions:
  assumes "\<And>n. dk_error D n = None" "\<And>l sig. px_kill P l pid sig = KillOk" "pidLocked s = pid" "pid \<noteq> 0"
  shows "terms_of pid (snd (role_polls D P contents (NewRoleWatcher path, s))) =
    terms_of pid s + demotions [] (map TrimSpace contents)"
proof -
  have "terms_of pid (snd (role_polls D P cs (w, s))) = terms_of pid s + demotions (rw_lastRole w) (map TrimSpace cs)"
    if "pidLocked s = pid" for cs w s
    using that
  proof (induction cs arbitrary: w s)
    case (Cons c cs)
    obtain w' s' where run: "role_check D (Restart P) w (put_role (rw_roleFile w) c s) = (w', s')" by (rule prod.exhaust)
    from role_check_step [OF assms(1,2) Cons.prems assms(4) run] Cons.IH [of s' w'] run show ?case by auto
  qed simp
  from this [OF assms(3), of contents "NewRoleWatcher path"] show ?thesis by (simp add: NewRoleWatcher_def)
qed

section \<open>Instances\<close>

definition demo_boot :: process where
  "demo_boot = demo_disk\<lparr>sy_fs := (sy_fs demo_disk)(ConfigSourcePath \<mapsto> \<lparr>fi_data = ''yaml'', fi_mode = 384\<rparr>)\<rparr>"

theorem wrapper_start_witness:
  "\<exists>fw bw s' config binary. wrapper_start demo_bin demo_watch [] ''amd64'' (fw_metrics example_watcher) False demo_boot = (Inr (fw, bw), s') \<and>
     sy_fs s' RuntimeConfigPath = Some config \<and> tested demo_watch config \<and> sy_fs s' RuntimeBinaryPath = Some binary"
proof -
  have ok: "\<not> isl (fst (wrapper_start demo_bin demo_watch [] ''amd64'' (fw_metrics example_watcher) False demo_boot))"
    by code_simp
  then obtain fw bw s' where run: "wrapper_start demo_bin demo_watch [] ''amd64'' (fw_metrics example_watcher) False demo_boot = (Inr (fw, bw), s')"
    by (metis prod.collapse sum.collapse(2))
  have img: "sy_fs demo_boot ImageBinaryPath = Some \<lparr>fi_data = ''old'', fi_mode = 493\<rparr>" by code_simp
  from wrapper_start_serves [OF img run] run show ?thesis by blast
qed

lemma demo_roles:
  "pidLocked demo_disk = 20" "terms_of 20 demo_disk = 0"
  "demotions [] (map TrimSpace [''primary'', [], ''replica'', ''primary'', ''replica'']) = 2"
proof -
  show "pidLocked demo_disk = 20" by code_simp
  show "terms_of 20 demo_disk = 0" by code_simp
  have "TrimSpace ''primary'' = ''primary''" "TrimSpace [] = []" "TrimSpace ''replica'' = ''replica''" by code_simp+
  then show "demotions [] (map TrimSpace [''primary'', [], ''replica'', ''primary'', ''replica'']) = 2" by simp
qed

theorem role_watcher_witness:
  "terms_of 20 (snd (role_polls quiet_disk (demo_env []) [''primary'', [], ''replica'', ''primary'', ''replica''] (NewRoleWatcher ''role'', demo_disk))) = 2"
proof -
  have env: "\<And>n. dk_error quiet_disk n = None" "\<And>l sig. px_kill (demo_env []) l 20 sig = KillOk"
    by (simp_all add: quiet_disk_def demo_env_def)
  have nz: "(20 :: int) \<noteq> 0" by simp
  show ?thesis unfolding role_watcher_demotions [OF env demo_roles(1) nz] demo_roles(2,3) by (rule add_0)
qed

end
