(* ===== verification/Wrapper_System.thy ===== *)
theory Wrapper_System
  imports Wrapper_Main
begin

text \<open>
  The wrapper as a whole: the supervisor with its helper goroutines, the configuration watcher, the binary watcher and
  the role watcher, interleaved on one state, together with the kubelet, which updates the mounted files at any time.

  Polls are atomic here; the mutex makes the calls into the process atomic, and each watcher is the only writer of its
  files. The invariant says that the watchers do not disturb the supervisor and the supervisor does not disturb
  the files, so what was proved of the parts holds of the whole.
\<close>

section \<open>File operations leave the process alone\<close>

definition same_process :: "'z sys_scheme \<Rightarrow> 'z sys_scheme \<Rightarrow> bool" where
  "same_process s s' \<longleftrightarrow> sys.more s' = sys.more s"

lemma same_process_refl: "reflp same_process"
  by (simp add: reflp_def same_process_def)

lemma same_process_trans: "transp same_process"
  by (simp add: transp_def same_process_def)

lemmas process_combinators =
  framed_retS [OF same_process_refl] framed_throwS [OF same_process_refl] framed_tryS framed_mapErrS
  framed_bindS [OF same_process_trans]

lemma process_io:
  "framed same_process (ReadFile D p)" "framed same_process (OpenTrunc D p m)" "framed same_process (Write D p bs)"
  "framed same_process (Sync D)" "framed same_process (Close D)" "framed same_process (MkdirAll D p)"
  "framed same_process (Remove D p)" "framed same_process (Chmod D p m)" "framed same_process (Rename D p q)"
  "framed same_process (CreateTemp D p q)"
  by (auto simp: framed_def io_defs Write_def syscall_def set_fs_def append_data_def same_process_def Let_def
      split: option.split)

lemma process_on_error: "framed same_process m \<Longrightarrow> framed same_process c \<Longrightarrow> framed same_process (on_error m c)"
  unfolding on_error_def by (intro process_combinators) (auto split: sum.split intro!: process_combinators)

lemma process_deferring: "framed same_process m \<Longrightarrow> framed same_process c \<Longrightarrow> framed same_process (deferring m c)"
  unfolding deferring_def by (intro process_combinators) (auto split: sum.split intro!: process_combinators)

lemmas process_intros = process_combinators process_io process_on_error process_deferring

lemma process_tester: "framed same_process (NewBinaryConfigTester V b q)"
  by (simp add: framed_def NewBinaryConfigTester_def same_process_def)

lemma process_EnsurePKCS8Key: "framed same_process (EnsurePKCS8Key D K p q)"
  unfolding EnsurePKCS8Key_def WriteFile_def Let_def
  by (intro process_intros) (auto split: sum.split intro!: process_intros)

lemma process_AtomicWrite: "framed same_process (AtomicWrite D p d)"
  unfolding AtomicWrite_def Let_def by (intro process_intros)

lemma process_materialize: "framed same_process (materialize V w data)"
  unfolding materialize_def
  by (intro process_intros process_AtomicWrite)
    (auto split: option.split sum.split intro!: process_intros process_tester process_EnsurePKCS8Key)

lemma process_FileSHA256: "framed same_process (FileSHA256 E p)"
  unfolding FileSHA256_def by (intro process_intros)

lemma process_Download: "framed same_process (Download E y spec want dest)"
proof -
  have "framed same_process (http_do E url)" for url
    by (simp add: framed_def http_do_def same_process_def)
  moreover have "framed same_process (create_temp E dest)"
    unfolding create_temp_def by (intro process_intros) (auto split: sum.split intro!: process_intros)
  moreover have "framed same_process (fill_temp E want resp tmp)" for resp tmp
    unfolding fill_temp_def copy_body_def Let_def
    by (intro process_intros) (auto split: option.split intro!: process_intros)
  ultimately show ?thesis
    unfolding Download_def install_body_def
    by (auto split: sum.split intro!: process_intros)
qed

lemma process_image:
  "framed same_process (installFromImage E y want)" "framed same_process (RevertToImage E y)"
proof -
  have "framed same_process (atomicInstall D dest src)" for D dest src
    unfolding atomicInstall_def by (intro process_intros)
  moreover have "framed same_process (runtime_has E q d)" for q d
    unfolding runtime_has_def by (intro process_intros process_FileSHA256)
  ultimately show inst: "framed same_process (installFromImage E y want)" for want
    unfolding installFromImage_def by (auto intro!: process_intros process_FileSHA256)
  show "framed same_process (RevertToImage E y)"
    unfolding RevertToImage_def runtime_has_def by (auto intro!: process_intros process_FileSHA256 inst)
qed

lemma process_ApplyInitial: "framed same_process (ApplyInitial V w)"
  unfolding ApplyInitial_def by (intro process_intros process_materialize)

lemma framed_run: "framed R m \<Longrightarrow> m s = (r, s') \<Longrightarrow> R s s'"
  unfolding framed_def by (metis snd_conv)

lemma with_gauge_process:
  assumes "framed same_process m"
  shows "same_process s (snd (snd (with_gauge b (bindS m (\<lambda>_. retS a)) s)))"
proof -
  have "framed same_process (bindS m (\<lambda>_. retS a))" by (intro process_combinators assms)
  then show ?thesis by (simp add: with_gauge_def framed_def case_prod_unfold)
qed

lemma EnsureAtStartup_process: "same_process s (snd (snd (EnsureAtStartup E y stale s)))"
proof -
  note runs = framed_run [OF process_io(1)] framed_run [OF process_FileSHA256] framed_run [OF process_Download]
  note gauge = with_gauge_process [OF process_image(1)]
  have digest: "same_process t (snd (snd (ensure_digest E y spec d data stale t)))" for spec d data t
    unfolding ensure_digest_def
    by (auto split: prod.splits sum.splits dest!: runs
        intro: transpD [OF same_process_trans] transpD [OF same_process_trans _ gauge])
  show ?thesis
    unfolding EnsureAtStartup_def Let_def
    by (auto split: prod.splits sum.splits io_error.splits option.splits dest!: runs
        intro: transpD [OF same_process_trans _ gauge] transpD [OF same_process_trans _ digest])
qed

lemma ApplyInitialConfig_process: "same_process s (snd (snd (ApplyInitialConfig E V w y seed stale s)))"
  unfolding ApplyInitialConfig_def
  by (auto split: prod.splits sum.splits dest!: framed_run [OF process_ApplyInitial] framed_run [OF process_image(2)]
      intro: transpD [OF same_process_trans])

lemma same_process_calm: "same_process s s' \<Longrightarrow> calm s s'" for s s' :: process
  by (cases s; cases s') (simp add: same_process_def calm_def open_pids_def starts_def)

lemma framed_calm: "framed same_process m \<Longrightarrow> m s = (r, s') \<Longrightarrow> calm s s'" for s s' :: process
  unfolding framed_def by (metis same_process_calm snd_conv)

section \<open>What a poll is made of\<close>

text \<open>A relation that every operation a watcher calls respects holds between the states before and after a poll.\<close>

lemma check_framed:
  assumes R: "transp R" and rd: "framed R (ReadFile (wv_disk V) (fw_sourcePath w))"
    and mat: "\<And>data. framed R (materialize V (set_stale True w) data)"
    and sig: "framed R reload" "framed R restart"
  shows "R s (snd (check V reload restart w s))"
proof -
  note runs = framed_run [OF rd] framed_run [OF mat] framed_run [OF sig(1)] framed_run [OF sig(2)]
  show ?thesis
    unfolding check_def Let_def
    by (auto split: prod.splits sum.splits if_splits dest!: runs intro: transpD [OF R])
qed

lemma role_check_framed:
  assumes R: "transp R" and rd: "framed R (ReadFile D (rw_roleFile w))" and sig: "framed R restart"
  shows "R s (snd (role_check D restart w s))"
  unfolding role_check_def Let_def
  by (auto split: prod.splits sum.splits if_splits dest!: framed_run [OF rd] framed_run [OF sig] intro: transpD [OF R])

lemma bin_check_framed:
  assumes R: "transp R" and rd: "framed R (ReadFile (be_disk E) (bw_specPath w))"
    and sha: "framed R (FileSHA256 E (bw_runtimePath w))"
    and fl: "\<And>s. R s (snd (inFlight s))"
    and dl: "\<And>y spec d. framed R (Download E y spec d (bin_candidate w))"
    and tst: "framed R (NewBinaryConfigTester V (bin_candidate w) (bw_configPath w))"
    and rn: "framed R (Rename (be_disk E) (bin_candidate w) (bw_runtimePath w))"
    and rm: "framed R (Remove (be_disk E) (bin_candidate w))" and up: "framed R upgrade"
  shows "R s (snd (bin_check E V upgrade inFlight w s))"
proof -
  have fl': "R t t'" if "inFlight t = (b, t')" for t b t' using fl [of t] that by simp
  have rm': "R t (snd (Remove (be_disk E) (bin_candidate w) t))" for t using rm unfolding framed_def by blast
  have sw: "R t t'" if "swap_binary E V upgrade (w\<lparr>bw_stale := True\<rparr>) data t = (v, t')" for data t v t'
    using that unfolding swap_binary_def
    by (auto simp: bin_candidate_def [of "w\<lparr>bw_stale := True\<rparr>"] simp flip: bin_candidate_def
        split: prod.splits sum.splits dest!: framed_run [OF tst] framed_run [OF rn] framed_run [OF up]
        intro: transpD [OF R] transpD [OF R _ rm'])
  have ap: "R t t'" if "apply_spec E V upgrade inFlight w data spec d t = (v, t')" for data spec d t v t'
    using that unfolding apply_spec_def Let_def
    by (auto split: prod.splits sum.splits if_splits bool.splits dest!: framed_run [OF sha] framed_run [OF dl] fl' sw
        intro: transpD [OF R])
  then have ap': "R t (snd (apply_spec E V upgrade inFlight w data spec d t))" for data spec d t by (metis prod.collapse)
  show ?thesis
    unfolding bin_check_def Let_def
    by (auto split: prod.splits sum.splits if_splits dest!: framed_run [OF rd] intro: transpD [OF R] transpD [OF R _ ap'])
qed

section \<open>The watchers do not disturb the supervisor\<close>

lemma calm_transp: "transp calm"
  by (rule transpI) (rule calm_trans)

lemma calm_framed: "framed same_process m \<Longrightarrow> framed calm m" for m :: "(process, 'e, 'a) st"
  unfolding framed_def using same_process_calm by blast

lemma calm_signals: "framed calm (Reload P)" "framed calm (Restart P)" "framed calm (Upgrade P)"
  by (simp_all add: framed_def)

lemma check_calm: "calm s (snd (check V (Reload P) (Restart P) w s))"
  by (rule check_framed) (simp_all add: calm_transp calm_framed process_io process_materialize calm_signals)

lemma role_check_calm: "calm s (snd (role_check D (Restart P) w s))"
  by (rule role_check_framed) (simp_all add: calm_transp calm_framed process_io calm_signals)

lemma bin_check_calm: "calm s (snd (bin_check E V (Upgrade P) (UpgradeInFlight P) w s))"
  by (rule bin_check_framed)
    (simp_all add: calm_transp calm_framed process_io process_FileSHA256 process_Download process_tester calm_signals)

section \<open>The supervisor does not disturb the files\<close>

lemma proc_files [simp]:
  "sy_fs (snd (now P s)) = sy_fs s" "sy_fs (sleep d s) = sy_fs s" "sy_fs (snd (sys_kill P pid sig s)) = sy_fs s"
  "sy_fs (snd (waitDelay P s)) = sy_fs s" "sy_fs (snd (findSuccessorPid P b x s)) = sy_fs s"
  by (auto simp: now_def sleep_def sys_kill_def waitDelay_def findSuccessorPid_def ReadFile_def syscall_def Let_def
      split: option.split)

lemma kill_entries_files [simp]: "sy_fs (snd (kill_entries P b x es s)) = sy_fs s"
  by (induction es arbitrary: s) (auto simp: Let_def case_prod_unfold split: option.split)

lemma poll_files [simp]:
  "sy_fs (snd (gone_poll P pid d g s)) = sy_fs s" "sy_fs (snd (adopt_poll P old dl s)) = sy_fs s"
  "sy_fs (sweepStrays P s) = sy_fs s" "sy_fs (snd (consumeUpgradeRequest P s)) = sy_fs s" "sy_fs (snd (Start P s)) = sy_fs s"
  "sy_fs (snd (Reload P s)) = sy_fs s" "sy_fs (snd (Restart P s)) = sy_fs s"
  by (auto simp: gone_poll_def adopt_poll_def sweepStrays_def killStrays_def consumeUpgradeRequest_def Reload_def Restart_def
      signalLocked_files upgradeRequestFreshLocked_def Start_def Let_def case_prod_unfold
      split: kill_result.split option.split sum.split)

lemma run_step_files: "sy_fs (su_proc (run_step P u)) = sy_fs (su_proc u)"
  by (cases "su_pc u")
    (simp_all add: run_step_def run_start_def run_start_failed_def run_wait_def run_wait_cmd_def run_wait4_def run_gone_def
      finish_wait_def run_exited_def run_adopt_def run_resync_def run_crash_def run_backoff_def Let_def case_prod_unfold
      split: sum.split option.split bool.split wait_result.split)

lemma task_step_files: "sy_fs (snd (task_step P t s)) = sy_fs s"
  by (cases t) (simp_all add: Let_def case_prod_unfold)

section \<open>Each watcher writes its own files\<close>

definition same_at :: "string \<Rightarrow> 'z sys_scheme \<Rightarrow> 'z sys_scheme \<Rightarrow> bool" where
  "same_at p s s' \<longleftrightarrow> sy_fs s' p = sy_fs s p"

lemma same_at_trans: "transp (same_at p)"
  by (simp add: transp_def same_at_def)

lemma same_at_framed: "framed (keeps p) m \<Longrightarrow> framed (same_at p) m"
  unfolding framed_def same_at_def keeps_def by blast

lemma same_at_signals: "framed (same_at p) (Reload P)" "framed (same_at p) (Restart P)" "framed (same_at p) (Upgrade P)"
  using process_upgrades.upgrade_files by (simp_all add: framed_def same_at_def)

lemma fw_writes_metrics [simp]: "fw_writes (set_stale b w) = fw_writes w"
  by (simp add: fw_writes_def candidate_path_def set_stale_def)

lemma check_keeps: "p \<notin> set (fw_writes w) \<Longrightarrow> same_at p s (snd (check V (Reload P) (Restart P) w s))"
  by (rule check_framed) (simp_all add: same_at_trans same_at_framed framed_io framed_materialize same_at_signals)

lemma role_check_keeps: "same_at p s (snd (role_check D (Restart P) w s))"
  by (rule role_check_framed) (simp_all add: same_at_trans same_at_framed framed_io same_at_signals)

lemma bin_check_keeps:
  assumes "no_temp (bin_candidate w) p" "p \<notin> {bin_candidate w, bw_runtimePath w}"
  shows "same_at p s (snd (bin_check E V (Upgrade P) (UpgradeInFlight P) w s))"
proof (rule bin_check_framed)
  show "same_at p t (snd (UpgradeInFlight P t))" for t
    unfolding same_at_def by (simp only: process_upgrades.inFlight_files)
qed (use assms in \<open>auto intro!: same_at_trans same_at_framed framed_io framed_tester framed_Download same_at_signals\<close>)

lemma check_keeps_paths:
  "check V reload restart w s = (w', s') \<Longrightarrow> fw_writes w' = fw_writes w \<and> fw_sourcePath w' = fw_sourcePath w"
  by (auto simp: check_def Let_def fw_writes_def candidate_path_def set_stale_def count_failure_def count_success_def
      split: prod.splits sum.splits if_splits)

definition bw_paths :: "binary_watcher \<Rightarrow> string list" where
  "bw_paths w = [bw_specPath w, bw_runtimePath w, bw_configPath w, bw_arch w]"

lemma bin_check_keeps_paths: "bin_check E V upgrade inFlight w s = (w', s') \<Longrightarrow> bw_paths w' = bw_paths w"
  by (auto simp: bin_check_def apply_spec_def swap_binary_def bw_paths_def Let_def
      split: prod.splits sum.splits if_splits bool.splits)

section \<open>The whole wrapper\<close>

record wrapper_state =
  wr_fw :: file_watcher
  wr_bw :: binary_watcher
  wr_rw :: "role_watcher option"
  wr_sup :: supervisor

abbreviation wr_proc :: "wrapper_state \<Rightarrow> process" where
  "wr_proc x \<equiv> su_proc (wr_sup x)"

definition set_proc :: "process \<Rightarrow> wrapper_state \<Rightarrow> wrapper_state" where
  "set_proc s x = x\<lparr>wr_sup := (wr_sup x)\<lparr>su_proc := s\<rparr>\<rparr>"

text \<open>The kubelet may change any file but the two the wrapper runs from; \<open>T\<close> are the contents it may mount as the
  binary spec.\<close>

definition mounts_ok :: "string set \<Rightarrow> binary_watcher \<Rightarrow> (string \<rightharpoonup> disk_file) \<Rightarrow> bool" where
  "mounts_ok T w files \<longleftrightarrow> (case files (bw_specPath w) of None \<Rightarrow> True | Some doc \<Rightarrow> fi_data doc \<in> T)"

inductive wr_step :: "bin_env \<Rightarrow> 'k watch_env \<Rightarrow> proc_env \<Rightarrow> string set \<Rightarrow> wrapper_state \<Rightarrow> wrapper_state \<Rightarrow> bool"
  for E V P T where
  main: "wr_step E V P T x (x\<lparr>wr_sup := run_step P (wr_sup x)\<rparr>)"
| helper: "su_tasks (wr_sup x) = pre @ t # post \<Longrightarrow> task_step P t (wr_proc x) = (ts, s) \<Longrightarrow>
    wr_step E V P T x (x\<lparr>wr_sup := (wr_sup x)\<lparr>su_tasks := pre @ ts @ post, su_proc := s\<rparr>\<rparr>)"
| config: "check V (Reload P) (Restart P) (wr_fw x) (wr_proc x) = (w, s) \<Longrightarrow>
    wr_step E V P T x (set_proc s (x\<lparr>wr_fw := w\<rparr>))"
| binary: "bin_check E V (Upgrade P) (UpgradeInFlight P) (wr_bw x) (wr_proc x) = (w, s) \<Longrightarrow>
    wr_step E V P T x (set_proc s (x\<lparr>wr_bw := w\<rparr>))"
| role: "wr_rw x = Some r \<Longrightarrow> role_check (wv_disk V) (Restart P) r (wr_proc x) = (w, s) \<Longrightarrow>
    wr_step E V P T x (set_proc s (x\<lparr>wr_rw := Some w\<rparr>))"
| kubelet: "mounts_ok T (wr_bw x) files \<Longrightarrow>
    files RuntimeConfigPath = sy_fs (wr_proc x) RuntimeConfigPath \<Longrightarrow>
    files RuntimeBinaryPath = sy_fs (wr_proc x) RuntimeBinaryPath \<Longrightarrow>
    wr_step E V P T x (set_proc ((wr_proc x)\<lparr>sy_fs := files, sy_n := n\<rparr>) x)"

definition accounted :: "bin_env \<Rightarrow> string \<Rightarrow> string set \<Rightarrow> disk_file \<Rightarrow> disk_file \<Rightarrow> bool" where
  "accounted E arch T img f \<longleftrightarrow> has_digest E (be_sha256 E (fi_data img)) f \<or>
     (\<exists>d \<in> T. \<exists>spec. ParseBinarySpec (be_decode E) d = Inr spec \<and> has_digest E (digest_for spec arch) f)"

definition wr_wired :: "(string \<times> string) list \<Rightarrow> string \<Rightarrow> wrapper_state \<Rightarrow> bool" where
  "wr_wired vars arch x \<longleftrightarrow> (\<exists>metrics. fw_writes (wr_fw x) = fw_writes (main_watcher vars metrics)) \<and> fw_setup (wr_fw x) \<and>
     fw_runtimePath (wr_fw x) = RuntimeConfigPath \<and>
     bw_paths (wr_bw x) = [spec_source vars, RuntimeBinaryPath, RuntimeConfigPath, arch]"

definition wr_files :: "bin_env \<Rightarrow> 'k watch_env \<Rightarrow> string \<Rightarrow> string set \<Rightarrow> disk_file \<Rightarrow> wrapper_state \<Rightarrow> bool" where
  "wr_files E V arch T img x \<longleftrightarrow> mounts_ok T (wr_bw x) (sy_fs (wr_proc x)) \<and>
     (\<exists>f. sy_fs (wr_proc x) RuntimeConfigPath = Some f \<and> tested V f) \<and>
     (\<exists>f. sy_fs (wr_proc x) RuntimeBinaryPath = Some f \<and> accounted E arch T img f)"

lemma set_proc_fields [simp]:
  "wr_proc (set_proc s x) = s" "wr_fw (set_proc s x) = wr_fw x" "wr_bw (set_proc s x) = wr_bw x"
  "wr_sup (set_proc s x) = (wr_sup x)\<lparr>su_proc := s\<rparr>"
  by (simp_all add: set_proc_def)

text \<open>The mounted spec is apart from every file the wrapper writes, as its directory is.\<close>

lemma wired_paths:
  assumes "source_path vars = ConfigSourcePath"
  shows "set [spec_source vars, RuntimeBinaryPath] \<inter> set (fw_writes (main_watcher vars metrics)) = {}"
    "no_temp (RuntimeBinaryPath @ binaryCandidateSuffix) (spec_source vars)" "no_temp RuntimeBinaryPath (spec_source vars)"
    "spec_source vars \<notin> {RuntimeBinaryPath @ binaryCandidateSuffix, RuntimeBinaryPath}"
proof -
  have eq: "spec_source vars = ''/etc/pg-doorman-config/binary.json''"
    unfolding spec_source_def assms by code_simp
  show "set [spec_source vars, RuntimeBinaryPath] \<inter> set (fw_writes (main_watcher vars metrics)) = {}"
    by (simp add: eq fw_writes_def main_watcher_def NewFileWatcher_def candidate_path_def tmp_path_def
        CandidateSuffix_def RuntimeConfigPath_def ConvertedTLSKeyPath_def RuntimeBinaryPath_def RuntimeBinaryDir_def)
  show "no_temp (RuntimeBinaryPath @ binaryCandidateSuffix) (spec_source vars)" unfolding eq by code_simp
  show "no_temp RuntimeBinaryPath (spec_source vars)" unfolding eq by code_simp
  show "spec_source vars \<notin> {RuntimeBinaryPath @ binaryCandidateSuffix, RuntimeBinaryPath}" unfolding eq by code_simp
qed

definition wr_inv ::
  "bin_env \<Rightarrow> 'k watch_env \<Rightarrow> proc_env \<Rightarrow> (string \<times> string) list \<Rightarrow> string \<Rightarrow> string set \<Rightarrow> disk_file \<Rightarrow> wrapper_state \<Rightarrow> bool" where
  "wr_inv E V P vars arch T img x \<longleftrightarrow> sup_inv P (wr_sup x) \<and> wr_wired vars arch x \<and> wr_files E V arch T img x"

lemma config_files:
  assumes "source_path vars = ConfigSourcePath" "wr_wired vars arch x" "wr_files E V arch T img x"
    and run: "check V (Reload P) (Restart P) (wr_fw x) (wr_proc x) = (w, s)"
  shows "wr_wired vars arch (set_proc s (x\<lparr>wr_fw := w\<rparr>)) \<and> wr_files E V arch T img (set_proc s (x\<lparr>wr_fw := w\<rparr>))"
proof -
  from assms(2) obtain metrics where wr: "fw_writes (wr_fw x) = fw_writes (main_watcher vars metrics)"
    and bw: "bw_specPath (wr_bw x) = spec_source vars"
    by (auto simp: wr_wired_def bw_paths_def)
  have "same_at p (wr_proc x) s" if "p \<in> {spec_source vars, RuntimeBinaryPath}" for p
    using check_keeps [of p "wr_fw x" "wr_proc x" V P] wired_paths(1) [OF assms(1), of metrics] wr that run by auto
  then have same: "sy_fs s (spec_source vars) = sy_fs (wr_proc x) (spec_source vars)"
    "sy_fs s RuntimeBinaryPath = sy_fs (wr_proc x) RuntimeBinaryPath" by (auto simp: same_at_def)
  from assms(2) obtain b where fw: "separate_paths (wr_fw x)" "fw_tester (wr_fw x) = Some b" "fw_runtimePath (wr_fw x) = RuntimeConfigPath"
    by (auto simp: wr_wired_def fw_setup_def)
  from process_signals.check_runtime [OF fw(1,2) run] fw(3) same assms(3) bw
  have "wr_files E V arch T img (set_proc s (x\<lparr>wr_fw := w\<rparr>))"
    by (auto simp: wr_files_def mounts_ok_def)
  with check_keeps_paths [OF run] check_keeps_setup [OF run] assms(2) show ?thesis by (auto simp: wr_wired_def)
qed

lemma binary_files:
  assumes "source_path vars = ConfigSourcePath" "wr_wired vars arch x" "wr_files E V arch T img x"
    and run: "bin_check E V (Upgrade P) (UpgradeInFlight P) (wr_bw x) (wr_proc x) = (w, s)"
  shows "wr_wired vars arch (set_proc s (x\<lparr>wr_bw := w\<rparr>)) \<and> wr_files E V arch T img (set_proc s (x\<lparr>wr_bw := w\<rparr>))"
proof -
  from assms(2) have bw: "bw_specPath (wr_bw x) = spec_source vars" "bw_runtimePath (wr_bw x) = RuntimeBinaryPath"
    "bw_configPath (wr_bw x) = RuntimeConfigPath" "bw_arch (wr_bw x) = arch"
    "bin_candidate (wr_bw x) = RuntimeBinaryPath @ binaryCandidateSuffix"
    by (auto simp: wr_wired_def bw_paths_def bin_candidate_def)
  have ne: "RuntimeConfigPath \<noteq> RuntimeBinaryPath" by code_simp
  have "same_at p (wr_proc x) s" if "p = spec_source vars \<or> p = RuntimeConfigPath" for p
    using bin_check_keeps [of "wr_bw x" p "wr_proc x" E V P] wired_paths(2,4) [OF assms(1)] wrapper_paths(4,5) that run bw ne
    by auto
  then have same: "sy_fs s (spec_source vars) = sy_fs (wr_proc x) (spec_source vars)"
    "sy_fs s RuntimeConfigPath = sy_fs (wr_proc x) RuntimeConfigPath" by (auto simp: same_at_def)
  have paths: "bw_paths w = bw_paths (wr_bw x)" by (rule bin_check_keeps_paths [OF run])
  then have spec: "bw_specPath w = spec_source vars" using bw by (simp add: bw_paths_def)
  from process_upgrades.bin_check_runtime [of "wr_bw x", unfolded bw, OF wrapper_paths run] assms(3) bw(1)
  have "\<exists>f. sy_fs s RuntimeBinaryPath = Some f \<and> accounted E arch T img f"
    by (fastforce simp: wr_files_def mounts_ok_def accounted_def verified_def has_digest_def)
  with assms(3) same spec bw(1) have "wr_files E V arch T img (set_proc s (x\<lparr>wr_bw := w\<rparr>))"
    by (auto simp: wr_files_def mounts_ok_def)
  with paths assms(2) show ?thesis by (auto simp: wr_wired_def)
qed

lemma wr_files_cong:
  "wr_fw y = wr_fw x \<Longrightarrow> wr_bw y = wr_bw x \<Longrightarrow> sy_fs (wr_proc y) = sy_fs (wr_proc x) \<Longrightarrow>
     wr_wired vars arch x \<and> wr_files E V arch T img x \<Longrightarrow> wr_wired vars arch y \<and> wr_files E V arch T img y"
  by (simp add: wr_files_def wr_wired_def)

lemma wr_step_files:
  assumes "source_path vars = ConfigSourcePath" "wr_wired vars arch x \<and> wr_files E V arch T img x" "wr_step E V P T x y"
  shows "wr_wired vars arch y \<and> wr_files E V arch T img y"
  using assms(3)
proof cases
  case main
  with assms(2) show ?thesis by (intro wr_files_cong [OF _ _ _ assms(2)]) (simp_all add: run_step_files)
next
  case (helper pre t post ts s)
  with task_step_files [of P t "wr_proc x"] show ?thesis by (intro wr_files_cong [OF _ _ _ assms(2)]) simp_all
next
  case (config w s)
  with config_files [OF assms(1)] assms(2) show ?thesis by blast
next
  case (binary w s)
  with binary_files [OF assms(1)] assms(2) show ?thesis by blast
next
  case (role r w s)
  have "sy_fs s = sy_fs (wr_proc x)"
  proof
    fix p show "sy_fs s p = sy_fs (wr_proc x) p"
      using role_check_keeps [of p "wr_proc x" "wv_disk V" P r] role by (simp add: same_at_def)
  qed
  with role show ?thesis by (intro wr_files_cong [OF _ _ _ assms(2)]) simp_all
next
  case (kubelet files n)
  with assms(2) show ?thesis by (auto simp: wr_files_def wr_wired_def)
qed

lemma wr_step_sup:
  assumes "ctx_ok P" "table_ok P" "sup_inv P (wr_sup x)" "wr_step E V P T x y"
  shows "sup_inv P (wr_sup y)"
  using assms(4)
proof cases
  case main
  with assms sup_step_inv [OF assms(1-3) sup_step.main] show ?thesis by simp
next
  case (helper pre t post ts s)
  with sup_step_inv [OF assms(1-3) sup_step.helper] show ?thesis by simp
next
  case (config w s)
  with check_calm [of "wr_proc x" V P "wr_fw x"] sup_inv_calm [OF assms(1,3)] show ?thesis by simp
next
  case (binary w s)
  with bin_check_calm [of "wr_proc x" E V P "wr_bw x"] sup_inv_calm [OF assms(1,3)] show ?thesis by simp
next
  case (role r w s)
  with role_check_calm [of "wr_proc x" "wv_disk V" P r] sup_inv_calm [OF assms(1,3)] show ?thesis by simp
next
  case (kubelet files n)
  with sup_inv_calm [OF assms(1,3)] show ?thesis by simp
qed

section \<open>From start-up on\<close>

definition wr_init ::
  "bin_env \<Rightarrow> 'k watch_env \<Rightarrow> (string \<times> string) list \<Rightarrow> string \<Rightarrow> string set \<Rightarrow> disk_file \<Rightarrow> wrapper_state \<Rightarrow> bool" where
  "wr_init E V vars arch T img x \<longleftrightarrow>
     (\<exists>metrics stale s0. wrapper_start E V vars arch metrics stale s0 = (Inr (wr_fw x, wr_bw x), wr_proc x) \<and>
        sup_init ((wr_sup x)\<lparr>su_proc := s0\<rparr>) \<and> sy_fs s0 ImageBinaryPath = Some img \<and>
        (case sy_fs s0 (spec_source vars) of None \<Rightarrow> True | Some doc \<Rightarrow> fi_data doc \<in> T))"

lemma wrapper_start_parts:
  assumes "wrapper_start E V vars arch metrics stale s = (Inr (fw, bw), s')"
  shows "\<exists>seed st s1 seed' st'. EnsureAtStartup E (main_syncer vars arch) stale s = (Inr seed, st, s1) \<and>
    ApplyInitialConfig E V (main_watcher vars metrics) (main_syncer vars arch) seed st s1 = (Inr (fw, seed'), st', s') \<and>
    bw = Seed seed' (NewBinaryWatcher (spec_source vars) (main_syncer vars arch) arch st')"
  using assms by (auto simp: wrapper_start_def Let_def split: prod.splits sum.splits)

lemma ApplyInitialConfig_watcher:
  assumes "ApplyInitialConfig E V w y seed stale s = (Inr (w', seed'), stale', s')"
  shows "\<exists>data. w' = w\<lparr>fw_lastApplied := data\<rparr>"
proof -
  have "\<exists>data. w' = w\<lparr>fw_lastApplied := data\<rparr>" if "ApplyInitial V w t = (Inr w', t')" for t t'
    using that by (auto simp: ApplyInitial_def bindS_Inr_iff)
  with assms show ?thesis by (auto simp: ApplyInitialConfig_def split: prod.splits sum.splits if_splits)
qed

lemma wrapper_start_wired:
  assumes "wrapper_start E V vars arch metrics stale s = (Inr (wr_fw x, wr_bw x), s')"
  shows "wr_wired vars arch x"
proof -
  from wrapper_start_parts [OF assms] ApplyInitialConfig_watcher obtain data seed' st' where
    "wr_fw x = (main_watcher vars metrics)\<lparr>fw_lastApplied := data\<rparr>"
    "wr_bw x = Seed seed' (NewBinaryWatcher (spec_source vars) (main_syncer vars arch) arch st')" by blast
  with main_paths(1) [of vars metrics] show ?thesis
    by (auto simp: wr_wired_def bw_paths_def Seed_def NewBinaryWatcher_def fw_writes_def candidate_path_def
        main_watcher_def NewFileWatcher_def fw_setup_def separate_paths_def)
qed

lemma wrapper_start_spec:
  assumes "source_path vars = ConfigSourcePath" "wrapper_start E V vars arch metrics stale s = (Inr (fw, bw), s')"
  shows "sy_fs s' (spec_source vars) = sy_fs s (spec_source vars)"
proof -
  let ?y = "main_syncer vars arch" and ?p = "spec_source vars"
  have p: "no_temp (sn_runtimePath ?y) ?p" "?p \<noteq> sn_runtimePath ?y" "?p \<notin> set (fw_writes (main_watcher vars metrics))"
    using wired_paths(1) [OF assms(1), of metrics] wired_paths(2-4) [OF assms(1)]
    by (auto simp: main_syncer_def NewBinarySyncer_def)
  from wrapper_start_parts [OF assms(2)] obtain seed st s1 seed' st' where
    1: "EnsureAtStartup E ?y stale s = (Inr seed, st, s1)" and
    2: "ApplyInitialConfig E V (main_watcher vars metrics) ?y seed st s1 = (Inr (fw, seed'), st', s')" by blast
  from EnsureAtStartup_keeps [OF p(1,2), of s E stale] ApplyInitialConfig_keeps [OF p, of s1 E V seed st] 1 2
  show ?thesis by (auto simp: keeps_def)
qed

lemma wrapper_start_process:
  assumes "wrapper_start E V vars arch metrics stale s = (Inr (fw, bw), s')"
  shows "same_process s s'"
proof -
  from wrapper_start_parts [OF assms] obtain seed st s1 seed' st' where
    1: "EnsureAtStartup E (main_syncer vars arch) stale s = (Inr seed, st, s1)" and
    2: "ApplyInitialConfig E V (main_watcher vars metrics) (main_syncer vars arch) seed st s1 = (Inr (fw, seed'), st', s')"
    by blast
  from EnsureAtStartup_process [of s E "main_syncer vars arch" stale]
    ApplyInitialConfig_process [of s1 E V "main_watcher vars metrics" "main_syncer vars arch" seed st] 1 2
  show ?thesis by (auto intro: transpD [OF same_process_trans])
qed

lemma same_process_init: "same_process s s' \<Longrightarrow> sup_init (u\<lparr>su_proc := s\<rparr>) = sup_init (u\<lparr>su_proc := s'\<rparr>)"
  by (cases s; cases s') (simp add: same_process_def sup_init_def)

lemma wr_init_inv:
  assumes "source_path vars = ConfigSourcePath" "wr_init E V vars arch T img x"
  shows "wr_inv E V P vars arch T img x"
proof -
  from assms(2) obtain metrics stale s0 where
    start: "wrapper_start E V vars arch metrics stale s0 = (Inr (wr_fw x, wr_bw x), wr_proc x)"
    and s0: "sy_fs s0 ImageBinaryPath = Some img"
      "case sy_fs s0 (spec_source vars) of None \<Rightarrow> True | Some doc \<Rightarrow> fi_data doc \<in> T"
    and sup: "sup_init ((wr_sup x)\<lparr>su_proc := s0\<rparr>)" by (auto simp: wr_init_def)
  note wired = wrapper_start_wired [OF start]
  then have "bw_specPath (wr_bw x) = spec_source vars" by (simp add: wr_wired_def bw_paths_def)
  with s0(2) have mounts: "mounts_ok T (wr_bw x) (sy_fs (wr_proc x))"
    by (simp add: mounts_ok_def wrapper_start_spec [OF assms(1) start])
  from wrapper_start_result [OF s0(1) start] obtain config binary where
    c: "sy_fs (wr_proc x) RuntimeConfigPath = Some config" "tested V config" "sy_fs (wr_proc x) RuntimeBinaryPath = Some binary"
    and b: "case desired_digest E (main_syncer vars arch) (map_option fi_data (sy_fs s0 (spec_source vars))) of
       None \<Rightarrow> has_digest E (be_sha256 E (fi_data img)) binary
     | Some (spec, d) \<Rightarrow> has_digest E d binary \<or> has_digest E (be_sha256 E (fi_data img)) binary \<and> bw_lastSpec (wr_bw x) = []"
    by blast
  from b s0(2) have "accounted E arch T img binary"
    by (auto simp: accounted_def desired_digest_def main_syncer_def NewBinarySyncer_def split: option.splits sum.splits if_splits)
  with c mounts have "wr_files E V arch T img x" by (auto simp: wr_files_def)
  with wired sup_init_inv [of "wr_sup x" P] same_process_init [OF wrapper_start_process [OF start], of "wr_sup x"] sup show ?thesis by (simp add: wr_inv_def)
qed

interpretation wrapper: invariant_system "wr_init E V vars arch T img" "wr_step E V P T"
  "\<lambda>x. ctx_ok P \<and> table_ok P \<and> source_path vars = ConfigSourcePath \<longrightarrow> wr_inv E V P vars arch T img x"
  for E V P T vars arch img
proof unfold_locales
  fix x y
  assume inv: "ctx_ok P \<and> table_ok P \<and> source_path vars = ConfigSourcePath \<longrightarrow> wr_inv E V P vars arch T img x"
    and step: "wr_step E V P T x y"
  show "ctx_ok P \<and> table_ok P \<and> source_path vars = ConfigSourcePath \<longrightarrow> wr_inv E V P vars arch T img y"
    using inv wr_step_sup [OF _ _ _ step] wr_step_files [OF _ _ step] unfolding wr_inv_def by blast
qed (blast intro: wr_init_inv)


section \<open>How the wrapper ends\<close>

text \<open>\<open>main\<close> returns when the context is done and \<open>RunWithRestart\<close> has returned; an error of \<open>RunWithRestart\<close> (\<open>err\<close>) while the context is
  not done exits the process. Until then it blocks.\<close>

datatype main_state = Blocked | Returned | ExitedWith int

definition main_end :: "proc_env \<Rightarrow> bool \<Rightarrow> supervisor \<Rightarrow> main_state" where
  "main_end P err u =
     (let cancelled = px_done P (p_log (su_proc u)) in
      if su_pc u = PDone \<and> err \<and> \<not> cancelled then ExitedWith 1
      else if cancelled \<and> su_pc u = PDone then Returned
      else Blocked)"

lemma main_end_inv:
  assumes "sup_inv P u"
  shows "main_end P err u = (if su_pc u = PDone then Returned else Blocked)"
  using assms by (auto simp: main_end_def sup_inv_def Let_def)

lemma run_steps_inv: "ctx_ok P \<Longrightarrow> table_ok P \<Longrightarrow> sup_inv P u \<Longrightarrow> sup_inv P ((run_step P ^^ k) u)"
  by (induction k) (auto intro: run_step_inv)


section \<open>An instance\<close>

text \<open>The wrapper after start-up with a mounted spec whose binary is in place, and after the first step of its main loop, which starts the
  pooler, a poll of the binary watcher and one of the configuration watcher.\<close>

definition demo_start :: process where
  "demo_start = demo_boot\<lparr>p_cmd := None,
     sy_fs := (sy_fs demo_boot)(RuntimeBinaryPath \<mapsto> \<lparr>fi_data = ''new'', fi_mode = 493\<rparr>,
       spec_source [] \<mapsto> \<lparr>fi_data = ''spec'', fi_mode = 420\<rparr>)\<rparr>"

definition demo_wrapper :: wrapper_state where
  "demo_wrapper =
     (let (r, s) = wrapper_start demo_bin demo_watch [] ''amd64'' (fw_metrics example_watcher) False demo_start;
          (fw, bw) = projr r
      in \<lparr>wr_fw = fw, wr_bw = bw, wr_rw = None, wr_sup = fresh_supervisor\<lparr>su_proc := s\<rparr>\<rparr>)"

definition demo_running :: wrapper_state where
  "demo_running =
     (let x = demo_wrapper\<lparr>wr_sup := run_step slow_env (wr_sup demo_wrapper)\<rparr>;
          (bw, s) = bin_check demo_bin demo_watch (Upgrade slow_env) (UpgradeInFlight slow_env) (wr_bw x) (wr_proc x);
          y = set_proc s (x\<lparr>wr_bw := bw\<rparr>);
          (fw, t) = check demo_watch (Reload slow_env) (Restart slow_env) (wr_fw y) (wr_proc y)
      in set_proc t (y\<lparr>wr_fw := fw\<rparr>))"

lemma demo_wrapper_init:
  "wr_init demo_bin demo_watch [] ''amd64'' {''spec''} \<lparr>fi_data = ''old'', fi_mode = 493\<rparr> demo_wrapper"
proof -
  let ?r = "wrapper_start demo_bin demo_watch [] ''amd64'' (fw_metrics example_watcher) False demo_start"
  have ok: "\<not> isl (fst ?r)" by code_simp
  then obtain fw bw s where r: "?r = (Inr (fw, bw), s)" by (metis prod.collapse sum.collapse(2))
  then have w: "wr_fw demo_wrapper = fw" "wr_bw demo_wrapper = bw" "wr_proc demo_wrapper = s" by (simp_all add: demo_wrapper_def)
  have sup: "sup_init ((wr_sup demo_wrapper)\<lparr>su_proc := demo_start\<rparr>)"
    using r by (simp add: sup_init_def demo_wrapper_def fresh_supervisor_def demo_start_def demo_boot_def demo_disk_def demo_process_def)
  have img: "sy_fs demo_start ImageBinaryPath = Some \<lparr>fi_data = ''old'', fi_mode = 493\<rparr>" by code_simp
  have doc: "sy_fs demo_start (spec_source []) = Some \<lparr>fi_data = ''spec'', fi_mode = 420\<rparr>" by (simp add: demo_start_def)
  show ?thesis unfolding wr_init_def w using sup r img doc by fastforce
qed

lemma demo_running_reachable: "(wr_step demo_bin demo_watch slow_env T)\<^sup>*\<^sup>* demo_wrapper demo_running"
proof -
  let ?x = "demo_wrapper\<lparr>wr_sup := run_step slow_env (wr_sup demo_wrapper)\<rparr>"
  obtain bw s where b: "bin_check demo_bin demo_watch (Upgrade slow_env) (UpgradeInFlight slow_env) (wr_bw ?x) (wr_proc ?x) = (bw, s)"
    by (rule prod.exhaust)
  let ?y = "set_proc s (?x\<lparr>wr_bw := bw\<rparr>)"
  obtain fw t where c: "check demo_watch (Reload slow_env) (Restart slow_env) (wr_fw ?y) (wr_proc ?y) = (fw, t)"
    by (rule prod.exhaust)
  have "demo_running = set_proc t (?y\<lparr>wr_fw := fw\<rparr>)" unfolding demo_running_def Let_def b c prod.case ..
  with wr_step.main wr_step.binary [OF b] wr_step.config [OF c] show ?thesis
    by (metis (no_types) converse_rtranclp_into_rtranclp rtranclp.rtrancl_refl)
qed



end
