(* ===== verification/Api_Server.thy ===== *)
theory Api_Server
  imports Render_Safety
begin

text \<open>
  The documented behaviour of the API server, for the properties that need it to answer: a locale that the client's answers
  come from the objects stored so far and that every write is stored, and an executable server that has it.

  \<open>Kube_Client\<close> leaves the answers arbitrary, and safety is proved so. That the controller makes progress and comes to
  rest cannot be: it depends on writes taking effect. What is assumed is the behaviour of an API server with one writer
  and a cache that has caught up: a read returns the stored object, a create fails exactly if the name is taken, a patch
  changes the fields that differ between the two versions it is given, and a status update changes the status only.
\<close>

section \<open>Stored objects\<close>

record objects =
  ob_secrets :: "key \<rightharpoonup> Secret"
  ob_pgdoormen :: "key \<rightharpoonup> PgDoorman"
  ob_clusters :: "key \<rightharpoonup> Cluster"
  ob_services :: "key \<rightharpoonup> Service"

definition secret_key :: "Secret \<Rightarrow> key" where "secret_key s = (se_Namespace s, se_Name s)"
definition pd_key :: "PgDoorman \<Rightarrow> key" where "pd_key p = (pd_Namespace p, pd_Name p)"
definition service_key :: "Service \<Rightarrow> key" where "service_key v = (sv_Namespace v, sv_Name v)"

text \<open>A merge patch from \<open>old\<close> to \<open>new\<close>, applied to what is stored.\<close>

definition merge :: "'a \<Rightarrow> 'a \<Rightarrow> 'a \<Rightarrow> 'a" where
  "merge old new stored = (if new = old then stored else new)"

definition merge_map :: "('k \<rightharpoonup> 'v) \<Rightarrow> ('k \<rightharpoonup> 'v) \<Rightarrow> ('k \<rightharpoonup> 'v) \<Rightarrow> ('k \<rightharpoonup> 'v)" where
  "merge_map old new stored = (\<lambda>k. merge (old k) (new k) (stored k))"

definition patched_secret :: "Secret \<Rightarrow> Secret \<Rightarrow> Secret \<Rightarrow> Secret" where
  "patched_secret old new stored =
     stored\<lparr>se_Labels := merge_map (se_Labels old) (se_Labels new) (se_Labels stored),
            se_Data := merge_map (se_Data old) (se_Data new) (se_Data stored)\<rparr>"

definition patched_pgdoorman :: "PgDoorman \<Rightarrow> PgDoorman \<Rightarrow> PgDoorman \<Rightarrow> PgDoorman" where
  "patched_pgdoorman old new stored =
     stored\<lparr>pd_Finalizers := merge (pd_Finalizers old) (pd_Finalizers new) (pd_Finalizers stored)\<rparr>"

definition with_status :: "PgDoorman \<Rightarrow> PgDoorman \<Rightarrow> PgDoorman" where
  "with_status pd stored =
     stored\<lparr>pd_Conditions := pd_Conditions pd, pd_ObservedGeneration := pd_ObservedGeneration pd\<rparr>"

text \<open>What a call changes; an object that is being deleted goes with its last finalizer.\<close>

definition put_pgdoorman :: "PgDoorman \<Rightarrow> objects \<Rightarrow> objects" where
  "put_pgdoorman p S =
     S\<lparr>ob_pgdoormen := (ob_pgdoormen S)(pd_key p := (if pd_Deleting p \<and> pd_Finalizers p = [] then None else Some p))\<rparr>"

definition put_secret :: "Secret \<Rightarrow> objects \<Rightarrow> objects" where
  "put_secret s S = S\<lparr>ob_secrets := (ob_secrets S)(secret_key s \<mapsto> s)\<rparr>"

fun effect :: "event \<Rightarrow> objects \<Rightarrow> objects" where
  "effect (CreateSecret s None) S = put_secret s S"
| "effect (PatchSecret old new None) S =
     (case ob_secrets S (secret_key new) of None \<Rightarrow> S | Some stored \<Rightarrow> put_secret (patched_secret old new stored) S)"
| "effect (PatchPgDoorman old new (Inr answer)) S = put_pgdoorman answer S"
| "effect (UpdateStatus pd None) S =
     (case ob_pgdoormen S (pd_key pd) of None \<Rightarrow> S | Some stored \<Rightarrow> put_pgdoorman (with_status pd stored) S)"
| "effect (CreateService v None) S = S\<lparr>ob_services := (ob_services S)(service_key v \<mapsto> v)\<rparr>"
| "effect (PatchService old new None) S = S\<lparr>ob_services := (ob_services S)(service_key new \<mapsto> new)\<rparr>"
| "effect (Delete KSecret k None) S = S\<lparr>ob_secrets := (ob_secrets S)(k := None)\<rparr>"
| "effect (Delete KService k None) S = S\<lparr>ob_services := (ob_services S)(k := None)\<rparr>"
| "effect _ S = S"

definition after :: "objects \<Rightarrow> log \<Rightarrow> objects" where
  "after S l = foldl (\<lambda>S e. effect e S) S l"

lemma after_simps [simp]: "after S [] = S" "after S (e # l) = after (effect e S) l" "after S (l @ l') = after (after S l) l'"
  by (simp_all add: after_def)

lemma merge_simps [simp]: "merge x y x = y" "merge x x y = y"
  by (simp_all add: merge_def)

lemma merge_map_self [simp]: "merge_map m n m = n"
  by (rule ext) (simp add: merge_map_def)

section \<open>The contract\<close>

definition found :: "'a option \<Rightarrow> api_error + 'a" where
  "found x = (case x of None \<Rightarrow> Inl NotFound | Some a \<Rightarrow> Inr a)"

lemma found_simps [simp]: "found None = Inl NotFound" "found (Some a) = Inr a"
  by (simp_all add: found_def)

locale honest_server =
  fixes C :: client and S0 :: objects
  assumes reads_secret: "on_get_secret C l k = found (ob_secrets (after S0 l) k)"
    and reads_pgdoorman: "on_get_pgdoorman C l k = found (ob_pgdoormen (after S0 l) k)"
    and reads_cluster: "on_get_cluster C l k = found (ob_clusters (after S0 l) k)"
    and creates_secret: "on_create_secret C l s =
      (if ob_secrets (after S0 l) (secret_key s) = None then None else Some AlreadyExists)"
    and patches_secret: "on_patch_secret C l old new =
      (if ob_secrets (after S0 l) (secret_key new) = None then Some NotFound else None)"
    and patches_pgdoorman: "on_patch_pgdoorman C l p q =
      (case ob_pgdoormen (after S0 l) (pd_key q) of
         None \<Rightarrow> Inl NotFound | Some stored \<Rightarrow> Inr (patched_pgdoorman p q stored))"
    and updates_status: "on_update_status C l p =
      (if ob_pgdoormen (after S0 l) (pd_key p) = None then Some NotFound else None)"
    and draws: "\<exists>b. on_rand_read C l n = Some b \<and> length b = n"

section \<open>A server\<close>

definition api_server :: "objects \<Rightarrow> (log \<Rightarrow> char) \<Rightarrow> client" where
  "api_server S0 rnd =
     \<lparr>on_get_secret = (\<lambda>l k. found (ob_secrets (after S0 l) k)),
      on_create_secret = (\<lambda>l s. if ob_secrets (after S0 l) (secret_key s) = None then None else Some AlreadyExists),
      on_patch_secret = (\<lambda>l s t. if ob_secrets (after S0 l) (secret_key t) = None then Some NotFound else None),
      on_get_pgdoorman = (\<lambda>l k. found (ob_pgdoormen (after S0 l) k)),
      on_patch_pgdoorman = (\<lambda>l p q. case ob_pgdoormen (after S0 l) (pd_key q) of
         None \<Rightarrow> Inl NotFound | Some stored \<Rightarrow> Inr (patched_pgdoorman p q stored)),
      on_update_status = (\<lambda>l p. if ob_pgdoormen (after S0 l) (pd_key p) = None then Some NotFound else None),
      on_list_pgdoormen = (\<lambda>l ns. Inl (OtherError ''list'')),
      on_get_cluster = (\<lambda>l k. found (ob_clusters (after S0 l) k)),
      on_get_service = (\<lambda>l k. found (ob_services (after S0 l) k)),
      on_create_service = (\<lambda>l v. if ob_services (after S0 l) (service_key v) = None then None else Some AlreadyExists),
      on_patch_service = (\<lambda>l v w. if ob_services (after S0 l) (service_key w) = None then Some NotFound else None),
      on_delete = (\<lambda>l kd k. None), on_rand_read = (\<lambda>l n. Some (replicate n (rnd l)))\<rparr>"

interpretation api: honest_server "api_server S0 rnd" S0 for S0 rnd
  by unfold_locales (simp_all add: api_server_def)

section \<open>Reads\<close>

fun is_read :: "event \<Rightarrow> bool" where
  "is_read (GetSecret k r) = True"
| "is_read (GetPgDoorman k r) = True"
| "is_read (GetCluster k r) = True"
| "is_read (GetService k r) = True"
| "is_read (ListPgDoormen n r) = True"
| "is_read _ = False"

lemma effect_read: "is_read e \<Longrightarrow> effect e S = S"
  by (cases e) auto

lemma after_reads: "list_all is_read xs \<Longrightarrow> after S xs = S"
  by (induction xs rule: rev_induct) (auto simp: effect_read)

lemma adds_read_after: "adds is_read l l' \<Longrightarrow> after S l' = after S l"
  by (auto simp: adds_def after_reads)

end
