(* ===== verification/Render_Progress.thy ===== *)
theory Render_Progress
  imports Api_Server
begin

text \<open>
  The rendering controller makes progress and comes to rest, over an API server that keeps the contract of \<open>Api_Server\<close>.

  A small calculus follows a run: \<open>yields\<close> for a call that succeeds and leaves the stored objects in a given state,
  \<open>gives\<close> for one that only makes calls of a given kind.
\<close>

section \<open>Runs\<close>

definition yields :: "objects \<Rightarrow> (log, 'e, 'a) st \<Rightarrow> log \<Rightarrow> 'a \<Rightarrow> objects \<Rightarrow> bool" where
  "yields S0 m l a S' \<longleftrightarrow> (\<exists>l'. m l = (Inr a, l') \<and> after S0 l' = S')"

definition gives :: "(event \<Rightarrow> bool) \<Rightarrow> (log, 'e, 'a) st \<Rightarrow> log \<Rightarrow> 'a \<Rightarrow> bool" where
  "gives P m l a \<longleftrightarrow> (\<exists>l'. m l = (Inr a, l') \<and> adds P l l')"

lemma yields_bind:
  "yields S0 m l a S1 \<Longrightarrow> (\<And>l'. after S0 l' = S1 \<Longrightarrow> yields S0 (f a) l' b S2) \<Longrightarrow> yields S0 (bindS m f) l b S2"
  unfolding yields_def by (metis bindS_ok)

lemma gives_bind:
  "gives P m l a \<Longrightarrow> (\<And>l'. adds P l l' \<Longrightarrow> gives P (f a) l' b) \<Longrightarrow> gives P (bindS m f) l b"
  unfolding gives_def by (metis bindS_ok adds_trans transpD)

lemma yields_retS: "yields S0 (retS a) l a (after S0 l)"
  by (simp add: yields_def)

lemma gives_retS: "gives P (retS a) l a"
  using adds_refl by (auto simp: gives_def reflp_def)

lemma yields_mapErrS [simp]: "yields S0 (mapErrS f m) l a S' = yields S0 m l a S'"
  by (simp add: yields_def mapErrS_iff del: mapErrS_apply)

lemma gives_mapErrS [simp]: "gives P (mapErrS f m) l a = gives P m l a"
  by (simp add: gives_def mapErrS_iff del: mapErrS_apply)

lemma yields_tryS: "yields S0 m l a S' \<Longrightarrow> yields S0 (tryS m) l (Inr a) S'"
  by (auto simp: yields_def)

lemma gives_tryS: "gives P m l a \<Longrightarrow> gives P (tryS m) l (Inr a)"
  by (auto simp: gives_def)

lemma gives_yields: "gives is_read m l a \<Longrightarrow> yields S0 m l a (after S0 l)"
  by (auto simp: gives_def yields_def adds_read_after)

lemma gives_forS: "(\<And>x l'. x \<in> set xs \<Longrightarrow> adds P l l' \<Longrightarrow> gives P (f x) l' ()) \<Longrightarrow> gives P (forS f xs) l ()"
proof (induction xs arbitrary: l)
  case (Cons x xs)
  have "gives P (f x) l ()" using Cons.prems adds_refl by (auto simp: reflp_def)
  then show ?case
    by (simp, rule gives_bind) (use Cons in \<open>auto intro: transpD [OF adds_trans]\<close>)
qed (simp add: gives_retS)

section \<open>What is stored\<close>

definition secret_value :: "objects \<Rightarrow> string \<Rightarrow> SecretKeySelector \<Rightarrow> string option" where
  "secret_value S ns ref = (case ob_secrets S (ns, sk_Name ref) of None \<Rightarrow> None | Some s \<Rightarrow> se_Data s (sk_Key ref))"

definition labelled :: "objects \<Rightarrow> string \<Rightarrow> string \<Rightarrow> string \<Rightarrow> bool" where
  "labelled S ns cluster name \<longleftrightarrow>
     (case ob_secrets S (ns, name) of None \<Rightarrow> False | Some s \<Rightarrow> se_Labels s ClusterLabel = Some cluster)"

text \<open>A reference that rendering can use: the Secret is there, belongs to the cluster and has a value under the key.\<close>

definition available :: "objects \<Rightarrow> string \<Rightarrow> string \<Rightarrow> SecretKeySelector \<Rightarrow> bool" where
  "available S ns cluster ref \<longleftrightarrow> labelled S ns cluster (sk_Name ref) \<and> secret_value S ns ref \<notin> {None, Some []}"

text \<open>A Secret is stored under its own name.\<close>

definition named :: "objects \<Rightarrow> key \<Rightarrow> bool" where
  "named S k \<longleftrightarrow> (case ob_secrets S k of None \<Rightarrow> True | Some s \<Rightarrow> secret_key s = k)"

definition put_value :: "objects \<Rightarrow> string \<Rightarrow> (string \<rightharpoonup> string) \<Rightarrow> lookup \<Rightarrow> (string \<rightharpoonup> string)" where
  "put_value S ns pw e = pw(fst e := secret_value S ns (fst (snd e)))"

definition resolved :: "objects \<Rightarrow> string \<Rightarrow> PgDoormanSpec \<Rightarrow> (string \<rightharpoonup> string)" where
  "resolved S ns spec = foldl (put_value S ns) Map.empty (entries spec)"

lemma resolved_user:
  assumes "\<And>ref. ref \<in> set (spec_refs spec) \<Longrightarrow> available S ns cluster ref"
    and "(n, p) \<in> set (ds_Pools spec)" "u \<in> set (pl_Users p)"
  shows "resolved S ns spec (PasswordKey n ''user'' (us_Username u)) \<notin> {None, Some []}"
proof -
  have vals: "secret_value S ns (fst (snd e)) \<notin> {None, Some []}" if "e \<in> set (entries spec)" for e
  proof -
    have "fst (snd e) \<in> set (map (\<lambda>e. fst (snd e)) (entries spec))" using that by simp
    then have "fst (snd e) \<in> set (spec_refs spec)" unfolding entries_refs .
    from assms(1) [OF this] show ?thesis by (simp add: available_def)
  qed
  have "foldl (put_value S ns) pw es k \<notin> {None, Some []}"
    if "set es \<subseteq> set (entries spec)" "k \<in> fst ` set es \<or> pw k \<notin> {None, Some []}" for es pw k
    using that
  proof (induction es arbitrary: pw)
    case (Cons e es)
    then show ?case using vals [of e] by (auto simp: put_value_def)
  qed auto
  moreover have "PasswordKey n ''user'' (us_Username u) \<in> fst ` set (entries spec)"
    using assms(2,3) by (force simp: entries_def pool_entries_def user_entry_def)
  ultimately show ?thesis unfolding resolved_def by blast
qed

abbreviation rendered_key :: "Cluster \<Rightarrow> key" where
  "rendered_key cluster \<equiv> (cl_Namespace cluster, RenderedSecretName (cl_Name cluster))"

abbreviation auth_key :: "Cluster \<Rightarrow> key" where
  "auth_key cluster \<equiv> (cl_Namespace cluster, GeneratedAuthSecretName (cl_Name cluster))"

text \<open>What the rendered Secret holds afterwards.\<close>

definition holds :: "Secret \<Rightarrow> string \<Rightarrow> string \<Rightarrow> string option \<Rightarrow> bool" where
  "holds s data admin bin \<longleftrightarrow> lookup_str (se_Data s) ConfigKey = data \<and> lookup_str (se_Data s) generatedAdminPasswordKey = admin \<and>
     lookup_str (se_Data s) BinarySpecKey = (case bin of None \<Rightarrow> [] | Some j \<Rightarrow> j)"

lemma desired_holds: "se_Data s = se_Data (desired_secret cluster data admin bin) \<Longrightarrow> holds s data admin bin"
  by (simp add: holds_def desired_secret_def lookup_str_def ctl_constants split: option.split)

context honest_server
begin

lemma gets_secret: "get_secret C k l = (found (ob_secrets (after S0 l) k), l @ [GetSecret k (found (ob_secrets (after S0 l) k))])"
  by (simp add: get_secret_def reads_secret Let_def)

lemma owners_ok:
  assumes "\<And>name. name \<in> set (CollectSecretNames spec) \<Longrightarrow> labelled (after S0 l) (pd_Namespace pd) cluster name"
  shows "gives is_read (validateSecretOwnership C pd spec cluster) l ()"
  unfolding validateSecretOwnership_def
proof (rule gives_forS)
  fix name l' assume "name \<in> set (CollectSecretNames spec)" "adds is_read l l'"
  with assms [of name] have "labelled (after S0 l') (pd_Namespace pd) cluster name"
    by (simp add: adds_read_after)
  then show "gives is_read (check_secret_owner C (pd_Namespace pd) cluster name) l' ()"
    by (auto simp: gives_def check_secret_owner_def labelled_def bindS_def gets_secret lookup_str_def adds_one
        split: option.splits)
qed

lemma resolves:
  assumes "\<And>ref. ref \<in> set (spec_refs spec) \<Longrightarrow> secret_value (after S0 l) ns ref \<noteq> None"
  shows "gives is_read (ResolvePasswords C ns spec) l (resolved (after S0 l) ns spec)"
proof -
  define S where "S = after S0 l"
  have "gives is_read (foldS (resolve_entry C ns) es pw) l'
      (foldl (put_value S ns) pw es)"
    if "after S0 l' = S" "fst ` snd ` set es \<subseteq> set (spec_refs spec)" for es pw l'
    using that
  proof (induction es arbitrary: pw l')
    case (Cons e es)
    then have "secret_value S ns (fst (snd e)) \<noteq> None" using assms [of "fst (snd e)"] by (simp add: S_def)
    then obtain s v where v: "ob_secrets S (ns, sk_Name (fst (snd e))) = Some s" "se_Data s (sk_Key (fst (snd e))) = Some v"
      by (auto simp: secret_value_def split: option.splits)
    have "gives is_read (resolve_entry C ns e pw) l' (put_value S ns pw e)"
      using v Cons.prems(1)
      by (auto simp: gives_def resolve_entry_ok ExtractSecretValue_ok reads_secret put_value_def secret_value_def adds_one)
    moreover have "gives is_read (foldS (resolve_entry C ns) es (put_value S ns pw e)) l2 (foldl (put_value S ns) (put_value S ns pw e) es)"
      if "adds is_read l' l2" for l2
      using Cons.IH [of l2] Cons.prems adds_read_after [OF that, of S0] by simp
    ultimately show ?case by (simp add: gives_bind)
  qed (simp add: gives_retS)
  moreover have "fst ` snd ` set (entries spec) = set (spec_refs spec)"
    by (simp flip: entries_refs add: image_image)
  ultimately show ?thesis unfolding ResolvePasswords_entries resolved_def S_def by simp
qed

lemma keeps_admin:
  assumes "ob_secrets (after S0 l) (cl_Namespace cluster, RenderedSecretName (cl_Name cluster)) = Some s"
    and "se_Data s generatedAdminPasswordKey = Some admin" "admin \<noteq> []"
  shows "gives is_read (adminPasswordFallback C cluster) l admin"
  using adminPasswordFallback_keeps [of C l cluster s admin] assms by (simp add: gives_def reads_secret adds_one)

lemma draws_password: "\<exists>pw. pw \<noteq> [] \<and> yields S0 (randomPassword C) l pw (after S0 l)"
proof -
  obtain b where b: "on_rand_read C l 16 = Some b" "length b = 16" using draws by blast
  then have "hex_encode b \<noteq> []" by (cases b) (simp_all add: hex_encode_def)
  moreover have "randomPassword C l = (Inr (hex_encode b), l @ [RandRead 16 (Some b)])"
    using b by (simp add: randomPassword_def rand_read_def bindS_def Let_def)
  ultimately show ?thesis by (auto simp: yields_def)
qed

lemma finds_admin: "\<exists>admin. admin \<noteq> [] \<and> yields S0 (adminPasswordFallback C cluster) l admin (after S0 l)"
proof -
  let ?k = "(cl_Namespace cluster, RenderedSecretName (cl_Name cluster))"
  let ?e = "GetSecret ?k (found (ob_secrets (after S0 l) ?k))"
  obtain pw where pw: "pw \<noteq> []" "yields S0 (randomPassword C) (l @ [?e]) pw (after S0 l)"
    using draws_password [of "l @ [?e]"] by auto
  then have fresh: "yields S0 (mapErrS (\<lambda>_. RenderRand) (randomPassword C)) (l @ [?e]) pw (after S0 l)" by simp
  show ?thesis
  proof (cases "\<exists>s prev. ob_secrets (after S0 l) ?k = Some s \<and> se_Data s generatedAdminPasswordKey = Some prev \<and> prev \<noteq> []")
    case True
    then obtain s prev where "ob_secrets (after S0 l) ?k = Some s" "se_Data s generatedAdminPasswordKey = Some prev" "prev \<noteq> []"
      by blast
    from gives_yields [OF keeps_admin [OF this]] this(3) show ?thesis by blast
  next
    case False
    then have "adminPasswordFallback C cluster l = mapErrS (\<lambda>_. RenderRand) (randomPassword C) (l @ [?e])"
      by (cases "ob_secrets (after S0 l) ?k"; cases "se_Data (the (ob_secrets (after S0 l) ?k)) generatedAdminPasswordKey")
        (simp_all add: adminPasswordFallback_def bindS_def gets_secret)
    with fresh pw(1) show ?thesis by (auto simp: yields_def)
  qed
qed


lemma finalizer_set:
  assumes "ob_pgdoormen (after S0 l) (pd_key pd) = Some pd" "\<not> pd_Deleting pd"
    and "\<And>fs. ce_ContainsFinalizer R fs Finalizer \<longleftrightarrow> Finalizer \<in> set fs" "\<And>fs. Finalizer \<in> set (ce_AddFinalizer R fs Finalizer)"
  shows "\<exists>pd'. yields S0 (ensureFinalizer R C pd True) l pd' (put_pgdoorman pd' (after S0 l)) \<and>
    Finalizer \<in> set (pd_Finalizers pd') \<and> pd' = pd\<lparr>pd_Finalizers := pd_Finalizers pd'\<rparr>"
proof (cases "Finalizer \<in> set (pd_Finalizers pd)")
  case True
  have "put_pgdoorman pd (after S0 l) = after S0 l"
    using assms(1,2) by (simp add: put_pgdoorman_def fun_upd_idem)
  with True show ?thesis
    by (intro exI [of _ pd]) (simp add: ensureFinalizer_def assms(3) yields_def)
next
  case False
  let ?pd = "pd\<lparr>pd_Finalizers := ce_AddFinalizer R (pd_Finalizers pd) Finalizer\<rparr>"
  have "patched_pgdoorman pd ?pd pd = ?pd" by (simp add: patched_pgdoorman_def)
  then have "yields S0 (patch_pgdoorman C pd ?pd) l ?pd (put_pgdoorman ?pd (after S0 l))"
    using assms(1) by (simp add: yields_def patch_pgdoorman_def patches_pgdoorman pd_key_def Let_def)
  with False assms(3,4) show ?thesis
    by (intro exI [of _ ?pd]) (simp add: ensureFinalizer_def)
qed

lemma finalizer_kept:
  assumes "Finalizer \<in> set (pd_Finalizers pd)" "\<And>fs. ce_ContainsFinalizer R fs Finalizer \<longleftrightarrow> Finalizer \<in> set fs"
  shows "gives P (ensureFinalizer R C pd True) l pd"
  using assms by (simp add: ensureFinalizer_def gives_retS)

lemma auth_secret_made:
  assumes "ob_secrets (after S0 l) (cl_Namespace cluster, GeneratedAuthSecretName (cl_Name cluster)) = None"
    and "ce_SetControllerReference R cluster None = Inr owner"
  shows "\<exists>pw owner. pw \<noteq> [] \<and> yields S0 (ensureGeneratedAuthSecret R C cluster user) l ()
    (put_secret ((generated_auth_secret cluster user pw)\<lparr>se_Owner := owner\<rparr>) (after S0 l))"
proof -
  let ?k = "(cl_Namespace cluster, GeneratedAuthSecretName (cl_Name cluster))"
  let ?l = "l @ [GetSecret ?k (Inl NotFound)]"
  obtain pw l1 where pw: "pw \<noteq> []" "randomPassword C ?l = (Inr pw, l1)" "after S0 l1 = after S0 l"
    using draws_password [of ?l] by (auto simp: yields_def)
  let ?s = "(generated_auth_secret cluster user pw)\<lparr>se_Owner := owner\<rparr>"
  have "secret_key ?s = ?k" by (simp add: secret_key_def generated_auth_secret_def)
  then have "create_secret C ?s l1 = (Inr (), l1 @ [CreateSecret ?s None])"
    using assms(1) pw(3) by (simp add: create_secret_def creates_secret Let_def)
  with assms pw show ?thesis
    by (intro exI [of _ pw] exI [of _ owner])
      (simp add: ensureGeneratedAuthSecret_def bindS_def gets_secret yields_def generated_auth_secret_def Let_def)
qed

lemma auth_secret_kept:
  assumes "ob_secrets (after S0 l) (cl_Namespace cluster, GeneratedAuthSecretName (cl_Name cluster)) = Some s"
  shows "gives is_read (ensureGeneratedAuthSecret R C cluster user) l ()"
  using assms by (simp add: ensureGeneratedAuthSecret_def bindS_def gets_secret gives_def adds_one Let_def)


lemma secret_created:
  assumes "ob_secrets (after S0 l) (rendered_key cluster) = None"
    and "ce_SetControllerReference R cluster None = Inr owner" "binarySpecJSON R up = Inr bin"
  shows "\<exists>s. yields S0 (upsertSecret R C cluster data admin up) l () (put_secret s (after S0 l)) \<and>
    secret_key s = rendered_key cluster \<and> holds s data admin bin"
proof -
  let ?s = "(desired_secret cluster data admin bin)\<lparr>se_Owner := owner\<rparr>"
  have k: "secret_key ?s = rendered_key cluster" by (simp add: secret_key_def desired_secret_def)
  have d: "se_Namespace (desired_secret cluster data admin bin) = cl_Namespace cluster"
    "se_Name (desired_secret cluster data admin bin) = RenderedSecretName (cl_Name cluster)"
    "se_Owner (desired_secret cluster data admin bin) = None" by (simp_all add: desired_secret_def)
  have "upsertSecret R C cluster data admin up l =
      (Inr (), l @ [GetSecret (rendered_key cluster) (Inl NotFound)] @ [CreateSecret ?s None])"
    using assms k d by (simp add: upsertSecret_def bindS_def gets_secret create_secret_def creates_secret Let_def)
  then have "yields S0 (upsertSecret R C cluster data admin up) l () (put_secret ?s (after S0 l))" by (simp add: yields_def)
  with k desired_holds [of ?s] show ?thesis by (intro exI [of _ ?s]) simp
qed

lemma secret_patched:
  assumes "ob_secrets (after S0 l) (rendered_key cluster) = Some t" "secret_key t = rendered_key cluster"
    and "\<not> holds t data admin bin" "binarySpecJSON R up = Inr bin"
  shows "\<exists>s. yields S0 (upsertSecret R C cluster data admin up) l () (put_secret s (after S0 l)) \<and>
    secret_key s = rendered_key cluster \<and> holds s data admin bin"
proof -
  let ?s = "t\<lparr>se_Data := se_Data (desired_secret cluster data admin bin), se_Labels := (se_Labels t)(ClusterLabel \<mapsto> cl_Name cluster)\<rparr>"
  have s: "patched_secret t ?s t = ?s" "secret_key ?s = rendered_key cluster"
    using assms(2) by (simp_all add: patched_secret_def secret_key_def)
  have d: "se_Namespace (desired_secret cluster data admin bin) = cl_Namespace cluster"
    "se_Name (desired_secret cluster data admin bin) = RenderedSecretName (cl_Name cluster)" by (simp_all add: desired_secret_def)
  have "upsertSecret R C cluster data admin up l =
      (Inr (), l @ [GetSecret (rendered_key cluster) (Inr t)] @ [PatchSecret t ?s None])"
    using assms s d by (auto simp: upsertSecret_def bindS_def gets_secret patch_secret_def patches_secret holds_def Let_def)
  then have "yields S0 (upsertSecret R C cluster data admin up) l () (put_secret ?s (after S0 l))"
    using assms(1) s by (simp add: yields_def)
  with s(2) desired_holds [of ?s] show ?thesis by (intro exI [of _ ?s]) simp
qed

lemma secret_kept:
  assumes "ob_secrets (after S0 l) (rendered_key cluster) = Some t" "holds t data admin bin" "binarySpecJSON R up = Inr bin"
  shows "gives is_read (upsertSecret R C cluster data admin up) l ()"
proof -
  have "se_Namespace (desired_secret cluster data admin bin) = cl_Namespace cluster"
    "se_Name (desired_secret cluster data admin bin) = RenderedSecretName (cl_Name cluster)" by (simp_all add: desired_secret_def)
  with assms show ?thesis
    by (simp add: upsertSecret_def bindS_def gets_secret gives_def adds_one holds_def Let_def)
qed

lemma secret_stored:
  assumes "named (after S0 l) (rendered_key cluster)"
    and "ce_SetControllerReference R cluster None = Inr owner" "binarySpecJSON R up = Inr bin"
  shows "\<exists>s. yields S0 (upsertSecret R C cluster data admin up) l () (put_secret s (after S0 l)) \<and>
    secret_key s = rendered_key cluster \<and> holds s data admin bin"
proof (cases "ob_secrets (after S0 l) (rendered_key cluster)")
  case None
  with assms show ?thesis by (intro secret_created)
next
  case (Some t)
  then have key: "secret_key t = rendered_key cluster" using assms(1) by (simp add: named_def)
  show ?thesis
  proof (cases "holds t data admin bin")
    case True
    have "put_secret t (after S0 l) = after S0 l" using Some key by (simp add: put_secret_def fun_upd_idem)
    with gives_yields [OF secret_kept [OF Some True assms(3)], of S0] True key show ?thesis by (intro exI [of _ t]) simp
  next
    case False
    with Some key assms(3) show ?thesis by (intro secret_patched)
  qed
qed

end

section \<open>What rendering needs\<close>

definition rendered_condition :: "'q ctl_env \<Rightarrow> PgDoorman \<Rightarrow> 'q message \<Rightarrow> Condition" where
  "rendered_condition R pd msg = \<lparr>co_Type = ''Rendered'', co_Status = True, co_Reason = ''Rendered'',
     co_Message = ce_text R msg, co_ObservedGeneration = pd_Generation pd\<rparr>"

text \<open>The documented behaviour of the helpers: finalizers are a set kept in a list, setting a condition twice changes nothing the
  second time, an owner can be set, the codecs encode, and what was encoded is decoded to the same configuration.\<close>

definition libs_ok ::
  "'q ctl_env \<Rightarrow> (DoormanConfig \<Rightarrow> string) \<Rightarrow> PgDoormanSpec \<Rightarrow> 'q PluginConfiguration \<Rightarrow> bool" where
  "libs_ok R enc spec cfg \<longleftrightarrow>
     (\<forall>fs. ce_ContainsFinalizer R fs Finalizer = (Finalizer \<in> set fs)) \<and>
     (\<forall>fs. Finalizer \<in> set (ce_AddFinalizer R fs Finalizer)) \<and>
     (\<forall>cs c. \<not> snd (ce_SetStatusCondition R (fst (ce_SetStatusCondition R cs c)) c)) \<and>
     (\<forall>cs c. \<not> snd (ce_SetStatusCondition R cs c) \<longrightarrow> fst (ce_SetStatusCondition R cs c) = cs) \<and>
     (\<forall>cluster. \<not> isl (ce_SetControllerReference R cluster None)) \<and> (\<forall>b. \<not> isl (ce_json R b)) \<and>
     ce_marshal R = Inr \<circ> enc \<and>
     (\<forall>pw c. build_config spec (pc_PoolerPort cfg) (pc_MetricsPort cfg) pw (Some render_tls) = Some c \<longrightarrow>
        ce_unmarshal R (enc c) = Inr c)"

lemma binary_json_ok:
  assumes "libs_ok R enc spec cfg"
  shows "\<exists>bin. binarySpecJSON R up = Inr bin"
proof -
  have "\<not> isl (ce_json R b)" for b using assms by (simp add: libs_ok_def)
  then show ?thesis by (cases "ce_json R (the (ce_Binary R))") (auto simp: binarySpecJSON_def isl_def split: option.split)
qed

lemma users_resolved:
  assumes "\<And>ref. ref \<in> set (spec_refs spec) \<Longrightarrow> available S ns cluster ref"
  shows "users_have_passwords (EnsureAdminPassword (resolved S ns spec) admin) spec"
proof -
  have "EnsureAdminPassword pw admin (PasswordKey n ''user'' u) = pw (PasswordKey n ''user'' u)" for pw n u
    using PasswordKey_not_admin [of "''user''" n u] by (simp add: EnsureAdminPassword_def)
  moreover have "lookup_str pw k = [] \<longleftrightarrow> pw k \<in> {None, Some []}" for pw :: "string \<rightharpoonup> string" and k
    by (auto simp: lookup_str_def split: option.splits)
  ultimately show ?thesis
    using resolved_user [OF assms] by (fastforce simp: users_have_passwords_def list_all_iff lookup_str_def)
qed

text \<open>The configuration for the stored Secrets and an admin password.\<close>

definition config_for :: "objects \<Rightarrow> string \<Rightarrow> PgDoormanSpec \<Rightarrow> 'q PluginConfiguration \<Rightarrow> string \<Rightarrow> DoormanConfig" where
  "config_for S ns spec cfg admin =
     the (build_config spec (pc_PoolerPort cfg) (pc_MetricsPort cfg) (EnsureAdminPassword (resolved S ns spec) admin)
       (Some render_tls))"

lemma config_validates:
  assumes "libs_ok R enc spec cfg" "crd_valid spec" "\<And>ref. ref \<in> set (spec_refs spec) \<Longrightarrow> available S ns cluster ref"
  shows "ValidateConfigBytes (ce_unmarshal R) (ce_rank R) (enc (config_for S ns spec cfg admin)) =
      Inr (config_for S ns spec cfg admin)"
proof -
  let ?pw = "EnsureAdminPassword (resolved S ns spec) admin"
  obtain c where c: "build_config spec (pc_PoolerPort cfg) (pc_MetricsPort cfg) ?pw (Some render_tls) = Some c"
    using build_config_total by blast
  then have "config_for S ns spec cfg admin = c" by (simp add: config_for_def)
  moreover have "config_ok c" by (rule build_config_ok [OF assms(2) users_resolved [OF assms(3)] c])
  moreover have "ce_unmarshal R (enc c) = Inr c" using assms(1) c by (simp add: libs_ok_def)
  ultimately show ?thesis by (simp add: ValidateConfigBytes_ok)
qed

lemma render_run:
  assumes "libs_ok R enc spec cfg" "crd_valid spec" "\<And>ref. ref \<in> set (spec_refs spec) \<Longrightarrow> available S ns (cl_Name cluster) ref"
    and "ResolvePasswords C ns spec l = (Inr (resolved S ns spec), l1)" "adminPasswordFallback C cluster l1 = (Inr admin, l2)"
  shows "render R C spec ns cluster cfg l = (Inr (enc (config_for S ns spec cfg admin), admin), l2)"
proof -
  let ?pw = "EnsureAdminPassword (resolved S ns spec) admin"
  obtain c where c: "build_config spec (pc_PoolerPort cfg) (pc_MetricsPort cfg) ?pw (Some render_tls) = Some c"
    using build_config_total by blast
  then have cfg: "config_for S ns spec cfg admin = c" by (simp add: config_for_def)
  have "ce_marshal R = Inr \<circ> enc" using assms(1) by (simp add: libs_ok_def)
  with assms(4,5) c config_validates [OF assms(1-3), of admin] show ?thesis
    by (simp add: render_def bindS_def Generate_def cfg Let_def)
qed

context honest_server
begin

lemma status_stored:
  assumes "libs_ok R enc spec cfg" "ob_pgdoormen (after S0 l) (pd_key pd) = Some pd" "\<not> pd_Deleting pd"
  shows "\<exists>pd'. yields S0 (setRendered R C pd True ''Rendered'' msg) l () (put_pgdoorman pd' (after S0 l)) \<and>
    pd' = pd\<lparr>pd_Conditions := fst (ce_SetStatusCondition R (pd_Conditions pd) (rendered_condition R pd msg)),
             pd_ObservedGeneration := pd_ObservedGeneration pd'\<rparr>"
proof -
  obtain conds changed where set: "ce_SetStatusCondition R (pd_Conditions pd) (rendered_condition R pd msg) = (conds, changed)"
    by (rule prod.exhaust)
  show ?thesis
  proof (cases changed)
    case False
    with assms(1) set have conds: "conds = pd_Conditions pd" unfolding libs_ok_def by (metis fst_conv snd_conv)
    have "put_pgdoorman pd (after S0 l) = after S0 l" using assms(2,3) by (simp add: put_pgdoorman_def fun_upd_idem)
    with False set conds show ?thesis
      by (intro exI [of _ pd]) (simp add: setRendered_def rendered_condition_def yields_def Let_def)
  next
    case True
    let ?pd = "pd\<lparr>pd_Conditions := conds, pd_ObservedGeneration := pd_Generation pd\<rparr>"
    have put: "effect (UpdateStatus ?pd None) (after S0 l) = put_pgdoorman ?pd (after S0 l)"
      using assms(2) by (simp add: pd_key_def with_status_def)
    have "update_status C ?pd l' = (Inr (), l' @ [UpdateStatus ?pd None])" if "after S0 l' = after S0 l" for l'
      using assms(2) that by (simp add: update_status_def updates_status pd_key_def Let_def)
    then have upd: "yields S0 (update_status C ?pd) l' () (put_pgdoorman ?pd (after S0 l))" if "after S0 l' = after S0 l" for l'
      using that put by (simp add: yields_def)
    have "yields S0 (if b then record_event ty re else retS ()) l () (after S0 l)" for b ty re
      by (simp add: yields_def record_event_def)
    from yields_bind [OF this upd] True set show ?thesis
      by (intro exI [of _ ?pd]) (simp add: setRendered_def rendered_condition_def Let_def)
  qed
qed

lemma status_kept:
  assumes "\<not> snd (ce_SetStatusCondition R (pd_Conditions pd) (rendered_condition R pd msg))"
  shows "gives P (setRendered R C pd True ''Rendered'' msg) l ()"
  using assms
  by (cases "ce_SetStatusCondition R (pd_Conditions pd) (rendered_condition R pd msg)")
    (simp add: setRendered_def rendered_condition_def gives_retS Let_def)

end

section \<open>The way of a reconcile\<close>

abbreviation rendered_msg :: "PgDoorman \<Rightarrow> Cluster \<Rightarrow> 'q message" where
  "rendered_msg pd cluster \<equiv> MRendered (pd_Generation pd) (RenderedSecretName (cl_Name cluster))"

text \<open>The stored cluster uses the stored \<open>PgDoorman\<close>, with accepted parameters and a spec that refers to other Secrets than
  the rendered one.\<close>

definition wants :: "'q ctl_env \<Rightarrow> objects \<Rightarrow> PgDoorman \<Rightarrow> Cluster \<Rightarrow> PgDoormanSpec \<Rightarrow> string \<Rightarrow> bool" where
  "wants R S pd cluster spec user \<longleftrightarrow>
     (let cfg = NewFromCluster (ce_config R) cluster in
      ob_pgdoormen S (pd_key pd) = Some pd \<and> \<not> pd_Deleting pd \<and>
      ob_clusters S (pd_Namespace pd, ds_ClusterRef (pd_Spec pd)) = Some cluster \<and>
      cl_Namespace cluster = pd_Namespace pd \<and> cl_Name cluster = ds_ClusterRef (pd_Spec pd) \<and>
      pc_Enabled cfg \<and> pc_ConfigName cfg = pd_Name pd \<and> \<not> isl (Validate (ce_config R) cfg) \<and>
      crd_valid (pd_Spec pd) \<and> DefaultAuthSecretRefs (pd_Spec pd) = Inr (spec, user) \<and>
      RenderedSecretName (cl_Name cluster) \<notin> set (CollectSecretNames spec) \<and>
      named S (rendered_key cluster) \<and> named S (auth_key cluster))"

definition ready :: "'q ctl_env \<Rightarrow> objects \<Rightarrow> PgDoorman \<Rightarrow> Cluster \<Rightarrow> PgDoormanSpec \<Rightarrow> string \<Rightarrow> bool" where
  "ready R S pd cluster spec user \<longleftrightarrow> wants R S pd cluster spec user \<and>
     (\<forall>ref \<in> set (spec_refs spec). available S (pd_Namespace pd) (cl_Name cluster) ref) \<and>
     (user \<noteq> [] \<longrightarrow> ob_secrets S (auth_key cluster) \<noteq> None) \<and> Finalizer \<in> set (pd_Finalizers pd)"

text \<open>Nothing is left to do.\<close>

definition settled ::
  "'q ctl_env \<Rightarrow> (DoormanConfig \<Rightarrow> string) \<Rightarrow> objects \<Rightarrow> PgDoorman \<Rightarrow> Cluster \<Rightarrow> PgDoormanSpec \<Rightarrow> string \<Rightarrow> bool" where
  "settled R enc S pd cluster spec user \<longleftrightarrow> ready R S pd cluster spec user \<and>
     \<not> snd (ce_SetStatusCondition R (pd_Conditions pd) (rendered_condition R pd (rendered_msg pd cluster))) \<and>
     (\<exists>s admin bin. ob_secrets S (rendered_key cluster) = Some s \<and> admin \<noteq> [] \<and>
        binarySpecJSON R (pc_InPlaceUpgrades (NewFromCluster (ce_config R) cluster)) = Inr bin \<and>
        lookup_str (se_Data s) ConfigKey =
          enc (config_for S (pd_Namespace pd) spec (NewFromCluster (ce_config R) cluster) admin) \<and>
        se_Data s generatedAdminPasswordKey = Some admin \<and>
        lookup_str (se_Data s) BinarySpecKey = (case bin of None \<Rightarrow> [] | Some j \<Rightarrow> j))"

lemma secret_value_put [simp]:
  "secret_key s \<noteq> (ns, sk_Name ref) \<Longrightarrow> secret_value (put_secret s S) ns ref = secret_value S ns ref"
  "secret_value (put_pgdoorman p S) ns ref = secret_value S ns ref"
  by (simp_all add: secret_value_def put_secret_def put_pgdoorman_def)

lemma labelled_put [simp]:
  "secret_key s \<noteq> (ns, name) \<Longrightarrow> labelled (put_secret s S) ns cluster name = labelled S ns cluster name"
  "labelled (put_pgdoorman p S) ns cluster name = labelled S ns cluster name"
  by (simp_all add: labelled_def put_secret_def put_pgdoorman_def)

lemma put_fields [simp]:
  "ob_pgdoormen (put_secret s S) = ob_pgdoormen S" "ob_clusters (put_secret s S) = ob_clusters S"
  "ob_secrets (put_secret s S) = (ob_secrets S)(secret_key s \<mapsto> s)"
  "ob_secrets (put_pgdoorman p S) = ob_secrets S" "ob_clusters (put_pgdoorman p S) = ob_clusters S"
  "ob_pgdoormen (put_pgdoorman p S) (pd_key p) = (if pd_Deleting p \<and> pd_Finalizers p = [] then None else Some p)"
  by (simp_all add: put_secret_def put_pgdoorman_def)

lemma named_put [simp]:
  "named S k \<Longrightarrow> named (put_secret s S) k" "named (put_pgdoorman p S) k = named S k"
  by (simp_all add: named_def)

lemma resolved_cong:
  assumes "\<And>ref. ref \<in> set (spec_refs spec) \<Longrightarrow> secret_value S ns ref = secret_value S' ns ref"
  shows "resolved S ns spec = resolved S' ns spec"
proof -
  have "foldl (put_value S ns) pw es = foldl (put_value S' ns) pw es" if "fst ` snd ` set es \<subseteq> set (spec_refs spec)" for pw es
    using that assms by (induction es arbitrary: pw) (auto simp: put_value_def)
  moreover have "fst ` snd ` set (entries spec) = set (spec_refs spec)" by (simp flip: entries_refs add: image_image)
  ultimately show ?thesis by (simp add: resolved_def)
qed

lemma rendered_not_ref:
  assumes "wants R S pd cluster spec user" "ref \<in> set (spec_refs spec)" "secret_key s = rendered_key cluster"
  shows "secret_key s \<noteq> (pd_Namespace pd, sk_Name ref)"
  using assms by (auto simp: wants_def Let_def CollectSecretNames_props)

lemma key_names: "rendered_key cluster \<noteq> auth_key cluster"
  by (simp add: RenderedSecretName_def GeneratedAuthSecretName_def)

text \<open>Storing the rendered Secret and the status keeps a \<open>PgDoorman\<close> ready.\<close>

lemma ready_put:
  assumes "ready R S pd cluster spec user" "secret_key s = rendered_key cluster"
    and "pd' = pd\<lparr>pd_Conditions := cs, pd_ObservedGeneration := g\<rparr>"
  shows "ready R (put_pgdoorman pd' (put_secret s S)) pd' cluster spec user" (is "ready R ?S _ _ _ _")
    and "config_for (put_pgdoorman pd' (put_secret s S)) (pd_Namespace pd) spec cfg admin = config_for S (pd_Namespace pd) spec cfg admin"
proof -
  have w: "wants R S pd cluster spec user" using assms(1) by (simp add: ready_def)
  have val: "secret_value ?S (pd_Namespace pd) ref = secret_value S (pd_Namespace pd) ref"
    "labelled ?S (pd_Namespace pd) c (sk_Name ref) = labelled S (pd_Namespace pd) c (sk_Name ref)"
    if "ref \<in> set (spec_refs spec)" for ref c
    using rendered_not_ref [OF w that assms(2)] by simp_all
  then show "config_for ?S (pd_Namespace pd) spec cfg admin = config_for S (pd_Namespace pd) spec cfg admin"
    by (simp add: config_for_def resolved_cong [of spec ?S _ S])
  have key: "pd_key pd' = pd_key pd" "ob_pgdoormen ?S (pd_key pd') = Some pd'"
    using assms(3) w by (simp add: pd_key_def, simp only: put_fields) (simp add: wants_def Let_def)
  have "wants R ?S pd' cluster spec user"
    using w assms(3) key unfolding wants_def Let_def by auto
  with assms(1,3) val key_names [of cluster] assms(2) show "ready R ?S pd' cluster spec user"
    unfolding ready_def available_def by auto
qed

text \<open>Every reference can be used, or is to the Secret that the reconcile will generate.\<close>

definition startable :: "'q ctl_env \<Rightarrow> objects \<Rightarrow> PgDoorman \<Rightarrow> Cluster \<Rightarrow> PgDoormanSpec \<Rightarrow> string \<Rightarrow> bool" where
  "startable R S pd cluster spec user \<longleftrightarrow> wants R S pd cluster spec user \<and>
     (\<forall>ref \<in> set (spec_refs spec). available S (pd_Namespace pd) (cl_Name cluster) ref \<or>
        user \<noteq> [] \<and> ref = generated_ref (cl_Name cluster) \<and> ob_secrets S (auth_key cluster) = None)"

lemma ready_start:
  assumes "startable R S pd cluster spec user" "Finalizer \<in> set (pd_Finalizers pd)"
    and "user \<noteq> [] \<Longrightarrow> ob_secrets S (auth_key cluster) \<noteq> None"
  shows "ready R S pd cluster spec user"
proof -
  have "available S (pd_Namespace pd) (cl_Name cluster) ref" if "ref \<in> set (spec_refs spec)" for ref
    using assms(1,3) that by (auto simp: startable_def)
  with assms show ?thesis by (simp add: startable_def ready_def)
qed

lemma ready_auth:
  assumes "startable R S pd cluster spec user" "Finalizer \<in> set (pd_Finalizers pd)" "pw \<noteq> []"
    and "ob_secrets S (auth_key cluster) = None"
  shows "ready R (put_secret ((generated_auth_secret cluster user pw)\<lparr>se_Owner := owner\<rparr>) S) pd cluster spec user"
    (is "ready R (put_secret ?g S) _ _ _ _")
proof -
  have w: "wants R S pd cluster spec user" using assms(1) by (simp add: startable_def)
  then have ns: "cl_Namespace cluster = pd_Namespace pd" by (simp add: wants_def Let_def)
  have g: "secret_key ?g = auth_key cluster" "se_Labels ?g ClusterLabel = Some (cl_Name cluster)" "se_Data ?g ''password'' = Some pw"
    by (simp_all add: secret_key_def generated_auth_secret_def)
  have "available (put_secret ?g S) (pd_Namespace pd) (cl_Name cluster) ref" if "ref \<in> set (spec_refs spec)" for ref
  proof (cases "available S (pd_Namespace pd) (cl_Name cluster) ref")
    case True
    then have "ob_secrets S (pd_Namespace pd, sk_Name ref) \<noteq> None" by (auto simp: available_def labelled_def split: option.splits)
    with assms(4) g(1) have "secret_key ?g \<noteq> (pd_Namespace pd, sk_Name ref)" by metis
    with True show ?thesis by (simp add: available_def)
  next
    case False
    with assms(1) that have "ref = generated_ref (cl_Name cluster)" by (auto simp: startable_def)
    with g assms(3) show ?thesis
      by (simp add: available_def labelled_def secret_value_def generated_ref_def ns)
  qed
  moreover have "wants R (put_secret ?g S) pd cluster spec user" using w unfolding wants_def Let_def by auto
  ultimately show ?thesis using assms(2) g(1) by (simp add: ready_def)
qed

lemma startable_finalizer:
  assumes "startable R S pd cluster spec user" "pd' = pd\<lparr>pd_Finalizers := fs\<rparr>"
  shows "startable R (put_pgdoorman pd' S) pd' cluster spec user"
proof -
  have w: "wants R S pd cluster spec user" using assms(1) by (simp add: startable_def)
  have key: "pd_key pd' = pd_key pd" "ob_pgdoormen (put_pgdoorman pd' S) (pd_key pd') = Some pd'"
    using assms(2) w by (simp add: pd_key_def, simp only: put_fields) (simp add: wants_def Let_def)
  have "wants R (put_pgdoorman pd' S) pd' cluster spec user"
    using w assms(2) key unfolding wants_def Let_def by auto
  moreover have "available (put_pgdoorman pd' S) ns c ref = available S ns c ref" for ns c ref by (simp add: available_def)
  moreover have "pd_Namespace pd' = pd_Namespace pd" using assms(2) by simp
  ultimately show ?thesis using assms(1) by (simp add: startable_def)
qed

context honest_server
begin

lemma render_yields:
  assumes "libs_ok R enc spec cfg" "crd_valid spec"
    and "\<And>ref. ref \<in> set (spec_refs spec) \<Longrightarrow> available (after S0 l) (pd_Namespace pd) (cl_Name cluster) ref"
  shows "\<exists>l1 l2 admin. validateSecretOwnership C pd spec (cl_Name cluster) l = (Inr (), l1) \<and> admin \<noteq> [] \<and>
    render R C spec (pd_Namespace pd) cluster cfg l1 =
      (Inr (enc (config_for (after S0 l) (pd_Namespace pd) spec cfg admin), admin), l2) \<and> after S0 l2 = after S0 l"
proof -
  let ?S = "after S0 l" and ?ns = "pd_Namespace pd"
  have "gives is_read (validateSecretOwnership C pd spec (cl_Name cluster)) l ()"
    by (rule owners_ok) (use assms(3) in \<open>auto simp: CollectSecretNames_props available_def\<close>)
  then obtain l1 where l1: "validateSecretOwnership C pd spec (cl_Name cluster) l = (Inr (), l1)" "after S0 l1 = ?S"
    by (auto simp: gives_def adds_read_after)
  obtain l2 where l2: "ResolvePasswords C ?ns spec l1 = (Inr (resolved ?S ?ns spec), l2)" "after S0 l2 = ?S"
    using resolves [of spec l1 ?ns] assms(3) l1(2) by (auto simp: gives_def adds_read_after available_def)
  obtain admin l3 where l3: "admin \<noteq> []" "adminPasswordFallback C cluster l2 = (Inr admin, l3)" "after S0 l3 = ?S"
    using finds_admin [of cluster l2] l2(2) by (auto simp: yields_def)
  from l1(1) l3 render_run [OF assms l2(1) l3(2)] show ?thesis by blast
qed

lemma render_settles:
  assumes "libs_ok R enc spec (NewFromCluster (ce_config R) cluster)" "ready R (after S0 l) pd cluster spec user"
  shows "\<exists>S' pd'. yields S0 (reconcile_render R C pd cluster (NewFromCluster (ce_config R) cluster) spec) l NoRequeue S' \<and>
    settled R enc S' pd' cluster spec user \<and> pd_key pd' = pd_key pd"
proof -
  let ?S = "after S0 l" and ?ns = "pd_Namespace pd" and ?cfg = "NewFromCluster (ce_config R) cluster"
  let ?cond = "rendered_condition R pd (rendered_msg pd cluster)"
  have av: "\<And>ref. ref \<in> set (spec_refs spec) \<Longrightarrow> available ?S ?ns (cl_Name cluster) ref"
    and w: "wants R ?S pd cluster spec user" using assms(2) by (auto simp: ready_def)
  have crd: "crd_valid spec" using w crd_valid_normalized by (auto simp: wants_def Let_def)
  obtain l1 l3 admin where l1: "validateSecretOwnership C pd spec (cl_Name cluster) l = (Inr (), l1)" and admin: "admin \<noteq> []"
    and l3: "render R C spec ?ns cluster ?cfg l1 = (Inr (enc (config_for ?S ?ns spec ?cfg admin), admin), l3)" "after S0 l3 = ?S"
    using render_yields [OF assms(1) crd av] by blast
  let ?data = "enc (config_for ?S ?ns spec ?cfg admin)"
  obtain owner bin where owner: "ce_SetControllerReference R cluster None = Inr owner"
    and bin: "binarySpecJSON R (pc_InPlaceUpgrades ?cfg) = Inr bin"
    using assms(1) binary_json_ok [OF assms(1)] unfolding libs_ok_def by (metis sum.collapse(2))
  have "named (after S0 l3) (rendered_key cluster)" using w unfolding l3(2) wants_def Let_def by blast
  from secret_stored [OF this owner bin, where data = ?data and admin = admin] obtain s l4 where
    l4: "upsertSecret R C cluster ?data admin (pc_InPlaceUpgrades ?cfg) l3 = (Inr (), l4)" "after S0 l4 = put_secret s ?S"
    and s: "secret_key s = rendered_key cluster" "holds s ?data admin bin"
    by (auto simp: yields_def l3(2))
  have stored: "ob_pgdoormen (after S0 l4) (pd_key pd) = Some pd" "\<not> pd_Deleting pd"
    using w l4(2) by (simp_all add: wants_def Let_def)
  obtain pd' l5 where l5: "setRendered R C pd True ''Rendered'' (rendered_msg pd cluster) l4 = (Inr (), l5)"
      "after S0 l5 = put_pgdoorman pd' (put_secret s ?S)"
    and pd': "pd' = pd\<lparr>pd_Conditions := fst (ce_SetStatusCondition R (pd_Conditions pd) ?cond), pd_ObservedGeneration := pd_ObservedGeneration pd'\<rparr>"
    using status_stored [OF assms(1) stored, of "rendered_msg pd cluster"] by (auto simp: yields_def l4(2))
  have same: "pd_Namespace pd' = ?ns" "pd_key pd' = pd_key pd" "pd_Generation pd' = pd_Generation pd"
    "pd_Conditions pd' = fst (ce_SetStatusCondition R (pd_Conditions pd) ?cond)" by (subst pd', simp add: pd_key_def)+
  have "se_Data s generatedAdminPasswordKey = Some admin"
    using s(2) admin by (auto simp: holds_def lookup_str_def split: option.splits)
  moreover have "\<not> snd (ce_SetStatusCondition R (pd_Conditions pd') (rendered_condition R pd' (rendered_msg pd' cluster)))"
    using assms(1) same(3,4) by (simp add: libs_ok_def rendered_condition_def)
  ultimately have "settled R enc (after S0 l5) pd' cluster spec user"
    unfolding settled_def l5(2)
    using ready_put(1) [OF assms(2) s(1) pd'] ready_put(2) [OF assms(2) s(1) pd', of ?cfg admin] s bin admin same(1)
    by (auto simp: holds_def)
  moreover have "reconcile_render R C pd cluster ?cfg spec l = (Inr NoRequeue, l5)"
    using l1 l3(1) l4(1) l5(1) by (simp add: reconcile_render_def reconcile_publish_def bindS_def)
  ultimately show ?thesis using same(2) by (auto simp: yields_def)
qed

lemma settled_rests:
  assumes "libs_ok R enc spec (NewFromCluster (ce_config R) cluster)" "settled R enc (after S0 l) pd cluster spec user"
  shows "gives is_read (reconcile_render R C pd cluster (NewFromCluster (ce_config R) cluster) spec) l NoRequeue"
proof -
  let ?S = "after S0 l" and ?ns = "pd_Namespace pd" and ?cfg = "NewFromCluster (ce_config R) cluster"
  obtain s admin bin where s: "ob_secrets ?S (rendered_key cluster) = Some s" "admin \<noteq> []"
      "binarySpecJSON R (pc_InPlaceUpgrades ?cfg) = Inr bin"
      "lookup_str (se_Data s) ConfigKey = enc (config_for ?S ?ns spec ?cfg admin)"
      "se_Data s generatedAdminPasswordKey = Some admin"
      "lookup_str (se_Data s) BinarySpecKey = (case bin of None \<Rightarrow> [] | Some j \<Rightarrow> j)"
    and rest: "\<not> snd (ce_SetStatusCondition R (pd_Conditions pd) (rendered_condition R pd (rendered_msg pd cluster)))"
    and ready: "ready R ?S pd cluster spec user"
    using assms(2) unfolding settled_def by blast
  have av: "\<And>ref. ref \<in> set (spec_refs spec) \<Longrightarrow> available ?S ?ns (cl_Name cluster) ref"
    and w: "wants R ?S pd cluster spec user" using ready by (auto simp: ready_def)
  have crd: "crd_valid spec" using w crd_valid_normalized by (auto simp: wants_def Let_def)
  have own: "gives is_read (validateSecretOwnership C pd spec (cl_Name cluster)) l ()"
    by (rule owners_ok) (use av in \<open>auto simp: CollectSecretNames_props available_def\<close>)
  let ?r = "(enc (config_for ?S ?ns spec ?cfg admin), admin)"
  have run: "gives is_read (render R C spec ?ns cluster ?cfg) l' ?r" if "adds is_read l l'" for l'
  proof -
    have S: "after S0 l' = ?S" using that by (rule adds_read_after)
    obtain l1 where l1: "ResolvePasswords C ?ns spec l' = (Inr (resolved ?S ?ns spec), l1)" "adds is_read l' l1"
      using resolves [of spec l' ?ns] av S by (auto simp: gives_def available_def)
    obtain l2 where l2: "adminPasswordFallback C cluster l1 = (Inr admin, l2)" "adds is_read l1 l2"
      using keeps_admin [of l1 cluster s admin] s S adds_read_after [OF l1(2), of S0] by (auto simp: gives_def)
    show ?thesis
      using render_run [OF assms(1) crd av l1(1) l2(1)] transpD [OF adds_trans l1(2) l2(2)] by (auto simp: gives_def)
  qed
  have held: "holds s (fst ?r) (snd ?r) bin" using s by (simp add: holds_def lookup_str_def)
  have up: "gives is_read (upsertSecret R C cluster (fst ?r) (snd ?r) (pc_InPlaceUpgrades ?cfg)) l' ()" if "adds is_read l l'" for l'
    using secret_kept [OF _ held s(3)] s(1) adds_read_after [OF that, of S0] by simp
  have "gives is_read (reconcile_publish R C pd cluster ?cfg ?r) l' NoRequeue" if "adds is_read l l'" for l'
    unfolding reconcile_publish_def
    by (intro gives_bind [OF up [OF that]] gives_bind [of _ _ _ "()"]) (simp_all add: status_kept [OF rest] gives_retS)
  note publish = this
  have "gives is_read (bindS (tryS (render R C spec ?ns cluster ?cfg)) (\<lambda>r. case r of
      Inl e \<Rightarrow> fail_render R C pd ''RenderFailed'' (MRender e) (RequeueAfter requeueAfter)
      | Inr rendered \<Rightarrow> reconcile_publish R C pd cluster ?cfg rendered)) l' NoRequeue" if "adds is_read l l'" for l'
    by (rule gives_bind [OF gives_tryS [OF run [OF that]]])
      (use publish transpD [OF adds_trans that] in simp)
  then show ?thesis unfolding reconcile_render_def by (intro gives_bind [OF gives_tryS [OF own]]) simp
qed

lemma cluster_settles:
  assumes "libs_ok R enc spec (NewFromCluster (ce_config R) cluster)" "startable R (after S0 l) pd cluster spec user" "Finalizer \<in> set (pd_Finalizers pd)"
  shows "\<exists>S' pd'. yields S0 (reconcile_cluster R C pd cluster) l NoRequeue S' \<and>
    settled R enc S' pd' cluster spec user \<and> pd_key pd' = pd_key pd"
proof -
  let ?cfg = "NewFromCluster (ce_config R) cluster"
  have "pc_Enabled ?cfg" "pc_ConfigName ?cfg = pd_Name pd" "\<not> isl (Validate (ce_config R) ?cfg)"
    and spec: "DefaultAuthSecretRefs (pd_Spec pd) = Inr (spec, user)"
    using assms(2) by (simp_all add: startable_def wants_def Let_def)
  then have go: "reconcile_cluster R C pd cluster =
      (if user \<noteq> [] then
         bindS (tryS (ensureGeneratedAuthSecret R C cluster user)) (\<lambda>g.
           case g of
             Inl e \<Rightarrow> fail_render R C pd ''AuthSecretFailed'' (MAuthSecret e) (RequeueAfter requeueAfter)
           | Inr _ \<Rightarrow> reconcile_render R C pd cluster ?cfg spec)
       else reconcile_render R C pd cluster ?cfg spec)"
    by (cases "Validate (ce_config R) ?cfg") (simp_all add: reconcile_cluster_def Let_def)
  show ?thesis
  proof (cases "user = []")
    case True
    with render_settles [OF assms(1) ready_start [OF assms(2,3)]] go show ?thesis by simp
  next
    case False
    obtain owner where owner: "ce_SetControllerReference R cluster None = Inr owner"
      using assms(1) unfolding libs_ok_def by (metis sum.collapse(2))
    have "\<exists>l1. ensureGeneratedAuthSecret R C cluster user l = (Inr (), l1) \<and> ready R (after S0 l1) pd cluster spec user"
    proof (cases "ob_secrets (after S0 l) (auth_key cluster)")
      case None
      from auth_secret_made [OF this owner] ready_auth [OF assms(2,3) _ None] show ?thesis
        unfolding yields_def by metis
    next
      case (Some t)
      from auth_secret_kept [OF this, of R user] ready_start [OF assms(2,3)] Some show ?thesis
        by (auto simp: gives_def adds_read_after)
    qed
    then obtain l1 where l1: "ensureGeneratedAuthSecret R C cluster user l = (Inr (), l1)"
      "ready R (after S0 l1) pd cluster spec user" by blast
    from render_settles [OF assms(1) l1(2)] l1(1) False go show ?thesis
      by (simp add: yields_def bindS_def)
  qed
qed

lemma reconcile_settles:
  assumes "libs_ok R enc spec (NewFromCluster (ce_config R) cluster)" "startable R (after S0 l) pd cluster spec user"
  shows "\<exists>S' pd'. yields S0 (Reconcile R C (pd_key pd)) l NoRequeue S' \<and>
    settled R enc S' pd' cluster spec user \<and> pd_key pd' = pd_key pd"
proof -
  let ?cfg = "NewFromCluster (ce_config R) cluster"
  have pd: "ob_pgdoormen (after S0 l) (pd_key pd) = Some pd" "\<not> pd_Deleting pd"
    and cl: "ob_clusters (after S0 l) (pd_Namespace pd, ds_ClusterRef (pd_Spec pd)) = Some cluster"
    and use: "pc_ConfigName ?cfg = pd_Name pd"
    using assms(2) by (simp_all add: startable_def wants_def Let_def)
  let ?l = "l @ [GetPgDoorman (pd_key pd) (Inr pd), GetCluster (pd_Namespace pd, ds_ClusterRef (pd_Spec pd)) (Inr cluster)]"
  have start: "Reconcile R C (pd_key pd) l =
      bindS (mapErrS EApi (ensureFinalizer R C pd True)) (\<lambda>pd'. reconcile_cluster R C pd' cluster) ?l"
    using pd cl use
    by (simp add: Reconcile_def reconcile_found_def bindS_def get_pgdoorman_def get_cluster_def reads_pgdoorman reads_cluster
        Let_def)
  have "\<And>fs. ce_ContainsFinalizer R fs Finalizer = (Finalizer \<in> set fs)" "\<And>fs. Finalizer \<in> set (ce_AddFinalizer R fs Finalizer)"
    using assms(1) by (simp_all add: libs_ok_def)
  from finalizer_set [OF _ pd(2) this, of ?l] pd(1) obtain pd1 l1 where
    l1: "ensureFinalizer R C pd True ?l = (Inr pd1, l1)" "after S0 l1 = put_pgdoorman pd1 (after S0 l)"
    and pd1: "Finalizer \<in> set (pd_Finalizers pd1)" "pd1 = pd\<lparr>pd_Finalizers := pd_Finalizers pd1\<rparr>"
    by (auto simp: yields_def)
  have key: "pd_key pd1 = pd_key pd" by (subst pd1(2)) (simp add: pd_key_def)
  have "startable R (after S0 l1) pd1 cluster spec user"
    unfolding l1(2) by (rule startable_finalizer [OF assms(2) pd1(2)])
  from cluster_settles [OF assms(1) this pd1(1)] start l1(1) key show ?thesis
    by (simp add: yields_def bindS_def)
qed

lemma reconcile_rests:
  assumes "libs_ok R enc spec (NewFromCluster (ce_config R) cluster)" "settled R enc (after S0 l) pd cluster spec user"
  shows "gives is_read (Reconcile R C (pd_key pd)) l NoRequeue"
proof -
  let ?cfg = "NewFromCluster (ce_config R) cluster"
  have r: "ready R (after S0 l) pd cluster spec user" using assms(2) by (simp add: settled_def)
  then have w: "ob_pgdoormen (after S0 l) (pd_key pd) = Some pd" "\<not> pd_Deleting pd"
      "ob_clusters (after S0 l) (pd_Namespace pd, ds_ClusterRef (pd_Spec pd)) = Some cluster"
      "pc_Enabled ?cfg" "pc_ConfigName ?cfg = pd_Name pd" "\<not> isl (Validate (ce_config R) ?cfg)"
      "DefaultAuthSecretRefs (pd_Spec pd) = Inr (spec, user)" "Finalizer \<in> set (pd_Finalizers pd)"
    by (simp_all add: ready_def wants_def Let_def)
  have auth: "user \<noteq> [] \<Longrightarrow> ob_secrets (after S0 l) (auth_key cluster) \<noteq> None" using r by (simp add: ready_def)
  let ?l = "l @ [GetPgDoorman (pd_key pd) (Inr pd), GetCluster (pd_Namespace pd, ds_ClusterRef (pd_Spec pd)) (Inr cluster)]"
  have adds: "adds is_read l ?l" by (simp add: adds_def)
  have "ce_ContainsFinalizer R (pd_Finalizers pd) Finalizer" using assms(1) w(8) by (simp add: libs_ok_def)
  then have start: "Reconcile R C (pd_key pd) l = reconcile_cluster R C pd cluster ?l"
    using w by (simp add: Reconcile_def reconcile_found_def ensureFinalizer_def bindS_def get_pgdoorman_def get_cluster_def
        reads_pgdoorman reads_cluster Let_def)
  have rest: "gives is_read (reconcile_render R C pd cluster ?cfg spec) l' NoRequeue" if "adds is_read ?l l'" for l'
    using settled_rests [of R enc spec cluster l' pd user] assms adds_read_after [OF that, of S0] adds_read_after [OF adds, of S0]
    by simp
  have "gives is_read (reconcile_cluster R C pd cluster) ?l NoRequeue"
  proof (cases "user = []")
    case True
    with w rest [of ?l] show ?thesis
      using adds_refl [of is_read]
      by (cases "Validate (ce_config R) ?cfg") (simp_all add: reconcile_cluster_def reflp_def Let_def)
  next
    case False
    obtain t where "ob_secrets (after S0 ?l) (auth_key cluster) = Some t" using auth [OF False] by auto
    have "gives is_read (bindS (tryS (ensureGeneratedAuthSecret R C cluster user)) (\<lambda>g.
           case g of
             Inl e \<Rightarrow> fail_render R C pd ''AuthSecretFailed'' (MAuthSecret e) (RequeueAfter requeueAfter)
           | Inr _ \<Rightarrow> reconcile_render R C pd cluster ?cfg spec)) ?l NoRequeue"
      by (rule gives_bind [OF gives_tryS [OF auth_secret_kept [OF \<open>ob_secrets (after S0 ?l) (auth_key cluster) = Some t\<close>]]])
        (simp add: rest)
    with False w show ?thesis
      by (cases "Validate (ce_config R) ?cfg") (simp_all add: reconcile_cluster_def Let_def)
  qed
  with start adds transpD [OF adds_trans] show ?thesis unfolding gives_def by metis
qed

end

section \<open>Progress and rest\<close>

text \<open>(C2) The controller renders. Over an API server that answers from what it stores and stores what it is told, a
  reconcile of a \<open>PgDoorman\<close> that its cluster uses, with accepted parameters, an admitted spec and references to Secrets
  that exist, are labelled for the cluster and hold a value (or to the generated one), succeeds and asks for no retry.
  Afterwards the rendered Secret holds the encoding of the configuration built from the stored Secrets, that
  configuration passes the wrapper's validation, and the stored status says that it was rendered.\<close>

theorem reconcile_renders:
  assumes "honest_server C S0" "libs_ok R enc spec (NewFromCluster (ce_config R) cluster)"
    and "startable R (after S0 l) pd cluster spec user"
  shows "\<exists>l' s admin pd'. Reconcile R C (pd_key pd) l = (Inr NoRequeue, l') \<and>
    (let c = config_for (after S0 l') (pd_Namespace pd) spec (NewFromCluster (ce_config R) cluster) admin in
       ob_secrets (after S0 l') (rendered_key cluster) = Some s \<and> lookup_str (se_Data s) ConfigKey = enc c \<and>
       ValidateConfigBytes (ce_unmarshal R) (ce_rank R) (enc c) = Inr c) \<and> admin \<noteq> [] \<and>
    ob_pgdoormen (after S0 l') (pd_key pd) = Some pd' \<and> Finalizer \<in> set (pd_Finalizers pd') \<and>
    \<not> snd (ce_SetStatusCondition R (pd_Conditions pd') (rendered_condition R pd' (rendered_msg pd' cluster)))"
proof -
  obtain l' pd' where run: "Reconcile R C (pd_key pd) l = (Inr NoRequeue, l')"
    and set: "settled R enc (after S0 l') pd' cluster spec user" and key: "pd_key pd' = pd_key pd"
    using honest_server.reconcile_settles [OF assms] unfolding yields_def by blast
  let ?cfg = "NewFromCluster (ce_config R) cluster"
  obtain s admin bin where s: "ob_secrets (after S0 l') (rendered_key cluster) = Some s" "admin \<noteq> []"
      "lookup_str (se_Data s) ConfigKey = enc (config_for (after S0 l') (pd_Namespace pd') spec ?cfg admin)"
    and rest: "\<not> snd (ce_SetStatusCondition R (pd_Conditions pd') (rendered_condition R pd' (rendered_msg pd' cluster)))"
    and r: "ready R (after S0 l') pd' cluster spec user" using set unfolding settled_def by blast
  have av: "\<And>ref. ref \<in> set (spec_refs spec) \<Longrightarrow> available (after S0 l') (pd_Namespace pd') (cl_Name cluster) ref"
    and w: "wants R (after S0 l') pd' cluster spec user" "Finalizer \<in> set (pd_Finalizers pd')"
    using r by (simp_all add: ready_def)
  then have crd: "crd_valid spec" and pd': "ob_pgdoormen (after S0 l') (pd_key pd') = Some pd'"
    using crd_valid_normalized by (auto simp: wants_def Let_def)
  have ns: "pd_Namespace pd' = pd_Namespace pd" using key by (simp add: pd_key_def)
  note s = s [unfolded ns] and pd' = pd' [unfolded key]
  note valid = config_validates [OF assms(2) crd av, of admin, unfolded ns]
  show ?thesis
    unfolding Let_def
    by (intro exI conjI, rule run, rule s(1), rule s(3), rule valid, assumption, rule s(2), rule pd', rule w(2), rule rest)
qed

text \<open>(C3) The controller comes to rest. Over the same server, a second reconcile of the same object only reads: no Secret, no
  status and no event is written, so the writes of the first do not start a loop of reconciles.\<close>

theorem reconcile_converges:
  assumes "honest_server C S0" "libs_ok R enc spec (NewFromCluster (ce_config R) cluster)"
    and "startable R (after S0 l) pd cluster spec user"
  shows "\<exists>l1 l2. Reconcile R C (pd_key pd) l = (Inr NoRequeue, l1) \<and>
    Reconcile R C (pd_key pd) l1 = (Inr NoRequeue, l2) \<and> adds is_read l1 l2"
proof -
  obtain l1 pd' where run: "Reconcile R C (pd_key pd) l = (Inr NoRequeue, l1)"
    and set: "settled R enc (after S0 l1) pd' cluster spec user" and key: "pd_key pd' = pd_key pd"
    using honest_server.reconcile_settles [OF assms] unfolding yields_def by blast
  from run honest_server.reconcile_rests [OF assms(1,2) set] show ?thesis
    unfolding gives_def key by blast
qed

section \<open>A reference to the rendered Secret\<close>

lemma foldl_put_value:
  assumes "distinct (map fst es)" "e \<in> set es"
  shows "foldl (put_value S ns) pw es (fst e) = secret_value S ns (fst (snd e))"
proof -
  have other: "foldl (put_value S ns) pw es k = pw k" if "k \<notin> fst ` set es" for es pw k
    using that by (induction es arbitrary: pw) (auto simp: put_value_def)
  from assms show ?thesis
  proof (induction es arbitrary: pw)
    case (Cons a es)
    have "put_value S ns pw a (fst a) = secret_value S ns (fst (snd a))" by (simp add: put_value_def)
    with Cons other [of "fst a" es] show ?case by auto
  qed simp
qed

lemma self_reference_longer:
  assumes "(n, p) \<in> set (ds_Pools spec)" "u \<in> set (pl_Users p)" "distinct (map fst (entries spec))"
    and "us_PasswordSecretRef u = \<lparr>sk_Name = RenderedSecretName (cl_Name cluster), sk_Key = ConfigKey\<rparr>"
    and "ob_secrets S (ns, RenderedSecretName (cl_Name cluster)) = Some s" "se_Data s ConfigKey = Some data"
    and "\<And>c m q v. (m, q) \<in> set (dc_Pools c) \<Longrightarrow> v \<in> set (po_Users q) \<Longrightarrow> length (uc_Password v) < length (enc c)"
  shows "length data < length (enc (config_for S ns spec cfg admin))"
proof -
  let ?k = "PasswordKey n ''user'' (us_Username u)" and ?pw = "EnsureAdminPassword (resolved S ns spec) admin"
  have "\<exists>w. (?k, us_PasswordSecretRef u, w) \<in> set (entries spec)"
    using assms(1,2) by (force simp: entries_def pool_entries_def user_entry_def)
  then have "resolved S ns spec ?k = Some data"
    using foldl_put_value [OF assms(3)] assms(4,5,6) unfolding resolved_def by (fastforce simp: secret_value_def)
  moreover have "?pw ?k = resolved S ns spec ?k"
    using PasswordKey_not_admin [of "''user''" n "us_Username u"] by (simp add: EnsureAdminPassword_def)
  ultimately have pw: "lookup_str ?pw ?k = data" by (simp add: lookup_str_def)
  obtain c where c: "build_config spec (pc_PoolerPort cfg) (pc_MetricsPort cfg) ?pw (Some render_tls) = Some c"
    using build_config_total by blast
  then have "dc_Pools c = map (\<lambda>(n, p). (n, gen_pool ?pw n (default_pool p))) (ds_Pools spec)"
    by (auto simp: build_config_def ApplyDefaults_def map_vals_def Let_def split: option.splits)
  then have "(n, gen_pool ?pw n (default_pool p)) \<in> set (dc_Pools c)" using assms(1) by force
  moreover have "gen_user ?pw n (default_user u) \<in> set (po_Users (gen_pool ?pw n (default_pool p)))"
    using assms(2) by (simp add: gen_pool_def default_pool_fields)
  moreover have "uc_Password (gen_user ?pw n (default_user u)) = data"
    using pw by (simp add: gen_user_def default_user_def)
  ultimately have "length data < length (enc c)" using assms(7) by metis
  with c show ?thesis by (simp add: config_for_def)
qed

context honest_server
begin

lemma render_result:
  assumes "ce_marshal R = Inr \<circ> enc" "\<And>ref. ref \<in> set (spec_refs spec) \<Longrightarrow> secret_value (after S0 l) ns ref \<noteq> None"
    and "render R C spec ns cluster cfg l = (Inr (data, admin), l')"
  shows "data = enc (config_for (after S0 l) ns spec cfg admin)"
proof -
  obtain l1 where l1: "ResolvePasswords C ns spec l = (Inr (resolved (after S0 l) ns spec), l1)"
    using resolves [OF assms(2)] by (auto simp: gives_def)
  let ?c = "\<lambda>a. build_config spec (pc_PoolerPort cfg) (pc_MetricsPort cfg) (EnsureAdminPassword (resolved (after S0 l) ns spec) a) (Some render_tls)"
  have "\<forall>a. \<exists>x. ?c a = Some x" using build_config_total by blast
  from choice [OF this] obtain f where "\<And>a. ?c a = Some (f a)" by blast
  then show ?thesis
    using l1 assms(1,3)
    by (auto simp: render_def bindS_def Generate_def config_for_def Let_def split: sum.splits prod.splits)
qed

end

text \<open>A spec may refer to the Secret the controller writes, which carries the label the ownership check asks for. Then no
  rendering agrees with what is stored: the stored configuration is a password in the next one, which is longer.\<close>

theorem self_reference_grows:
  assumes "honest_server C S0" "ce_marshal R = Inr \<circ> enc"
    and "\<And>ref. ref \<in> set (spec_refs spec) \<Longrightarrow> secret_value (after S0 l) ns ref \<noteq> None"
    and "(n, p) \<in> set (ds_Pools spec)" "u \<in> set (pl_Users p)" "distinct (map fst (entries spec))"
    and "us_PasswordSecretRef u = \<lparr>sk_Name = RenderedSecretName (cl_Name cluster), sk_Key = ConfigKey\<rparr>"
    and "ob_secrets (after S0 l) (ns, RenderedSecretName (cl_Name cluster)) = Some s" "se_Data s ConfigKey = Some data"
    and "\<And>c m q v. (m, q) \<in> set (dc_Pools c) \<Longrightarrow> v \<in> set (po_Users q) \<Longrightarrow> length (uc_Password v) < length (enc c)"
    and "render R C spec ns cluster cfg l = (Inr (rendered, admin), l')"
  shows "length data < length rendered"
  using self_reference_longer [OF assms(4-10)] honest_server.render_result [OF assms(1-3,11)] by simp

section \<open>An example\<close>

text \<open>A codec for the configurations of \<open>example_pd\<close>, which differ in two passwords only.\<close>

definition two_passwords :: "string \<Rightarrow> string \<Rightarrow> DoormanConfig" where
  "two_passwords admin alice = the (build_config (pd_Spec (example_pd [] False [])) 6432 9127
     [AdminPasswordKey \<mapsto> admin, PasswordKey ''app'' ''user'' ''alice'' \<mapsto> alice] (Some render_tls))"

definition toy_marshal :: "DoormanConfig \<Rightarrow> string" where
  "toy_marshal c =
     (let admin = ge_AdminPassword (dc_General c) in
      replicate (length admin) CHR ''a'' @ ''b'' @ admin @ uc_Password (hd (po_Users (snd (hd (dc_Pools c))))))"

definition toy_unmarshal :: "string \<Rightarrow> string + DoormanConfig" where
  "toy_unmarshal data =
     (let n = length (takeWhile (\<lambda>c. c = CHR ''a'') data); rest = drop (n + 1) data
      in Inr (two_passwords (take n rest) (drop n rest)))"

definition toy_env :: "nat ctl_env" where
  "toy_env = example_env\<lparr>ce_marshal := Inr \<circ> toy_marshal, ce_unmarshal := toy_unmarshal\<rparr>"

definition toy_objects :: objects where
  "toy_objects =
     \<lparr>ob_secrets = [(''ns'', ''s1'') \<mapsto> (plain_secret ''ns'' ''s1'' ''one'')\<lparr>se_Labels := [ClusterLabel \<mapsto> ''pg'']\<rparr>],
      ob_pgdoormen = [(''ns'', ''doorman'') \<mapsto> example_pd [] False []],
      ob_clusters = [(''ns'', ''pg'') \<mapsto> example_cluster ''doorman''], ob_services = Map.empty\<rparr>"

lemma find_condition_Cons:
  "find_condition (c # cs) t = (if co_Type c = t then Some 0 else map_option Suc (find_condition cs t))"
proof -
  have "find (\<lambda>e. co_Type (snd e) = t) (enumerate (Suc n) cs) =
      map_option (map_prod Suc id) (find (\<lambda>e. co_Type (snd e) = t) (enumerate n cs))" for n
    by (induction cs arbitrary: n) auto
  then show ?thesis
    by (simp add: find_condition_def option.map_comp comp_def)
qed

lemma find_condition_set:
  "find_condition cs (co_Type c) = Some i \<Longrightarrow> i < length cs \<and> find_condition (cs[i := c]) (co_Type c) = Some i"
  "find_condition cs (co_Type c) = None \<Longrightarrow> find_condition (cs @ [c]) (co_Type c) = Some (length cs)"
  by (induction cs arbitrary: i) (auto simp: find_condition_Cons split: if_splits, simp_all add: find_condition_def)

lemma set_condition_idem:
  "\<not> snd (set_condition (fst (set_condition cs c)) c)"
  "\<not> snd (set_condition cs c) \<Longrightarrow> fst (set_condition cs c) = cs"
  using find_condition_set [of cs c] by (auto simp: set_condition_def split: option.splits)

lemma toy_config:
  "build_config (pd_Spec (example_pd [] False [])) 6432 9127 pw (Some render_tls) = Some
     \<lparr>dc_General = gen_general (default_general GeneralSpec_zero) 6432 (lookup_str pw AdminPasswordKey) (Some render_tls),
      dc_Pools = [(''app'',
        \<lparr>po_ServerHost = ''localhost'', po_ServerPort = 5432, po_PoolMode = DefaultPoolMode,
         po_Users = [\<lparr>uc_Username = ''alice'', uc_Password = lookup_str pw (PasswordKey ''app'' ''user'' ''alice''),
           uc_PoolSize = Some DefaultUserPoolSize\<rparr>],
         po_AuthQuery = None\<rparr>)],
      dc_Prometheus = Some \<lparr>pm_Enabled = True, pm_Host = ''0.0.0.0'', pm_Port = 9127\<rparr>\<rparr>"
  by (simp add: build_config_def example_pd_def static_spec_def static_pool_def static_user_def ApplyDefaults_def map_vals_def
      gen_pool_def gen_user_def default_pool_def default_user_def default_prometheus_def or_str_def or_ptr_def Let_def)

lemma toy_codec:
  assumes "build_config (pd_Spec (example_pd [] False [])) 6432 9127 pw (Some render_tls) = Some c"
  shows "toy_unmarshal (toy_marshal c) = Inr c"
proof -
  let ?a = "lookup_str pw AdminPasswordKey" and ?u = "lookup_str pw (PasswordKey ''app'' ''user'' ''alice'')"
  have "lookup_str [AdminPasswordKey \<mapsto> a, PasswordKey ''app'' ''user'' ''alice'' \<mapsto> u] AdminPasswordKey = a" for a u
    using PasswordKey_not_admin [of "''user''" "''app''" "''alice''"] by (simp add: lookup_str_def)
  moreover have "lookup_str [AdminPasswordKey \<mapsto> a, PasswordKey ''app'' ''user'' ''alice'' \<mapsto> u]
      (PasswordKey ''app'' ''user'' ''alice'') = u" for a u by (simp add: lookup_str_def)
  ultimately have c: "c = two_passwords ?a ?u" using assms by (simp add: two_passwords_def toy_config)
  have "toy_marshal c = replicate (length ?a) CHR ''a'' @ ''b'' @ ?a @ ?u"
    using assms by (auto simp: toy_marshal_def toy_config gen_general_def Let_def)
  then show ?thesis by (simp add: toy_unmarshal_def c takeWhile_append Let_def)
qed

lemma toy_env_ok:
  "libs_ok toy_env toy_marshal (pd_Spec (example_pd [] False [])) (NewFromCluster (ce_config toy_env) (example_cluster ''doorman''))"
proof -
  let ?cfg = "NewFromCluster (ce_config toy_env) (example_cluster ''doorman'')"
  have ports: "pc_PoolerPort ?cfg = 6432" "pc_MetricsPort ?cfg = 9127" by code_simp+
  show ?thesis
    unfolding libs_ok_def ports using toy_codec by (simp add: toy_env_def example_env_def set_condition_idem)
qed

lemma toy_startable:
  "startable toy_env toy_objects (example_pd [] False []) (example_cluster ''doorman'') (pd_Spec (example_pd [] False [])) []"
proof -
  let ?cfg = "NewFromCluster (ce_config toy_env) (example_cluster ''doorman'')" and ?spec = "pd_Spec (example_pd [] False [])"
  have cfg: "pc_Enabled ?cfg" "pc_ConfigName ?cfg = ''doorman''" "\<not> isl (Validate (ce_config toy_env) ?cfg)" by code_simp+
  have refs: "spec_refs ?spec = [\<lparr>sk_Name = ''s1'', sk_Key = ''password''\<rparr>]" by code_simp
  have "DefaultAuthSecretRefs ?spec = Inr (?spec, [])"
    by (simp add: DefaultAuthSecretRefs_def default_refs_unfold example_pd_def static_spec_def static_pool_def omits_ref_def
        fill_ref_def)
  moreover have "crd_valid ?spec" by code_simp
  ultimately show ?thesis
    using cfg refs
    by (simp add: startable_def wants_def toy_objects_def pd_key_def example_pd_def example_cluster_def named_def available_def
        labelled_def secret_value_def CollectSecretNames_props plain_secret_def RenderedSecretName_def GeneratedAuthSecretName_def
        static_spec_def Let_def)
qed

abbreviation toy_server :: client where
  "toy_server \<equiv> api_server toy_objects (\<lambda>_. CHR ''x'')"

lemmas toy_run = api.honest_server_axioms [of toy_objects "\<lambda>_. CHR ''x''"] toy_env_ok

theorem reconcile_renders_witness:
  "\<exists>l' s pd'. Reconcile toy_env toy_server (''ns'', ''doorman'') [] = (Inr NoRequeue, l') \<and>
     ob_secrets (after toy_objects l') (''ns'', RenderedSecretName ''pg'') = Some s \<and>
     (\<exists>c. lookup_str (se_Data s) ConfigKey = toy_marshal c \<and>
        ValidateConfigBytes toy_unmarshal (\<lambda>_. 0) (toy_marshal c) = Inr c) \<and>
     ob_pgdoormen (after toy_objects l') (''ns'', ''doorman'') = Some pd' \<and> Finalizer \<in> set (pd_Finalizers pd')"
proof -
  have "pd_key (example_pd [] False []) = (''ns'', ''doorman'')" "cl_Namespace (example_cluster ''doorman'') = ''ns''"
    "cl_Name (example_cluster ''doorman'') = ''pg''" "ce_unmarshal toy_env = toy_unmarshal" "ce_rank toy_env = (\<lambda>_. 0)"
    by (simp_all add: pd_key_def example_pd_def example_cluster_def toy_env_def example_env_def)
  note names = this
  have "startable toy_env (after toy_objects []) (example_pd [] False []) (example_cluster ''doorman'')
      (pd_Spec (example_pd [] False [])) []" using toy_startable by simp
  from reconcile_renders [OF toy_run this] show ?thesis unfolding names Let_def by (elim exE conjE) (intro exI conjI, assumption+)
qed

theorem reconcile_converges_witness:
  "\<exists>l1 l2. Reconcile toy_env toy_server (''ns'', ''doorman'') [] = (Inr NoRequeue, l1) \<and>
     Reconcile toy_env toy_server (''ns'', ''doorman'') l1 = (Inr NoRequeue, l2) \<and> adds is_read l1 l2"
proof -
  have "pd_key (example_pd [] False []) = (''ns'', ''doorman'')" by (simp add: pd_key_def example_pd_def)
  with reconcile_converges [OF toy_run, of "[]" "example_pd [] False []" "[]"] toy_startable show ?thesis by simp
qed

end
