(* ===== verification/Config_Delivery.thy ===== *)
theory Config_Delivery
  imports Wrapper_Main Render_Progress
begin

text \<open>
  From the rendered Secret to the running pooler: what one poll of the configuration watcher does when the system calls
  succeed, and the composition with the controller's progress (\<open>Render_Progress\<close>).

  \<open>File_Watcher\<close> and \<open>Process\<close> show what is never installed. Here is what is installed, and when: the calculus
  \<open>does\<close> follows a run of file operations on a disk without faults, the locale \<open>responsive\<close> extends \<open>reloader\<close> by a
  process that takes signals, and the watcher's progress is proved in it.
\<close>

section \<open>Runs without faults\<close>

definition does :: "('z sys_scheme, 'e, 'a) st \<Rightarrow> 'z sys_scheme \<Rightarrow> 'a \<Rightarrow> fs \<Rightarrow> bool" where
  "does m s a f \<longleftrightarrow> (\<exists>s'. m s = (Inr a, s') \<and> sy_fs s' = f \<and> sys.more s' = sys.more s)"

lemma does_bind:
  assumes "does m s a f" "\<And>s'. sy_fs s' = f \<Longrightarrow> sys.more s' = sys.more s \<Longrightarrow> does (k a) s' b g"
  shows "does (bindS m k) s b g"
proof -
  obtain s1 where s1: "m s = (Inr a, s1)" "sy_fs s1 = f" "sys.more s1 = sys.more s" using assms(1) by (auto simp: does_def)
  from assms(2) [OF s1(2,3)] s1 show ?thesis by (auto simp: does_def bindS_def)
qed

lemma does_retS: "does (retS a) s a (sy_fs s)"
  by (simp add: does_def)

lemma does_mapErrS [simp]: "does (mapErrS g m) s a f = does m s a f"
  by (simp add: does_def mapErrS_iff del: mapErrS_apply)

lemma does_map: "does m s a f \<Longrightarrow> does (mapErrS g m) s a f"
  by simp

lemma does_tryS: "does m s a f \<Longrightarrow> does (tryS m) s (Inr a) f"
  by (auto simp: does_def)

lemma does_on_error: "does m s a f \<Longrightarrow> does (on_error m c) s a f"
  by (auto simp: does_def on_error_Inr)

definition created :: "nat \<Rightarrow> disk_file option \<Rightarrow> string \<Rightarrow> disk_file" where
  "created mode old data = \<lparr>fi_data = data, fi_mode = (case old of None \<Rightarrow> mode | Some f \<Rightarrow> fi_mode f)\<rparr>"

lemma created_data [simp]: "fi_data (created mode old data) = data"
  by (simp add: created_def)

lemma does_io:
  assumes "\<And>n. dk_error D n = None"
  shows "sy_fs s p = Some f \<Longrightarrow> does (ReadFile D p) s (fi_data f) (sy_fs s)"
    and "does (OpenTrunc D p mode) s () ((sy_fs s)(p \<mapsto> created mode (sy_fs s p) []))"
    and "sy_fs s p = Some f \<Longrightarrow> does (Write D p bs) s () ((sy_fs s)(p \<mapsto> f\<lparr>fi_data := fi_data f @ bs\<rparr>))"
    and "does (Sync D) s () (sy_fs s)" and "does (Close D) s () (sy_fs s)"
    and "sy_fs s p = Some f \<Longrightarrow> does (Rename D p q) s () ((sy_fs s)(p := None, q \<mapsto> f))"
  using assms
  by (simp_all add: does_def ReadFile_def syscall_def no_faults_io [OF assms] append_data_def set_fs_def created_def)

lemma does_AtomicWrite:
  assumes "\<And>n. dk_error D n = None"
  shows "does (AtomicWrite D path data) s ()
    ((sy_fs s)(tmp_path path := None, path \<mapsto> created 384 (sy_fs s (tmp_path path)) data))"
proof -
  note io = does_io [OF assms]
  let ?t = "tmp_path path" and ?old = "sy_fs s (tmp_path path)"
  have "does (Rename D ?t path) s1 () ((sy_fs s)(?t := None, path \<mapsto> created 384 ?old data))"
    if "sy_fs s1 = (sy_fs s)(?t \<mapsto> created 384 ?old data)" for s1 :: "'a sys_scheme"
    using io(6) [of s1 ?t "created 384 ?old data" path] that by simp
  then show ?thesis
    unfolding AtomicWrite_def Let_def
    by (intro does_bind [OF io(2)] does_bind [OF does_on_error [OF io(3)]] does_bind [OF does_on_error [OF io(4)]]
        does_bind [OF does_on_error [OF io(5)]]) (auto simp: created_def)
qed

lemma does_WriteFile:
  assumes "\<And>n. dk_error D n = None"
  shows "does (WriteFile D p bs mode) s () ((sy_fs s)(p \<mapsto> created mode (sy_fs s p) bs))"
proof -
  note io = does_io [OF assms]
  show ?thesis
    unfolding WriteFile_def
    by (intro does_bind [OF io(2)] does_bind [OF does_tryS [OF io(3)]] does_bind [OF does_tryS [OF io(5)]])
      (auto simp: created_def does_def)
qed

lemma does_EnsurePKCS8Key:
  assumes "\<And>n. dk_error D n = None" "sy_fs s src = Some k" "convert_key K src (fi_data k) = Inr out"
  shows "does (EnsurePKCS8Key D K src dst) s ()
    ((sy_fs s)(tmp_path dst := None, dst \<mapsto> created 384 (sy_fs s (tmp_path dst)) out))"
proof -
  note io = does_io [OF assms(1)]
  let ?t = "tmp_path dst" and ?old = "sy_fs s (tmp_path dst)"
  have "does (Rename D ?t dst) s1 () ((sy_fs s)(?t := None, dst \<mapsto> created 384 ?old out))"
    if "sy_fs s1 = (sy_fs s)(?t \<mapsto> created 384 ?old out)" for s1 :: "'a sys_scheme"
    using io(6) [of s1 ?t "created 384 ?old out" dst] that by simp
  then show ?thesis
    unfolding EnsurePKCS8Key_def
    by (intro does_bind [OF does_map [OF io(1) [OF assms(2)]]])
      (auto simp: assms(3) Let_def intro!: does_bind [OF does_map [OF does_WriteFile [OF assms(1)]]])
qed

section \<open>Installing a configuration\<close>

text \<open>Installing can succeed: the disk has no faults, the key (if one is to be converted) can be, and the binary accepts the
  configuration and is not overwritten on the way.\<close>

definition installable :: "'k watch_env \<Rightarrow> file_watcher \<Rightarrow> fs \<Rightarrow> string \<Rightarrow> bool" where
  "installable V w f data \<longleftrightarrow>
     (\<forall>n. dk_error (wv_disk V) n = None) \<and>
     (fw_rawKeyPath w \<noteq> [] \<longrightarrow> (\<exists>k out. f (fw_rawKeyPath w) = Some k \<and>
        convert_key (wv_codec V) (fw_rawKeyPath w) (fi_data k) = Inr out)) \<and>
     (case fw_tester w of None \<Rightarrow> True
      | Some binary \<Rightarrow> binary \<notin> set (fw_writes w) \<and> (\<forall>n mode. wv_exec V n (f binary) (Some \<lparr>fi_data = data, fi_mode = mode\<rparr>) = None))"

definition installed :: "'k watch_env \<Rightarrow> file_watcher \<Rightarrow> string \<Rightarrow> fs \<Rightarrow> fs \<Rightarrow> bool" where
  "installed V w data f g \<longleftrightarrow>
     (\<exists>c. g (fw_runtimePath w) = Some c \<and> fi_data c = data) \<and> g (candidate_path w) = None \<and>
     (fw_rawKeyPath w \<noteq> [] \<longrightarrow> (\<exists>k out c. f (fw_rawKeyPath w) = Some k \<and>
        convert_key (wv_codec V) (fw_rawKeyPath w) (fi_data k) = Inr out \<and> g (fw_keyPath w) = Some c \<and> fi_data c = out)) \<and>
     (\<forall>p. p \<notin> set (fw_writes w) \<longrightarrow> g p = f p)"

lemma stale_paths [simp]:
  "candidate_path (set_stale b w) = candidate_path w" "fw_keyPath (set_stale b w) = fw_keyPath w"
  "installable V (set_stale b w) f data = installable V w f data" "installed V (set_stale b w) data f g = installed V w data f g"
proof -
  have same: "fw_writes (set_stale b w) = fw_writes w" "candidate_path (set_stale b w) = candidate_path w"
    "fw_keyPath (set_stale b w) = fw_keyPath w" "fw_rawKeyPath (set_stale b w) = fw_rawKeyPath w" "fw_tester (set_stale b w) = fw_tester w"
    by (simp_all add: set_stale_def fw_writes_def candidate_path_def)
  then show "candidate_path (set_stale b w) = candidate_path w" "fw_keyPath (set_stale b w) = fw_keyPath w" by simp_all
  show "installable V (set_stale b w) f data = installable V w f data" "installed V (set_stale b w) data f g = installed V w data f g"
    by (simp_all add: installable_def installed_def same split: option.split)
qed

lemma key_installs:
  assumes "installable V w (sy_fs s) data"
  shows "\<exists>f. does (if fw_rawKeyPath w \<noteq> []
      then mapErrS ApplyKey (EnsurePKCS8Key (wv_disk V) (wv_codec V) (fw_rawKeyPath w) (fw_keyPath w)) else retS ()) s () f \<and>
      (fw_rawKeyPath w \<noteq> [] \<longrightarrow> (\<exists>k out c. sy_fs s (fw_rawKeyPath w) = Some k \<and>
        convert_key (wv_codec V) (fw_rawKeyPath w) (fi_data k) = Inr out \<and> f (fw_keyPath w) = Some c \<and> fi_data c = out)) \<and>
      (\<forall>p. p \<notin> {fw_keyPath w, tmp_path (fw_keyPath w)} \<longrightarrow> f p = sy_fs s p)"
proof (cases "fw_rawKeyPath w = []")
  case True
  then show ?thesis using does_retS by (intro exI [of _ "sy_fs s"]) simp
next
  case False
  have steady: "\<And>n. dk_error (wv_disk V) n = None" using assms by (simp add: installable_def)
  from False obtain k out where k: "sy_fs s (fw_rawKeyPath w) = Some k"
    "convert_key (wv_codec V) (fw_rawKeyPath w) (fi_data k) = Inr out"
    using assms by (auto simp: installable_def)
  let ?f = "(sy_fs s)(tmp_path (fw_keyPath w) := None,
    fw_keyPath w \<mapsto> created 384 (sy_fs s (tmp_path (fw_keyPath w))) out)"
  have "\<exists>c. ?f (fw_keyPath w) = Some c \<and> fi_data c = out" by simp
  with does_EnsurePKCS8Key [OF steady k] False k show ?thesis by (intro exI [of _ ?f]) simp
qed

lemma test_passes:
  assumes "\<And>n b. fw_tester w = Some b \<Longrightarrow> wv_exec V n (h b) (h (candidate_path w)) = None" "sy_fs s = h"
  shows "does (case fw_tester w of None \<Rightarrow> retS ()
      | Some binary \<Rightarrow> bindS (tryS (NewBinaryConfigTester V binary (candidate_path w))) (\<lambda>r.
          case r of
            Inl e \<Rightarrow> bindS (tryS (Remove (wv_disk V) (candidate_path w))) (\<lambda>_. throwS (ApplyTest e))
          | Inr _ \<Rightarrow> retS ())) s () h"
  using assms does_retS [of "()" s] by (cases "fw_tester w") (simp_all add: does_def bindS_def NewBinaryConfigTester_def)

lemma materialize_installs:
  assumes "fw_setup w" "fw_keyPath w \<notin> {candidate_path w, tmp_path (candidate_path w)}" "installable V w (sy_fs s) data"
  shows "\<exists>g. does (materialize V w data) s () g \<and> installed V w data (sy_fs s) g"
proof -
  let ?r = "fw_runtimePath w" and ?c = "candidate_path w" and ?k = "fw_keyPath w"
  have steady: "\<And>n. dk_error (wv_disk V) n = None" using assms(3) by (simp add: installable_def)
  note io = does_io [OF steady]
  obtain f where f: "does (if fw_rawKeyPath w \<noteq> []
      then mapErrS ApplyKey (EnsurePKCS8Key (wv_disk V) (wv_codec V) (fw_rawKeyPath w) ?k) else retS ()) s () f"
    and key: "fw_rawKeyPath w \<noteq> [] \<Longrightarrow> \<exists>k out c. sy_fs s (fw_rawKeyPath w) = Some k \<and>
        convert_key (wv_codec V) (fw_rawKeyPath w) (fi_data k) = Inr out \<and> f ?k = Some c \<and> fi_data c = out"
    and same: "\<And>p. p \<notin> {?k, tmp_path ?k} \<Longrightarrow> f p = sy_fs s p" using key_installs [OF assms(3)] by blast
  define new where "new = created 384 (f (tmp_path ?c)) data"
  define h where "h = f(tmp_path ?c := None, ?c \<mapsto> new)"
  define g where "g = h(?c := None, ?r \<mapsto> new)"
  have aw: "does (mapErrS ApplyIO (AtomicWrite (wv_disk V) ?c data)) s1 () h" if "sy_fs s1 = f" for s1 :: "'b sys_scheme"
    using does_AtomicWrite [OF steady, of ?c data s1] that by (simp add: h_def new_def)
  have accepted: "wv_exec V n (h b) (h ?c) = None" if "fw_tester w = Some b" for n b
  proof -
    have "b \<notin> set (fw_writes w)" and ok: "\<And>n mode. wv_exec V n (sy_fs s b) (Some \<lparr>fi_data = data, fi_mode = mode\<rparr>) = None"
      using assms(3) that by (auto simp: installable_def)
    then have "h b = sy_fs s b" using same [of b] by (auto simp: h_def fw_writes_def)
    with ok show ?thesis by (simp add: h_def new_def created_def)
  qed
  have ren: "does (mapErrS ApplyIO (Rename (wv_disk V) ?c ?r)) s3 () g" if "sy_fs s3 = h" for s3 :: "'b sys_scheme"
    using io(6) [of s3 ?c new ?r] that by (simp add: g_def h_def)
  have "does (materialize V w data) s () g"
    unfolding materialize_def by (rule does_bind [OF f], rule does_bind [OF aw], assumption, rule does_bind [OF test_passes [of w V h]],
        erule accepted, assumption, rule ren)
  moreover have "installed V w data (sy_fs s) g"
  proof -
    have "g ?k = f ?k" using assms(1,2) by (auto simp: g_def h_def fw_setup_def separate_paths_def)
    moreover have "g p = sy_fs s p" if "p \<notin> set (fw_writes w)" for p
      using that same [of p] by (auto simp: g_def h_def fw_writes_def)
    ultimately show ?thesis using key by (auto simp: installed_def g_def new_def)
  qed
  ultimately show ?thesis by blast
qed

section \<open>A poll applies a new configuration\<close>

text \<open>A process that takes signals; file operations do not change that.\<close>

locale responsive = reloader reload restart
  for reload restart :: "('z sys_scheme, 'e, unit) st" +
  fixes alive :: "'z sys_scheme \<Rightarrow> bool"
  assumes alive_files: "sys.more s = sys.more s' \<Longrightarrow> alive s \<Longrightarrow> alive s'"
    and reload_ok: "alive s \<Longrightarrow> \<exists>s'. reload s = (Inr (), s')"
    and restart_ok: "alive s \<Longrightarrow> \<exists>s'. restart s = (Inr (), s')"
begin

lemma check_installs:
  assumes "fw_setup w" "fw_keyPath w \<notin> {candidate_path w, tmp_path (candidate_path w)}" "installable V w (sy_fs s) data"
    and "alive s" "sy_fs s (fw_sourcePath w) = Some src" "fi_data src = data" "data \<noteq> fw_lastApplied w"
    and "ValidateConfigBytes (wv_unmarshal V) (wv_rank V) data = Inr cfg"
  shows "\<exists>s1 s'. (if needs_restart V (fw_lastApplied w) cfg then restart else reload) s1 = (Inr (), s') \<and>
    sys.more s1 = sys.more s \<and>
    check V reload restart w s = (count_success (set_stale False (w\<lparr>fw_lastApplied := data\<rparr>)), s') \<and>
    installed V w data (sy_fs s) (sy_fs s')"
proof -
  let ?w = "set_stale True w" and ?go = "if needs_restart V (fw_lastApplied w) cfg then restart else reload"
  have "\<And>n. dk_error (wv_disk V) n = None" using assms(3) by (simp add: installable_def)
  from does_io(1) [OF this assms(5)] obtain s1 where
    s1: "ReadFile (wv_disk V) (fw_sourcePath w) s = (Inr data, s1)" "sy_fs s1 = sy_fs s" "sys.more s1 = sys.more s"
    by (auto simp: does_def assms(6))
  have "fw_setup ?w" "fw_keyPath ?w \<notin> {candidate_path ?w, tmp_path (candidate_path ?w)}" "installable V ?w (sy_fs s1) data"
    using assms(1-3) s1(2) by simp_all
  from materialize_installs [OF this] obtain s2 where
    s2: "materialize V ?w data s1 = (Inr (), s2)" "sys.more s2 = sys.more s" "installed V w data (sy_fs s) (sy_fs s2)"
    by (auto simp: does_def s1)
  have "alive s2" using alive_files [OF _ assms(4), of s2] s2(2) by simp
  from reload_ok [OF this] restart_ok [OF this] obtain s3 where s3: "?go s2 = (Inr (), s3)" by (cases "needs_restart V (fw_lastApplied w) cfg") auto
  have "check V reload restart w s = (count_success (set_stale False (w\<lparr>fw_lastApplied := data\<rparr>)), s3)"
    using s1(1) s2(1) s3 assms(7,8) by (simp add: check_def Let_def set_stale_def)
  with s2 s3 signal_files [OF s3] show ?thesis by auto
qed

end

definition takes_signals :: "proc_env \<Rightarrow> process \<Rightarrow> bool" where
  "takes_signals P s \<longleftrightarrow> pidLocked s \<noteq> 0 \<and> (\<forall>sig. px_kill P (p_log s) (pidLocked s) sig = KillOk)"

lemma more_fields:
  fixes s s' :: process
  assumes "sys.more s = sys.more s'"
  shows "pidLocked s = pidLocked s'" "p_log s = p_log s'"
  using assms by (cases s; cases s'; simp add: pidLocked_def)+

interpretation live_process: responsive "Reload P" "Restart P" "takes_signals P" for P
proof unfold_locales
  show "takes_signals P s \<Longrightarrow> takes_signals P s'" if "sys.more s = sys.more s'" for s s'
    using more_fields [OF that] by (simp add: takes_signals_def)
  show "\<exists>s'. Reload P s = (Inr (), s')" "\<exists>s'. Restart P s = (Inr (), s')" if "takes_signals P s" for s
    using that by (simp_all add: takes_signals_def Reload_def Restart_def signalLocked_def sys_kill_def Let_def)
qed

text \<open>One poll delivers a configuration. If the mounted configuration differs from the applied one, is valid and is
  accepted by the binary, the disk has no faults and the pooler takes signals, then one poll of the watcher puts exactly the
  mounted bytes at the runtime path, converts the key, sends one signal (SIGTERM if a field changed that cannot be
  reloaded, SIGHUP otherwise), records the bytes as applied, clears the staleness gauge and counts a success.\<close>

theorem check_applies:
  assumes "fw_setup w" "fw_keyPath w \<notin> {candidate_path w, tmp_path (candidate_path w)}" "installable V w (sy_fs s) data"
    and "takes_signals P s" "sy_fs s (fw_sourcePath w) = Some src" "fi_data src = data" "data \<noteq> fw_lastApplied w"
    and "ValidateConfigBytes (wv_unmarshal V) (wv_rank V) data = Inr cfg"
  shows "\<exists>w' s'. check V (Reload P) (Restart P) w s = (w', s') \<and> installed V w data (sy_fs s) (sy_fs s') \<and>
    p_log s' = p_log s @ [Kill (pidLocked s) (if needs_restart V (fw_lastApplied w) cfg then SIGTERM else SIGHUP) KillOk] \<and>
    fw_lastApplied w' = data \<and> \<not> rm_ConfigStale (fw_metrics w') \<and>
    rm_Success (fw_metrics w') = rm_Success (fw_metrics w) + 1 \<and> rm_Failure (fw_metrics w') = rm_Failure (fw_metrics w)"
proof -
  obtain s1 s' where go: "(if needs_restart V (fw_lastApplied w) cfg then Restart P else Reload P) s1 = (Inr (), s')"
    and more: "sys.more s1 = sys.more s" and inst: "installed V w data (sy_fs s) (sy_fs s')"
    and run: "check V (Reload P) (Restart P) w s = (count_success (set_stale False (w\<lparr>fw_lastApplied := data\<rparr>)), s')"
    using live_process.check_installs [OF assms] by blast
  have "p_log s' = p_log s @ [Kill (pidLocked s) (if needs_restart V (fw_lastApplied w) cfg then SIGTERM else SIGHUP) KillOk]"
    using go more_fields [OF more] assms(4)
    by (auto simp: Reload_def Restart_def signalLocked_def sys_kill_def takes_signals_def Let_def split: if_splits)
  with run inst show ?thesis by (simp add: count_success_def set_stale_def)
qed

section \<open>From the Secret to the pooler\<close>

lemma main_watcher_paths:
  "fw_setup (main_watcher vars metrics)" "fw_sourcePath (main_watcher vars metrics) = source_path vars"
  "fw_runtimePath (main_watcher vars metrics) = RuntimeConfigPath"
  "fw_keyPath (main_watcher vars metrics) \<notin>
     {candidate_path (main_watcher vars metrics), tmp_path (candidate_path (main_watcher vars metrics))}"
  using main_paths(1) [of vars metrics]
  by (simp_all add: main_watcher_def NewFileWatcher_def candidate_path_def tmp_path_def CandidateSuffix_def RuntimeConfigPath_def
      ConvertedTLSKeyPath_def)

text \<open>The wrapper a sidecar container runs, with \<open>old\<close> as the configuration it applied last.\<close>

abbreviation sidecar_watcher :: "'q PluginConfiguration \<Rightarrow> reload_metrics \<Rightarrow> string \<Rightarrow> file_watcher" where
  "sidecar_watcher cfg metrics old \<equiv> (main_watcher (ct_Env (sidecar_container cfg)) metrics)\<lparr>fw_lastApplied := old\<rparr>"

text \<open>(C4) End to end. A reconcile of a \<open>PgDoorman\<close> as in \<open>reconcile_renders\<close> leaves a Secret; once that Secret is mounted in the pod
  and its configuration is another than the applied one, the binary accepts it, the disk has no faults and the pooler takes
  signals, one poll of the wrapper in the injected sidecar puts the configuration built from the stored Secrets at the
  path the pooler reads, in a form the validator decodes to that configuration, and remembers it as applied.\<close>

theorem rendered_config_runs:
  assumes "honest_server C S0" "libs_ok R enc spec (NewFromCluster (ce_config R) cluster)"
    and "startable R (after S0 l) pd cluster spec user"
    and "Reconcile R C (pd_key pd) l = (r, l')" "ob_secrets (after S0 l') (rendered_key cluster) = Some sec"
    and "sy_fs s (source_path (ct_Env (sidecar_container cfg))) = Some src"
      "mount_files configMountPath (se_Data sec) (source_path (ct_Env (sidecar_container cfg))) = Some (fi_data src)"
    and "installable V (sidecar_watcher cfg metrics old) (sy_fs s) (fi_data src)" "fi_data src \<noteq> old" "takes_signals P s"
    and "wv_unmarshal V = ce_unmarshal R"
  shows "\<exists>admin w' s' f. let c = config_for (after S0 l') (pd_Namespace pd) spec (NewFromCluster (ce_config R) cluster) admin in
    check V (Reload P) (Restart P) (sidecar_watcher cfg metrics old) s = (w', s') \<and>
    sy_fs s' RuntimeConfigPath = Some f \<and> fi_data f = enc c \<and>
    ValidateConfigBytes (wv_unmarshal V) (wv_rank V) (fi_data f) = Inr c \<and> fw_lastApplied w' = enc c"
proof -
  let ?w = "sidecar_watcher cfg metrics old" and ?S = "after S0 l'"
  obtain pd' where set: "settled R enc ?S pd' cluster spec user" and key: "pd_key pd' = pd_key pd"
    using honest_server.reconcile_settles [OF assms(1-3)] assms(4) unfolding yields_def by auto
  then have ns: "pd_Namespace pd' = pd_Namespace pd" by (simp add: pd_key_def)
  obtain admin where sec: "lookup_str (se_Data sec) ConfigKey = enc (config_for ?S (pd_Namespace pd) spec (NewFromCluster (ce_config R) cluster) admin)"
    using set assms(5) ns unfolding settled_def by auto
  define c where "c = config_for ?S (pd_Namespace pd) spec (NewFromCluster (ce_config R) cluster) admin"
  have src: "fi_data src = enc c" using assms(7) sec by (simp add: mounted_config lookup_str_def c_def)
  have w: "fw_setup ?w" "fw_keyPath ?w \<notin> {candidate_path ?w, tmp_path (candidate_path ?w)}" "sy_fs s (fw_sourcePath ?w) = Some src"
    "fi_data src \<noteq> fw_lastApplied ?w" "fw_runtimePath ?w = RuntimeConfigPath"
    using main_watcher_paths [of "ct_Env (sidecar_container cfg)" metrics] assms(6,9) by (simp_all add: candidate_path_def)
  have crd: "crd_valid spec" using set crd_valid_normalized unfolding settled_def ready_def wants_def Let_def by blast
  have av: "available ?S (pd_Namespace pd') (cl_Name cluster) ref" if "ref \<in> set (spec_refs spec)" for ref
    using set that unfolding settled_def ready_def by blast
  from config_validates [OF assms(2) crd av, of admin] assms(11) src ns
  have valid: "ValidateConfigBytes (wv_unmarshal V) (wv_rank V) (fi_data src) = Inr c" by (simp add: ValidateConfigBytes_ok c_def)
  let ?w' = "count_success (set_stale False (?w\<lparr>fw_lastApplied := fi_data src\<rparr>))"
  from live_process.check_installs [OF w(1,2) assms(8,10) w(3) refl w(4) valid] obtain s' f where
    "check V (Reload P) (Restart P) ?w s = (?w', s')" "sy_fs s' RuntimeConfigPath = Some f" "fi_data f = fi_data src"
    unfolding installed_def w(5) by blast
  with src valid show ?thesis
    unfolding Let_def by (intro exI [of _ admin] exI [of _ ?w'] exI [of _ s'] exI [of _ f]) (simp add: c_def)
qed

section \<open>A configuration that is taken back\<close>

definition refuses_signals :: "proc_env \<Rightarrow> process \<Rightarrow> bool" where
  "refuses_signals P s \<longleftrightarrow> pidLocked s = 0 \<or> (\<forall>sig. px_kill P (p_log s) (pidLocked s) sig \<noteq> KillOk)"

lemma refused:
  assumes "refuses_signals P s"
  shows "\<exists>e s'. (if b then Restart P else Reload P) s = (Inl e, s')"
  using assms
  by (auto simp: refuses_signals_def Restart_def Reload_def signalLocked_def sys_kill_def Let_def split: kill_result.split)

text \<open>(C36) A configuration that was taken back can stay. If the pooler takes no signal when a new configuration is mounted (it
  is down, in back-off), the poll has already put it at the runtime path and keeps the old one as the applied one. When the
  old one is mounted again, every poll finds it equal to the applied one and returns: the runtime path keeps the
  configuration that is no longer mounted, and the next start of the pooler reads it.\<close>

theorem reverted_config_kept:
  assumes "fw_setup w" "fw_keyPath w \<notin> {candidate_path w, tmp_path (candidate_path w)}" "installable V w (sy_fs s) (fi_data new)"
    and "refuses_signals P s" "sy_fs s (fw_sourcePath w) = Some new" "fi_data new \<noteq> fw_lastApplied w"
    and "ValidateConfigBytes (wv_unmarshal V) (wv_rank V) (fi_data new) = Inr cfg"
    and "check V (Reload P) (Restart P) w s = (w1, s1)"
    and "sy_fs s2 (fw_sourcePath w) = Some old" "fi_data old = fw_lastApplied w" "sy_fs s2 (fw_runtimePath w) = sy_fs s1 (fw_runtimePath w)"
    and "check V (Reload P) (Restart P) w1 s2 = (w2, s3)"
  shows "w2 = w1 \<and> fi_data old = fw_lastApplied w2 \<and> (\<exists>f. sy_fs s3 (fw_runtimePath w) = Some f \<and> fi_data f = fi_data new)"
proof -
  let ?w = "set_stale True w"
  have steady: "\<And>n. dk_error (wv_disk V) n = None" using assms(3) by (simp add: installable_def)
  from does_io(1) [OF this assms(5)] obtain sa where
    sa: "ReadFile (wv_disk V) (fw_sourcePath w) s = (Inr (fi_data new), sa)" "sy_fs sa = sy_fs s" "sys.more sa = sys.more s"
    by (auto simp: does_def)
  have "fw_setup ?w" "fw_keyPath ?w \<notin> {candidate_path ?w, tmp_path (candidate_path ?w)}" "installable V ?w (sy_fs sa) (fi_data new)"
    using assms(1-3) sa(2) by simp_all
  from materialize_installs [OF this] obtain sb where
    sb: "materialize V ?w (fi_data new) sa = (Inr (), sb)" "sys.more sb = sys.more s" "installed V w (fi_data new) (sy_fs s) (sy_fs sb)"
    by (auto simp: does_def sa)
  have "refuses_signals P sb" using assms(4) more_fields [OF sb(2)] by (simp add: refuses_signals_def)
  from refused [OF this, of "needs_restart V (fw_lastApplied w) cfg"] obtain e sc where
    sc: "(if needs_restart V (fw_lastApplied w) cfg then Restart P else Reload P) sb = (Inl e, sc)" by blast
  have w1: "w1 = count_failure ?w" "s1 = sc" using sa(1) sb(1) sc assms(6,7,8) by (simp_all add: check_def Let_def)
  have "w2 = w1" "sy_fs s3 = sy_fs s2"
    using assms(9,10,12) steady w1 by (simp_all add: check_def ReadFile_def syscall_def count_failure_def set_stale_def, auto)
  with assms(10,11) w1 process_signals.signal_files [OF sc] sb(3) show ?thesis by (simp add: installed_def)
qed

section \<open>Examples\<close>

definition plain_codec :: "string key_codec" where
  "plain_codec = \<lparr>kc_Decode = (\<lambda>d. Some (''PRIVATE KEY'', d)), kc_ParsePKCS8 = Inr, kc_ParseEC = Inr, kc_ParsePKCS1 = Inr,
     kc_MarshalPKCS8 = Inr, kc_Encode = (\<lambda>_ d. d)\<rparr>"

definition delivery_env :: "string watch_env" where
  "delivery_env = \<lparr>wv_disk = quiet_disk, wv_codec = plain_codec, wv_unmarshal = toy_unmarshal, wv_rank = (\<lambda>_. 0),
     wv_exec = (\<lambda>_ _ _. None)\<rparr>"

definition delivery_process :: "string \<Rightarrow> process" where
  "delivery_process config = demo_process\<lparr>p_adoptedPid := 7,
     sy_fs := [source_path (ct_Env (sidecar_container example_plugin_config)) \<mapsto> \<lparr>fi_data = config, fi_mode = 384\<rparr>,
               ''/etc/pg-doorman-tls/tls.key'' \<mapsto> \<lparr>fi_data = ''key'', fi_mode = 384\<rparr>]\<rparr>"

abbreviation taking :: proc_env where
  "taking \<equiv> demo_env ''30s''"

abbreviation delivery_watcher :: file_watcher where
  "delivery_watcher \<equiv> sidecar_watcher example_plugin_config (fw_metrics example_watcher) []"

lemma delivery_installable:
  assumes "f ''/etc/pg-doorman-tls/tls.key'' = Some k"
  shows "installable delivery_env delivery_watcher f config"
proof -
  have raw: "fw_rawKeyPath delivery_watcher = ''/etc/pg-doorman-tls/tls.key''"
    by (simp add: main_watcher_def NewFileWatcher_def sidecar_env)
  have writes: "RuntimeBinaryPath \<notin> set (fw_writes delivery_watcher)" "fw_tester delivery_watcher = Some RuntimeBinaryPath"
    using main_paths(3) [where vars = "ct_Env (sidecar_container example_plugin_config)" and metrics = "fw_metrics example_watcher"]
    by (auto simp: main_syncer_def NewBinarySyncer_def main_watcher_def NewFileWatcher_def PgDoormanBinary_def fw_writes_def candidate_path_def)
  show ?thesis
    unfolding installable_def raw writes(2)
    by (simp add: assms writes(1) delivery_env_def quiet_disk_def plain_codec_def convert_key_def parse_key_def)
qed

lemma delivery_ready:
  "sy_fs (delivery_process config) (source_path (ct_Env (sidecar_container example_plugin_config))) = Some \<lparr>fi_data = config, fi_mode = 384\<rparr>"
  "installable delivery_env delivery_watcher (sy_fs (delivery_process config)) config"
  "takes_signals taking (delivery_process config)"
proof -
  show "sy_fs (delivery_process config) (source_path (ct_Env (sidecar_container example_plugin_config))) = Some \<lparr>fi_data = config, fi_mode = 384\<rparr>"
    by (simp add: delivery_process_def source_path_def envOr_def sidecar_env)
  show "installable delivery_env delivery_watcher (sy_fs (delivery_process config)) config"
    by (rule delivery_installable) (simp add: delivery_process_def source_path_def envOr_def sidecar_env)
  show "takes_signals taking (delivery_process config)"
    by (simp add: takes_signals_def delivery_process_def pidLocked_def demo_env_def)
qed

theorem rendered_config_runs_witness:
  "\<exists>l' sec w' s' f c. Reconcile toy_env toy_server (''ns'', ''doorman'') [] = (Inr NoRequeue, l') \<and>
     ob_secrets (after toy_objects l') (''ns'', RenderedSecretName ''pg'') = Some sec \<and>
     check delivery_env (Reload taking) (Restart taking) delivery_watcher
       (delivery_process (lookup_str (se_Data sec) ConfigKey)) = (w', s') \<and>
     sy_fs s' RuntimeConfigPath = Some f \<and> fi_data f = toy_marshal c \<and>
     ValidateConfigBytes toy_unmarshal (\<lambda>_. 0) (fi_data f) = Inr c \<and> fw_lastApplied w' = toy_marshal c"
proof -
  let ?pd = "example_pd [] False []" and ?cluster = "example_cluster ''doorman''"
  have start: "startable toy_env (after toy_objects []) ?pd ?cluster (pd_Spec ?pd) []" using toy_startable by simp
  obtain l' pd' where run: "Reconcile toy_env toy_server (pd_key ?pd) [] = (Inr NoRequeue, l')"
    and set: "settled toy_env toy_marshal (after toy_objects l') pd' ?cluster (pd_Spec ?pd) []"
    using api.reconcile_settles [OF toy_env_ok start] unfolding yields_def by blast
  obtain sec c where sec: "ob_secrets (after toy_objects l') (rendered_key ?cluster) = Some sec" "lookup_str (se_Data sec) ConfigKey = toy_marshal c"
    using set unfolding settled_def by blast
  define config where "config = lookup_str (se_Data sec) ConfigKey"
  have "config \<noteq> []" using sec(2) by (simp add: config_def toy_marshal_def Let_def)
  then have mount: "mount_files configMountPath (se_Data sec) (source_path (ct_Env (sidecar_container example_plugin_config))) = Some config"
    unfolding mounted_config by (auto simp: config_def lookup_str_def split: option.splits)
  have unm: "wv_unmarshal delivery_env = ce_unmarshal toy_env" by (simp add: delivery_env_def toy_env_def)
  note d = delivery_ready [of config]
  from rendered_config_runs [OF toy_run start run sec(1) d(1) _ _ _ d(3) unm, where metrics = "fw_metrics example_watcher" and old = "[]"]
    mount d(2) \<open>config \<noteq> []\<close>
  obtain w' s' f c where res: "check delivery_env (Reload taking) (Restart taking) delivery_watcher (delivery_process config) = (w', s')"
    "sy_fs s' RuntimeConfigPath = Some f" "fi_data f = toy_marshal c"
    "ValidateConfigBytes (wv_unmarshal delivery_env) (wv_rank delivery_env) (fi_data f) = Inr c" "fw_lastApplied w' = toy_marshal c"
    by (auto simp: Let_def)
  have names: "pd_key ?pd = (''ns'', ''doorman'')" "rendered_key ?cluster = (''ns'', RenderedSecretName ''pg'')"
    "wv_unmarshal delivery_env = toy_unmarshal" "wv_rank delivery_env = (\<lambda>_. 0)"
    by (simp_all add: pd_key_def example_pd_def example_cluster_def delivery_env_def)
  show ?thesis using run sec(1) res unfolding names config_def by blast
qed

lemma delivery_valid:
  "ValidateConfigBytes (wv_unmarshal delivery_env) (wv_rank delivery_env) ''aabpwone'' = Inr (two_passwords ''pw'' ''one'')"
proof -
  let ?pw = "[AdminPasswordKey \<mapsto> ''pw'', PasswordKey ''app'' ''user'' ''alice'' \<mapsto> ''one'']" and ?spec = "pd_Spec (example_pd [] False [])"
  have "users_have_passwords ?pw ?spec"
    by (simp add: users_have_passwords_def example_pd_def static_spec_def static_pool_def static_user_def lookup_str_def)
  moreover have "build_config ?spec 6432 9127 ?pw (Some render_tls) = Some (two_passwords ''pw'' ''one'')"
    by (simp add: two_passwords_def toy_config)
  moreover have "crd_valid ?spec" using toy_startable by (simp add: startable_def wants_def Let_def)
  ultimately have "config_ok (two_passwords ''pw'' ''one'')" by (intro build_config_ok)
  moreover have "toy_unmarshal ''aabpwone'' = Inr (two_passwords ''pw'' ''one'')" by (simp add: toy_unmarshal_def Let_def)
  ultimately show ?thesis by (simp add: ValidateConfigBytes_ok delivery_env_def)
qed

lemmas delivery_paths = main_watcher_paths [of "ct_Env (sidecar_container example_plugin_config)" "fw_metrics example_watcher"]

theorem check_applies_witness:
  "\<exists>w' s' f. check delivery_env (Reload taking) (Restart taking) delivery_watcher (delivery_process ''aabpwone'') = (w', s') \<and>
     sy_fs s' RuntimeConfigPath = Some f \<and> fi_data f = ''aabpwone'' \<and> (\<exists>sig. p_log s' = [Kill 7 sig KillOk]) \<and>
     fw_lastApplied w' = ''aabpwone'' \<and> \<not> rm_ConfigStale (fw_metrics w')"
proof -
  let ?w = delivery_watcher and ?s = "delivery_process ''aabpwone''"
  note d = delivery_ready [of "''aabpwone''"]
  have w: "fw_setup ?w" "fw_keyPath ?w \<notin> {candidate_path ?w, tmp_path (candidate_path ?w)}" "fw_runtimePath ?w = RuntimeConfigPath"
    "fw_sourcePath ?w = source_path (ct_Env (sidecar_container example_plugin_config))"
    using delivery_paths by (simp_all add: candidate_path_def)
  have p: "pidLocked ?s = 7" "p_log ?s = []" by (simp_all add: delivery_process_def demo_process_def pidLocked_def)
  from check_applies [OF w(1,2) d(2,3) d(1) [folded w(4)] _ _ delivery_valid] p show ?thesis
    unfolding installed_def w(3) by (simp, blast)
qed

theorem reverted_config_kept_witness:
  "\<exists>w1 s1 s2 w2 s3 f. check delivery_env (Reload taking) (Restart taking) (delivery_watcher\<lparr>fw_lastApplied := ''old''\<rparr>)
       ((delivery_process ''aabpwone'')\<lparr>p_adoptedPid := 0\<rparr>) = (w1, s1) \<and>
     sy_fs s2 (source_path (ct_Env (sidecar_container example_plugin_config))) = Some \<lparr>fi_data = ''old'', fi_mode = 384\<rparr> \<and>
     check delivery_env (Reload taking) (Restart taking) w1 s2 = (w2, s3) \<and> fw_lastApplied w2 = ''old'' \<and>
     sy_fs s3 RuntimeConfigPath = Some f \<and> fi_data f = ''aabpwone''"
proof -
  let ?w = "delivery_watcher\<lparr>fw_lastApplied := ''old''\<rparr>" and ?s = "(delivery_process ''aabpwone'')\<lparr>p_adoptedPid := 0\<rparr>"
  let ?src = "fw_sourcePath ?w" and ?new = "\<lparr>fi_data = ''aabpwone'', fi_mode = 384\<rparr>" and ?old = "\<lparr>fi_data = ''old'', fi_mode = 384\<rparr>"
  have w: "fw_setup ?w" "fw_keyPath ?w \<notin> {candidate_path ?w, tmp_path (candidate_path ?w)}" "fw_runtimePath ?w = RuntimeConfigPath"
    "?src = source_path (ct_Env (sidecar_container example_plugin_config))"
    using delivery_paths by (simp_all add: candidate_path_def)
  have "installable V (w\<lparr>fw_lastApplied := x\<rparr>) f data = installable V w f data" for V :: "string watch_env" and w x f data
    by (simp add: installable_def fw_writes_def candidate_path_def split: option.split)
  with delivery_ready [of "''aabpwone''"] w(4)
  have d: "sy_fs ?s ?src = Some ?new" "installable delivery_env ?w (sy_fs ?s) (fi_data ?new)" by simp_all
  have ref: "refuses_signals taking ?s" by (simp add: refuses_signals_def delivery_process_def demo_process_def pidLocked_def)
  obtain w1 s1 where 1: "check delivery_env (Reload taking) (Restart taking) ?w ?s = (w1, s1)" by (rule prod.exhaust)
  let ?s2 = "s1\<lparr>sy_fs := (sy_fs s1)(?src \<mapsto> ?old)\<rparr>"
  obtain w2 s3 where 2: "check delivery_env (Reload taking) (Restart taking) w1 ?s2 = (w2, s3)" by (rule prod.exhaust)
  have src: "?src \<noteq> RuntimeConfigPath"
    unfolding w(4) by (simp add: source_path_def envOr_def sidecar_env RuntimeConfigPath_def)
  have "sy_fs ?s2 ?src = Some ?old" "fi_data ?old = fw_lastApplied ?w" "sy_fs ?s2 (fw_runtimePath ?w) = sy_fs s1 (fw_runtimePath ?w)"
    unfolding w(3) using src by simp_all
  from reverted_config_kept [OF w(1,2) d(2) ref d(1) _ _ 1 this 2] delivery_valid
  obtain f where "fw_lastApplied w2 = ''old''" "sy_fs s3 RuntimeConfigPath = Some f" "fi_data f = ''aabpwone''"
    by (auto simp: delivery_paths(3))
  with 1 2 show ?thesis
    by (intro exI [of _ w1] exI [of _ s1] exI [of _ ?s2] exI [of _ w2] exI [of _ s3] exI [of _ f]) (simp add: delivery_paths(2))
qed

end
