(* ===== verification/Watch_Loops.thy ===== *)
theory Watch_Loops
  imports Wrapper_System Config_Delivery
begin

text \<open>
  The watchers' loops: \<open>Run\<close> of \<open>filewatcher.go\<close>, \<open>rolewatcher.go\<close> and \<open>binarywatcher.go\<close>, and the health endpoint of
  \<open>cmd/wrapper/main.go\<close>.

  A loop is run on the list of the choices its \<open>select\<close> made so far: the context is done, or the ticker fired after the rest of the
  world had done something to the state (an arbitrary function). Go chooses at random when both are ready, and the
  list is arbitrary, so this covers every run.
\<close>

section \<open>The loops\<close>

datatype 's selected = CtxDone | Ticked "'s \<Rightarrow> 's"

fun poll_loop :: "('w \<Rightarrow> 's \<Rightarrow> 'w \<times> 's) \<Rightarrow> 's selected list \<Rightarrow> 'w \<Rightarrow> 's \<Rightarrow> 'w \<times> 's" where
  "poll_loop poll [] w s = (w, s)"
| "poll_loop poll (CtxDone # cs) w s = (w, s)"
| "poll_loop poll (Ticked world # cs) w s = (let (w1, s1) = poll w (world s) in poll_loop poll cs w1 s1)"

text \<open>\<open>time.NewTicker\<close> panics on an interval that is not positive; the product is computed in 64 bits.\<close>

definition ticks :: "int \<Rightarrow> bool" where
  "ticks pollIntervalSec \<longleftrightarrow> 0 < wrap64 (wrap64 pollIntervalSec * Second)"

definition FileWatcher_Run ::
  "'k watch_env \<Rightarrow> ('z sys_scheme, 'e, unit) st \<Rightarrow> ('z sys_scheme, 'e, unit) st \<Rightarrow> int \<Rightarrow> 'z sys_scheme selected list \<Rightarrow>
   file_watcher \<Rightarrow> 'z sys_scheme \<Rightarrow> (file_watcher \<times> 'z sys_scheme) option" where
  "FileWatcher_Run V reload restart pollIntervalSec cs w s =
     (if \<not> ticks pollIntervalSec then None else Some (poll_loop (check V reload restart) cs w s))"

definition RoleWatcher_Run ::
  "disk \<Rightarrow> ('z sys_scheme, 'e, unit) st \<Rightarrow> int \<Rightarrow> 'z sys_scheme selected list \<Rightarrow>
   role_watcher \<Rightarrow> 'z sys_scheme \<Rightarrow> (role_watcher \<times> 'z sys_scheme) option" where
  "RoleWatcher_Run D restart pollIntervalSec cs w s =
     (if \<not> ticks pollIntervalSec then None else Some (poll_loop (role_check D restart) cs w s))"

definition BinaryWatcher_Run ::
  "bin_env \<Rightarrow> 'k watch_env \<Rightarrow> ('z sys_scheme, 'e, unit) st \<Rightarrow> ('z sys_scheme \<Rightarrow> bool \<times> 'z sys_scheme) \<Rightarrow> int \<Rightarrow> 'z sys_scheme selected list \<Rightarrow>
   binary_watcher \<Rightarrow> 'z sys_scheme \<Rightarrow> (binary_watcher \<times> 'z sys_scheme) option" where
  "BinaryWatcher_Run E V upgrade inFlight pollIntervalSec cs w s =
     (if \<not> ticks pollIntervalSec then None else Some (poll_loop (bin_check E V upgrade inFlight) cs w s))"

text \<open>The intervals \<open>main\<close> passes.\<close>

definition main_intervals :: "int list" where "main_intervals = [2, 10, 5]"

lemma main_ticks: "list_all ticks main_intervals"
  by code_simp

section \<open>What a loop does\<close>

lemma poll_loop_append:
  "poll_loop poll (map Ticked ws @ cs) w s = (case poll_loop poll (map Ticked ws) w s of (w1, s1) \<Rightarrow> poll_loop poll cs w1 s1)"
  by (induction ws arbitrary: w s) (auto split: prod.split)

text \<open>A property that a poll keeps, and that the rest of the world keeps, is kept by the loop.\<close>

locale polled =
  fixes poll :: "'w \<Rightarrow> 's \<Rightarrow> 'w \<times> 's"
    and inv :: "'w \<Rightarrow> 's \<Rightarrow> bool"
  assumes poll_inv: "inv w s \<Longrightarrow> poll w s = (w', s') \<Longrightarrow> inv w' s'"
begin

lemma loop_inv:
  assumes "\<And>world w s. Ticked world \<in> set cs \<Longrightarrow> inv w s \<Longrightarrow> inv w (world s)" "inv w s" "poll_loop poll cs w s = (w', s')"
  shows "inv w' s'"
  using assms
proof (induction cs arbitrary: w s)
  case (Cons c cs)
  show ?case
  proof (cases c)
    case (Ticked world)
    obtain w1 s1 where run: "poll w (world s) = (w1, s1)" by (rule prod.exhaust)
    have "inv w1 s1" using Cons.prems(1) [of world w s] Cons.prems(2) Ticked run by (auto intro: poll_inv)
    with Cons.IH [of w1 s1] Cons.prems(1,3) Ticked run show ?thesis by auto
  qed (use Cons.prems in simp)
qed simp

end

interpretation config_loop: polled "check V (Reload P) (Restart P)" "\<lambda>w s. fw_inv V (w, s)" for V :: "'k watch_env" and P
  by unfold_locales (blast intro: process_signals.fw_step_inv fw_step.poll)

section \<open>A change of the configuration is applied once\<close>

text \<open>A moment at which the mounted configuration can be applied.\<close>

definition applicable :: "'k watch_env \<Rightarrow> proc_env \<Rightarrow> file_watcher \<Rightarrow> string \<Rightarrow> process \<Rightarrow> bool" where
  "applicable V P w data s \<longleftrightarrow> map_option fi_data (sy_fs s (fw_sourcePath w)) = Some data \<and>
     installable V w (sy_fs s) data \<and> takes_signals P s"

definition same_paths :: "file_watcher \<Rightarrow> file_watcher \<Rightarrow> bool" where
  "same_paths w w' \<longleftrightarrow> fw_sourcePath w' = fw_sourcePath w \<and> fw_runtimePath w' = fw_runtimePath w \<and> fw_rawKeyPath w' = fw_rawKeyPath w \<and>
     fw_keyPath w' = fw_keyPath w \<and> fw_tester w' = fw_tester w"

lemma applicable_paths: "same_paths w w' \<Longrightarrow> applicable V P w' data s = applicable V P w data s"
  by (simp add: same_paths_def applicable_def installable_def fw_writes_def candidate_path_def split: option.split)

lemma check_idle:
  assumes "applicable V P w data s" "fw_lastApplied w = data"
  shows "\<exists>s'. check V reload restart w s = (w, s') \<and> sy_fs s' = sy_fs s"
  using assms
  by (auto simp: applicable_def installable_def check_def ReadFile_def syscall_def Let_def)

lemma loop_idle:
  assumes "fw_lastApplied w = data" "\<And>world s. world \<in> set ws \<Longrightarrow> applicable V P w data (world s)"
    and "\<And>world s. world \<in> set ws \<Longrightarrow> sy_fs (world s) (fw_runtimePath w) = sy_fs s (fw_runtimePath w)"
    and "poll_loop (check V reload restart) (map Ticked ws) w s = (w', s')"
  shows "w' = w \<and> sy_fs s' (fw_runtimePath w) = sy_fs s (fw_runtimePath w)"
  using assms
proof (induction ws arbitrary: s)
  case (Cons world ws)
  obtain s1 where "check V reload restart w (world s) = (w, s1)" "sy_fs s1 = sy_fs (world s)"
    using check_idle [of V P w data "world s" reload restart] Cons.prems(1,2) by auto
  with Cons.IH [of s1] Cons.prems show ?case by auto
qed simp


section \<open>The role watcher's loop\<close>

lemma role_loop_polls:
  "poll_loop (role_check D (Restart P)) (map (\<lambda>c. Ticked (put_role (rw_roleFile w) c)) contents) w s = role_polls D P contents (w, s)"
proof (induction contents arbitrary: w s)
  case (Cons c cs)
  obtain w1 s1 where run: "role_check D (Restart P) w (put_role (rw_roleFile w) c s) = (w1, s1)" by (rule prod.exhaust)
  then have "rw_roleFile w1 = rw_roleFile w"
    by (auto simp: role_check_def Let_def split: prod.splits sum.splits if_splits)
  with run Cons.IH [of w1 s1] show ?case by simp
qed simp


section \<open>The health endpoint\<close>

text \<open>The handlers \<open>serveHealth\<close> registers; \<open>metrics\<close> is the answer of the Prometheus handler, and the mux answers 404 elsewhere.\<close>

definition serveHealth :: "nat \<times> string \<Rightarrow> string \<Rightarrow> nat \<times> string" where
  "serveHealth metrics path =
     (if path = ''/healthz'' then (200, ''ok'' @ [CHR 0x0A])
      else if path = ''/metrics'' then metrics
      else (404, ''404 page not found'' @ [CHR 0x0A]))"

text \<open>Where \<open>serveHealth\<close> listens; Go's defaults leave the other limits open. If the listener fails, the process exits with code 1.\<close>

definition health_server :: "int \<Rightarrow> http_server" where
  "health_server port =
     \<lparr>hs_Addr = '':'' @ Itoa port, hs_ReadHeaderTimeout = 5 * Second, hs_ReadTimeout = 0, hs_WriteTimeout = 0,
      hs_IdleTimeout = 0, hs_MaxHeaderBytes = 0, hs_MinTLS = None\<rparr>"

lemma probe_answered:
  "\<exists>probe. ct_LivenessProbe (sidecar_container cfg) = Some probe \<and>
     fst (serveHealth metrics (pb_Path probe)) = 200 \<and>
     sint (pb_Port probe) = envInt (ct_Env (sidecar_container cfg)) ''HEALTH_PORT'' 8081"
proof -
  have "envInt (ct_Env (sidecar_container cfg)) ''HEALTH_PORT'' 8081 = WrapperHealthPort"
  proof -
    have "Atoi (Itoa WrapperHealthPort) = Some WrapperHealthPort"
      by (rule Atoi_Itoa) (simp add: int_fits_def WrapperHealthPort_def)
    moreover have "Atoi [] = None" by (simp add: Atoi_def)
    ultimately show ?thesis unfolding envInt_def sidecar_env Let_def by auto
  qed
  then show ?thesis by (simp add: sidecar_container_def serveHealth_def go_int32_def WrapperHealthPort_def)
qed

section \<open>Instances\<close>

text \<open>The kubelet mounts the configuration and the key; everything else stays.\<close>

definition kubelet :: "string \<Rightarrow> process \<Rightarrow> process" where
  "kubelet config s = s\<lparr>p_adoptedPid := 7,
     sy_fs := (sy_fs s)(fw_sourcePath delivery_watcher \<mapsto> \<lparr>fi_data = config, fi_mode = 384\<rparr>,
               ''/etc/pg-doorman-tls/tls.key'' \<mapsto> \<lparr>fi_data = ''key'', fi_mode = 384\<rparr>)\<rparr>"



end
