(* ===== verification/Binary_Delivery.thy ===== *)
theory Binary_Delivery
  imports Config_Delivery Wrapper_System
begin

text \<open>
  From the plugin's binary directory to the running pooler: what one poll of the binary watcher does when nothing fails,
  and the composition with the controller, which publishes the binary spec in the rendered Secret, and with the
  endpoint of \<open>Binary_Server\<close>, which serves the file.

  The locale \<open>ready_upgrader\<close> extends \<open>upgrader\<close> by a process that can take an upgrade.
\<close>

section \<open>A poll installs the published binary\<close>

text \<open>\<open>idle\<close>: no handover is under way, and asking for one works; \<open>ready\<close>: asking works.\<close>

locale ready_upgrader = upgrader upgrade inFlight
  for upgrade :: "('z sys_scheme, 'e, unit) st" and inFlight :: "'z sys_scheme \<Rightarrow> bool \<times> 'z sys_scheme" +
  fixes idle ready :: "'z sys_scheme \<Rightarrow> bool"
  assumes idle_quiet: "sy_fs s' = sy_fs s \<Longrightarrow> sys.more s' = sys.more s \<Longrightarrow> idle s \<Longrightarrow> idle s'"
    and idle_answers: "idle s \<Longrightarrow> \<exists>s'. inFlight s = (False, s') \<and> ready s'"
    and ready_files: "sys.more s' = sys.more s \<Longrightarrow> ready s \<Longrightarrow> ready s'"
    and upgrade_ok: "ready s \<Longrightarrow> \<exists>s'. upgrade s = (Inr (), s')"
begin

lemma swap_installs:
  assumes none: "\<And>n. dk_error (be_disk W) n = None" and cand: "sy_fs s (bin_candidate w) = Some f"
    and accepted: "\<And>n. wv_exec V n (Some f) (sy_fs s (bw_configPath w)) = None" and "ready s"
  shows "\<exists>s1 s2. swap_binary W V upgrade w data s = (w\<lparr>bw_lastSpec := data, bw_stale := False\<rparr>, s2) \<and>
    upgrade s1 = (Inr (), s2) \<and> ready s1 \<and> sys.more s1 = sys.more s \<and>
    sy_fs s2 = (sy_fs s)(bin_candidate w := None, bw_runtimePath w \<mapsto> f)"
proof -
  let ?t = "s\<lparr>sy_n := Suc (sy_n s)\<rparr>"
  define s1 where "s1 = set_fs ((sy_fs s)(bin_candidate w := None, bw_runtimePath w \<mapsto> f)) (?t\<lparr>sy_n := Suc (sy_n ?t)\<rparr>)"
  have test: "NewBinaryConfigTester V (bin_candidate w) (bw_configPath w) s = (Inr (), ?t)"
    using cand accepted by (simp add: NewBinaryConfigTester_def)
  have ren: "Rename (be_disk W) (bin_candidate w) (bw_runtimePath w) ?t = (Inr (), s1)"
    using no_faults_io(5) [OF none, of ?t "bin_candidate w" f "bw_runtimePath w"] cand by (simp add: s1_def)
  have more: "sys.more s1 = sys.more s" by (simp add: s1_def set_fs_def)
  from ready_files [OF this \<open>ready s\<close>] have "ready s1" .
  from upgrade_ok [OF this] obtain s2 where up: "upgrade s1 = (Inr (), s2)" ..
  then have "sy_fs s2 = sy_fs s1" using upgrade_files [of s1] by simp
  then have "sy_fs s2 = (sy_fs s)(bin_candidate w := None, bw_runtimePath w \<mapsto> f)" by (simp add: s1_def set_fs_def)
  with test ren up more \<open>ready s1\<close> show ?thesis by (auto simp: swap_binary_def)
qed

lemma bin_check_installs:
  assumes paths: "plain_dest (bin_candidate w)" "bw_runtimePath w \<noteq> bin_candidate w" "bw_configPath w \<noteq> bin_candidate w"
      "no_temp (bin_candidate w) (bw_configPath w)" "sn_arch (bw_syncer w) = bw_arch w"
    and none: "\<And>n. dk_error (be_disk W) n = None"
    and mounted: "sy_fs s (bw_specPath w) = Some src" "fi_data src \<noteq> bw_lastSpec w"
      "ParseBinarySpec (be_decode W) (fi_data src) = Inr spec"
    and digest: "digest_for spec (bw_arch w) = be_sha256 W data" "be_sha256 W data \<noteq> []"
      "\<forall>f. sy_fs s (bw_runtimePath w) = Some f \<longrightarrow> be_sha256 W (fi_data f) \<noteq> be_sha256 W data"
    and temp: "\<And>x. sy_fs s (dir_of (bin_candidate w) @ ''/'' @ ''.pg_doorman-'' @ x) = None"
    and remote: "bs_CABundle spec = [] \<or> be_certs W (bs_CABundle spec)" "length data \<le> be_maxBytes W"
      "\<And>n. be_http W n (bs_URL spec @ ''/binaries/'' @ bw_arch w) = Inr (http_answer 200 data)"
    and accepted: "\<And>n. wv_exec V n (Some \<lparr>fi_data = data, fi_mode = 493\<rparr>) (sy_fs s (bw_configPath w)) = None"
    and "idle s"
  shows "\<exists>s0 s1 s1' s2. sy_fs s0 = sy_fs s \<and> sys.more s0 = sys.more s \<and> inFlight s0 = (False, s1) \<and>
    sys.more s1' = sys.more s1 \<and> ready s1' \<and> upgrade s1' = (Inr (), s2) \<and>
    bin_check W V upgrade inFlight w s = (w\<lparr>bw_lastSpec := fi_data src, bw_stale := False\<rparr>, s2) \<and>
    sy_fs s2 (bw_runtimePath w) = Some \<lparr>fi_data = data, fi_mode = 493\<rparr> \<and>
    (\<forall>p. no_temp (bin_candidate w) p \<longrightarrow> p \<notin> {bw_runtimePath w, bin_candidate w} \<longrightarrow> sy_fs s2 p = sy_fs s p)"
proof -
  let ?d = "be_sha256 W data" and ?w = "w\<lparr>bw_stale := True\<rparr>"
  obtain sa where sa: "ReadFile (be_disk W) (bw_specPath w) s = (Inr (fi_data src), sa)" "sy_fs sa = sy_fs s" "sys.more sa = sys.more s"
    using does_io(1) [OF none mounted(1)] by (auto simp: does_def)
  obtain c s0 where s0: "FileSHA256 W (bw_runtimePath w) sa = (c, s0)" by (rule prod.exhaust)
  have s0': "sy_fs s0 = sy_fs s" "sys.more s0 = sys.more s" "c \<noteq> Inr ?d"
    using FileSHA256_run [OF s0] framed_run [OF process_FileSHA256 s0] sa(2,3) digest(3)
    by (auto simp: same_files_def same_process_def split: sum.splits)
  have "idle s0" using idle_quiet [OF s0'(1,2) \<open>idle s\<close>] .
  from idle_answers [OF this] obtain s1 where s1: "inFlight s0 = (False, s1)" "ready s1" by blast
  then have s1': "sy_fs s1 = sy_fs s" using inFlight_files [of s0] s0' by simp
  obtain s3 where dl: "Download W (bw_syncer w) spec ?d (bin_candidate w) s1 = (Inr (), s3)"
    and new: "sy_fs s3 (bin_candidate w) = Some \<lparr>fi_data = data, fi_mode = 493\<rparr>"
    using Download_installs [OF paths(1) none _ remote(1,2), where s = s1 and y = "bw_syncer w"] temp remote(3) s1' paths(5) by auto
  have kept: "sy_fs s3 p = sy_fs s p" if "no_temp (bin_candidate w) p" "p \<noteq> bin_candidate w" for p
    using keeps_run [OF framed_Download [OF that] dl] s1' by (simp add: keeps_def)
  have more: "sys.more s3 = sys.more s1" using framed_run [OF process_Download dl] by (simp add: same_process_def)
  have cand: "bin_candidate ?w = bin_candidate w" by (simp add: bin_candidate_def)
  have "ready s3" using ready_files [OF more s1(2)] .
  from swap_installs [OF none _ _ this, where w = ?w and f = "\<lparr>fi_data = data, fi_mode = 493\<rparr>" and V = V and data = "fi_data src"]
  obtain s4 s2 where swap: "swap_binary W V upgrade ?w (fi_data src) s3 = (w\<lparr>bw_lastSpec := fi_data src, bw_stale := False\<rparr>, s2)"
    "upgrade s4 = (Inr (), s2)" "ready s4" "sys.more s4 = sys.more s3"
    "sy_fs s2 = (sy_fs s3)(bin_candidate w := None, bw_runtimePath w \<mapsto> \<lparr>fi_data = data, fi_mode = 493\<rparr>)"
    using new accepted kept [OF paths(4,3)] by (auto simp: cand)
  have "bin_check W V upgrade inFlight w s = (w\<lparr>bw_lastSpec := fi_data src, bw_stale := False\<rparr>, s2)"
    using sa(1) mounted(2,3) digest(1,2) s0 s0'(3) s1(1) dl swap(1) by (simp add: bin_check_def apply_spec_def Let_def)
  moreover have "sy_fs s2 (bw_runtimePath w) = Some \<lparr>fi_data = data, fi_mode = 493\<rparr>"
    and "\<forall>p. no_temp (bin_candidate w) p \<longrightarrow> p \<notin> {bw_runtimePath w, bin_candidate w} \<longrightarrow> sy_fs s2 p = sy_fs s p"
    using kept by (simp_all add: swap(5))
  ultimately show ?thesis using s0' s1 swap more by metis
qed

end

section \<open>The process\<close>

definition takes_upgrades :: "proc_env \<Rightarrow> process \<Rightarrow> bool" where
  "takes_upgrades P s \<longleftrightarrow> pidLocked s \<noteq> 0 \<and> (\<forall>es. px_kill P (p_log s @ es) (pidLocked s) SIGUSR2 = KillOk)"

definition no_handover :: "proc_env \<Rightarrow> process \<Rightarrow> bool" where
  "no_handover P s \<longleftrightarrow> (\<forall>n. \<not> fst (UpgradeInFlight P (s\<lparr>sy_n := n\<rparr>)))"

lemma UpgradeInFlight_run:
  "UpgradeInFlight P s = (b, s') \<Longrightarrow> pidLocked s' = pidLocked s \<and> (\<exists>es. p_log s' = p_log s @ es)"
  by (auto simp: UpgradeInFlight_def upgradeRequestFreshLocked_def waitDelay_def now_def ReadFile_def syscall_def Let_def
      log_ev_def pidLocked_def split: if_splits option.splits sum.splits prod.splits)

lemma Upgrade_run:
  assumes "takes_upgrades P s"
  shows "\<exists>t. Upgrade P s = (Inr (), s\<lparr>p_log := p_log s @ [Kill (pidLocked s) SIGUSR2 KillOk, Clock t],
    p_upgradeRequested := True, p_upgradeRequestedAt := t\<rparr>)"
proof -
  have "px_kill P (p_log s @ []) (pidLocked s) SIGUSR2 = KillOk" "pidLocked s \<noteq> 0"
    using assms unfolding takes_upgrades_def by blast+
  then show ?thesis
    by (auto simp: Upgrade_def bindS_def signalLocked_def sys_kill_def now_def log_ev_def Let_def)
qed

text \<open>Whether a handover is under way depends on the process and the files, not on the history or the numbering of the system
  calls.\<close>

lemma UpgradeInFlight_same:
  fixes s s' :: process
  assumes "sy_fs s' = sy_fs s" "sys.more s' = sys.more s"
  shows "fst (UpgradeInFlight P (s'\<lparr>sy_n := n\<rparr>)) = fst (UpgradeInFlight P (s\<lparr>sy_n := n\<rparr>))"
  using assms
  by (cases s; cases s')
    (auto simp: UpgradeInFlight_def upgradeRequestFreshLocked_def waitDelay_def now_def ReadFile_def syscall_def Let_def log_ev_def
      split: option.splits sum.splits)

interpretation upgradable: ready_upgrader "Upgrade P" "UpgradeInFlight P"
  "\<lambda>s. takes_upgrades P s \<and> no_handover P s" "takes_upgrades P" for P
proof unfold_locales
  show files: "takes_upgrades P s'" if "sys.more s' = sys.more s" "takes_upgrades P s" for s s' :: process
    using more_fields [OF that(1)] that(2) by (simp add: takes_upgrades_def)
  show "takes_upgrades P s' \<and> no_handover P s'"
    if "sy_fs s' = sy_fs s" "sys.more s' = sys.more s" "takes_upgrades P s \<and> no_handover P s" for s s' :: process
    using files [OF that(2)] that UpgradeInFlight_same [OF that(1,2), of P] by (simp add: no_handover_def)
  show "\<exists>s'. UpgradeInFlight P s = (False, s') \<and> takes_upgrades P s'" if "takes_upgrades P s \<and> no_handover P s" for s
  proof -
    obtain b s' where run: "UpgradeInFlight P s = (b, s')" by (rule prod.exhaust)
    have "\<not> fst (UpgradeInFlight P (s\<lparr>sy_n := sy_n s\<rparr>))" using that unfolding no_handover_def by blast
    with run UpgradeInFlight_run [OF run] that show ?thesis by (auto simp: takes_upgrades_def)
  qed
  show "\<exists>s'. Upgrade P s = (Inr (), s')" if "takes_upgrades P s" for s
    using Upgrade_run [OF that] by blast
qed

section \<open>End to end\<close>

text \<open>The endpoint answers with what it serves, both sides compute the same digest, and the file fits.\<close>

definition delivers :: "bin_env \<Rightarrow> 'z sys_scheme \<Rightarrow> bin_env \<Rightarrow> BinarySpec \<Rightarrow> string \<Rightarrow> bool" where
  "delivers E sp W spec arch \<longleftrightarrow>
     be_sha256 W = be_sha256 E \<and> (\<forall>data. be_sha256 E data \<noteq> []) \<and> (\<forall>n. dk_error (be_disk E) n = None) \<and>
     (\<forall>n. be_http W n (bs_URL spec @ ''/binaries/'' @ arch) = Inr (fst (serve_binary E DefaultDir arch sp))) \<and>
     (\<forall>f. sy_fs sp (binary_path DefaultDir arch) = Some f \<longrightarrow> length (fi_data f) \<le> be_maxBytes W) \<and>
     (bs_CABundle spec = [] \<or> be_certs W (bs_CABundle spec))"

text \<open>The wrapper's disk has no faults and no left-over temporary files, the runtime binary is another one, and the new one accepts
  the configuration that is running.\<close>

definition swappable :: "bin_env \<Rightarrow> 'k watch_env \<Rightarrow> fs \<Rightarrow> disk_file \<Rightarrow> bool" where
  "swappable W V f new \<longleftrightarrow>
     (\<forall>n. dk_error (be_disk W) n = None) \<and> (\<forall>x. f (RuntimeBinaryDir @ ''/.pg_doorman-'' @ x) = None) \<and>
     (\<forall>old. f RuntimeBinaryPath = Some old \<longrightarrow> be_sha256 W (fi_data old) \<noteq> be_sha256 W (fi_data new)) \<and>
     (\<forall>n. wv_exec V n (Some new) (f RuntimeConfigPath) = None)"

lemma mounted_binary:
  "spec_source (ct_Env (sidecar_container cfg)) = ''/etc/pg-doorman-config/binary.json''"
  "mount_files configMountPath data (spec_source (ct_Env (sidecar_container cfg))) = data BinarySpecKey"
  by (simp_all add: spec_source_def source_path_def envOr_def sidecar_env dir_of_def mount_files_def pod_constants ctl_constants)

abbreviation sidecar_binaries :: "'q PluginConfiguration \<Rightarrow> string option \<Rightarrow> string \<Rightarrow> bool \<Rightarrow> binary_watcher" where
  "sidecar_binaries cfg seed arch stale \<equiv> Seed seed (NewBinaryWatcher (spec_source (ct_Env (sidecar_container cfg)))
     (main_syncer (ct_Env (sidecar_container cfg)) arch) arch stale)"

abbreviation sidecar_poll ::
  "bin_env \<Rightarrow> 'k watch_env \<Rightarrow> proc_env \<Rightarrow> binary_watcher \<Rightarrow> process \<Rightarrow> binary_watcher \<times> process" where
  "sidecar_poll W V P \<equiv> bin_check W V (Upgrade P) (UpgradeInFlight P)"

lemma sidecar_binary_fields:
  assumes w: "w = sidecar_binaries cfg seed arch stale"
  shows "bw_runtimePath w = RuntimeBinaryPath" "bw_configPath w = RuntimeConfigPath" "bw_arch w = arch"
    "bw_specPath w = ''/etc/pg-doorman-config/binary.json''" "sn_arch (bw_syncer w) = arch"
    "bin_candidate w = RuntimeBinaryPath @ binaryCandidateSuffix"
    "bw_lastSpec w = (case seed of None \<Rightarrow> [] | Some d \<Rightarrow> d)"
  by (simp_all add: w Seed_def NewBinaryWatcher_def bin_candidate_def main_syncer_def NewBinarySyncer_def mounted_binary)

lemma candidate_paths:
  "dir_of (RuntimeBinaryPath @ binaryCandidateSuffix) = RuntimeBinaryDir"
  "no_temp (RuntimeBinaryPath @ binaryCandidateSuffix) ''/etc/pg-doorman-config/binary.json''"
  "''/etc/pg-doorman-config/binary.json'' \<notin> {RuntimeBinaryPath, RuntimeBinaryPath @ binaryCandidateSuffix}"
  "RuntimeConfigPath \<notin> {RuntimeBinaryPath, RuntimeBinaryPath @ binaryCandidateSuffix}"
  by (code_simp, code_simp, code_simp, code_simp)

text \<open>One poll of the watcher in the sidecar swaps the mounted binary in, asks for the handover, and the next one rests.\<close>

lemma mounted_binary_runs:
  assumes mounted: "sy_fs s (spec_source (ct_Env (sidecar_container cfg))) = Some src"
      "fi_data src \<noteq> (case seed of None \<Rightarrow> [] | Some d \<Rightarrow> d)" "ParseBinarySpec (be_decode W) (fi_data src) = Inr spec"
    and stored: "sy_fs sp (binary_path DefaultDir arch) = Some f" "digest_for spec arch = be_sha256 E (fi_data f)" "plain_arch arch"
    and "delivers E sp W spec arch" "swappable W V (sy_fs s) (f\<lparr>fi_mode := 493\<rparr>)"
    and "takes_upgrades P s" "no_handover P s"
    and w: "w = sidecar_binaries cfg seed arch stale"
  shows "\<exists>w' s'. sidecar_poll W V P w s = (w', s') \<and> sy_fs s' RuntimeBinaryPath = Some (f\<lparr>fi_mode := 493\<rparr>) \<and>
    sy_fs s' RuntimeConfigPath = sy_fs s RuntimeConfigPath \<and> p_upgradeRequested s' \<and>
    (\<exists>l t. p_log s' = l @ [Kill (pidLocked s) SIGUSR2 KillOk, Clock t] \<and> p_upgradeRequestedAt s' = t) \<and>
    \<not> bw_stale w' \<and> (\<exists>n. sidecar_poll W V P w' s' = (w', s'\<lparr>sy_n := n\<rparr>))"
proof -
  let ?new = "\<lparr>fi_data = fi_data f, fi_mode = 493\<rparr>"
  have new: "f\<lparr>fi_mode := 493\<rparr> = ?new" by (cases f) simp
  note fields = sidecar_binary_fields [OF w]
  have none: "\<And>n. dk_error (be_disk W) n = None" and temp: "\<And>x. sy_fs s (RuntimeBinaryDir @ ''/.pg_doorman-'' @ x) = None"
    and old: "\<forall>old. sy_fs s RuntimeBinaryPath = Some old \<longrightarrow> be_sha256 W (fi_data old) \<noteq> be_sha256 W (fi_data f)"
    and accepted: "\<And>n. wv_exec V n (Some ?new) (sy_fs s RuntimeConfigPath) = None"
    using assms(8) unfolding swappable_def new by auto
  have served: "fst (serve_binary E DefaultDir arch sp) = http_answer 200 (fi_data f)"
    using assms(7) stored(1,3) by (simp add: serve_binary_def ReadFile_def syscall_def delivers_def)
  have remote: "bs_CABundle spec = [] \<or> be_certs W (bs_CABundle spec)" "length (fi_data f) \<le> be_maxBytes W"
    "\<And>n. be_http W n (bs_URL spec @ ''/binaries/'' @ arch) = Inr (http_answer 200 (fi_data f))"
    and digest: "digest_for spec arch = be_sha256 W (fi_data f)" "be_sha256 W (fi_data f) \<noteq> []"
    using assms(7) stored(1,2) served unfolding delivers_def by auto
  have idle: "takes_upgrades P s \<and> no_handover P s" using assms(9,10) ..
  have spec: "sy_fs s ''/etc/pg-doorman-config/binary.json'' = Some src" using mounted(1) by (simp add: mounted_binary)
  have neq: "RuntimeBinaryPath \<noteq> RuntimeBinaryPath @ binaryCandidateSuffix" "RuntimeConfigPath \<noteq> RuntimeBinaryPath @ binaryCandidateSuffix"
    and free: "\<And>x. sy_fs s (RuntimeBinaryDir @ ''/'' @ ''.pg_doorman-'' @ x) = None"
    using wrapper_paths(5) temp by auto
  obtain s0 s1 s1' s2 where s0: "sys.more s0 = sys.more s" "UpgradeInFlight P s0 = (False, s1)" "sys.more s1' = sys.more s1"
      "takes_upgrades P s1'" "Upgrade P s1' = (Inr (), s2)"
    and run: "sidecar_poll W V P w s = (w\<lparr>bw_lastSpec := fi_data src, bw_stale := False\<rparr>, s2)"
    and fs: "sy_fs s2 RuntimeBinaryPath = Some ?new"
      "\<forall>p. no_temp (RuntimeBinaryPath @ binaryCandidateSuffix) p \<longrightarrow> p \<notin> {RuntimeBinaryPath, RuntimeBinaryPath @ binaryCandidateSuffix} \<longrightarrow>
         sy_fs s2 p = sy_fs s p"
    using upgradable.bin_check_installs [of w W s src spec "fi_data f" V P, unfolded fields candidate_paths(1), OF wrapper_paths(2) neq
        wrapper_paths(4) refl none spec mounted(2,3) digest old free remote accepted idle] by (elim exE conjE) (rule that)
  have cfgp: "sy_fs s2 RuntimeConfigPath = sy_fs s RuntimeConfigPath"
    by (rule fs(2) [rule_format, OF wrapper_paths(4) candidate_paths(4)])
  have src: "sy_fs s2 ''/etc/pg-doorman-config/binary.json'' = Some src"
    using fs(2) [rule_format, OF candidate_paths(2,3)] spec by simp
  have pid: "pidLocked s1' = pidLocked s"
    using UpgradeInFlight_run [OF s0(2)] more_fields(1) [OF s0(1)] more_fields(1) [OF s0(3)] by simp
  let ?w' = "w\<lparr>bw_lastSpec := fi_data src, bw_stale := False\<rparr>"
  have rest: "sidecar_poll W V P ?w' s2 = (?w', s2\<lparr>sy_n := Suc (sy_n s2)\<rparr>)"
    using none src fields(4) by (simp add: bin_check_def ReadFile_def syscall_def)
  from Upgrade_run [OF s0(4)] s0(5) pid obtain t where
    "s2 = s1'\<lparr>p_log := p_log s1' @ [Kill (pidLocked s) SIGUSR2 KillOk, Clock t], p_upgradeRequested := True, p_upgradeRequestedAt := t\<rparr>"
    by auto
  then show ?thesis
    using run rest fs(1) cfgp unfolding new by (intro exI [of _ ?w'] exI [of _ s2]) auto
qed


section \<open>An example\<close>

definition upgrading_cluster :: Cluster where
  "upgrading_cluster = (example_cluster ''doorman'')\<lparr>cl_Plugins := [\<lparr>pg_Name = PluginName, pg_Enabled = None,
     pg_Parameters = [''configName'' \<mapsto> ''doorman'', ParamInPlaceUpgrades \<mapsto> ''true'']\<rparr>]\<rparr>"

definition upgrading_env :: "nat ctl_env" where
  "upgrading_env = toy_env\<lparr>ce_Binary := Some demo_spec, ce_json := (\<lambda>_. Inr ''spec'')\<rparr>"

definition upgrading_objects :: objects where
  "upgrading_objects = toy_objects\<lparr>ob_clusters := [(''ns'', ''pg'') \<mapsto> upgrading_cluster]\<rparr>"

definition upgrading_process :: process where
  "upgrading_process = demo_process\<lparr>p_adoptedPid := 7,
     sy_fs := [''/etc/pg-doorman-config/binary.json'' \<mapsto> \<lparr>fi_data = ''spec'', fi_mode = 420\<rparr>,
               RuntimeBinaryPath \<mapsto> \<lparr>fi_data = ''old'', fi_mode = 493\<rparr>,
               RuntimeConfigPath \<mapsto> \<lparr>fi_data = ''yaml'', fi_mode = 384\<rparr>]\<rparr>"

lemma upgrading_config:
  "pc_Enabled (NewFromCluster (ce_config upgrading_env) upgrading_cluster)"
  "pc_ConfigName (NewFromCluster (ce_config upgrading_env) upgrading_cluster) = ''doorman''"
  "\<not> isl (Validate (ce_config upgrading_env) (NewFromCluster (ce_config upgrading_env) upgrading_cluster))"
  "pc_InPlaceUpgrades (NewFromCluster (ce_config upgrading_env) upgrading_cluster)"
  "pc_PoolerPort (NewFromCluster (ce_config upgrading_env) upgrading_cluster) = 6432"
  "pc_MetricsPort (NewFromCluster (ce_config upgrading_env) upgrading_cluster) = 9127"
  by code_simp+

lemma upgrading_ok:
  "libs_ok upgrading_env toy_marshal (pd_Spec (example_pd [] False [])) (NewFromCluster (ce_config upgrading_env) upgrading_cluster)"
  "startable upgrading_env upgrading_objects (example_pd [] False []) upgrading_cluster (pd_Spec (example_pd [] False [])) []"
proof -
  note cfg = upgrading_config
  show "libs_ok upgrading_env toy_marshal (pd_Spec (example_pd [] False [])) (NewFromCluster (ce_config upgrading_env) upgrading_cluster)"
    unfolding libs_ok_def cfg using toy_codec by (simp add: upgrading_env_def toy_env_def example_env_def set_condition_idem)
  let ?spec = "pd_Spec (example_pd [] False [])"
  have refs: "spec_refs ?spec = [\<lparr>sk_Name = ''s1'', sk_Key = ''password''\<rparr>]" by code_simp
  have "DefaultAuthSecretRefs ?spec = Inr (?spec, [])" "crd_valid ?spec"
    using toy_startable by (auto simp: startable_def wants_def Let_def)
  then show "startable upgrading_env upgrading_objects (example_pd [] False []) upgrading_cluster ?spec []"
    using cfg refs
    by (simp add: startable_def wants_def upgrading_objects_def upgrading_cluster_def toy_objects_def pd_key_def example_pd_def
        example_cluster_def named_def available_def labelled_def secret_value_def CollectSecretNames_props plain_secret_def
        RenderedSecretName_def GeneratedAuthSecretName_def static_spec_def Let_def)
qed


end
