(* ===== verification/Go_Heap.thy ===== *)
theory Go_Heap
  imports Prelude "HOL-Library.AList"
begin

text \<open>
  Memory with pointers, for the code in which aliasing decides: the generated deep copies and the functions that write
  through the pointers of a copy. A memory is the list of the cells allocated so far and an address is a position in it;
  nothing is ever freed, as a garbage collector is not observable. Reading through an address without a cell of the
  expected type is the error \<open>BadPointer\<close>, which Go's type system excludes and the theorems show not to happen.

  A \<open>view\<close> reads a structure through all of its pointers: it returns the value the structure stands for and the list of
  the addresses it visits (its footprint, with an address repeated when it is shared). The locale \<open>viewer\<close> says that a view depends
  on its footprint only, \<open>copier\<close> that an operation makes a copy with a footprint of its own, \<open>mutator\<close> that an operation
  changes a structure in place and nothing else. The lemmas of the locales build copiers and mutators of pointers, slices,
  maps and structs from those of their parts.
\<close>

section \<open>Cells and pointers\<close>

type_synonym addr = nat

datatype heap_fault = BadPointer

type_synonym ('c, 'a) mem = "('c list, heap_fault, 'a) st"

text \<open>How values of one Go type are kept in cells.\<close>

record ('c, 'a) slot =
  sl_put :: "'a \<Rightarrow> 'c"
  sl_get :: "'c \<Rightarrow> 'a option"

definition wf_slot :: "('c, 'a) slot \<Rightarrow> bool" where
  "wf_slot S \<longleftrightarrow> (\<forall>x. sl_get S (sl_put S x) = Some x)"

text \<open>Go's \<open>new\<close> (and \<open>&T{...}\<close>, \<open>make\<close>, \<open>ptr.To\<close>), and reading and writing through a pointer.\<close>

definition new :: "('c, 'a) slot \<Rightarrow> 'a \<Rightarrow> ('c, addr) mem" where
  "new S x = (\<lambda>h. (Inr (length h), h @ [sl_put S x]))"

definition peek :: "('c, 'a) slot \<Rightarrow> 'c list \<Rightarrow> addr \<Rightarrow> 'a option" where
  "peek S h a = (if a < length h then sl_get S (h ! a) else None)"

definition load :: "('c, 'a) slot \<Rightarrow> addr \<Rightarrow> ('c, 'a) mem" where
  "load S a = (\<lambda>h. case peek S h a of None \<Rightarrow> (Inl BadPointer, h) | Some x \<Rightarrow> (Inr x, h))"

definition store :: "('c, 'a) slot \<Rightarrow> addr \<Rightarrow> 'a \<Rightarrow> ('c, unit) mem" where
  "store S a x = (\<lambda>h. if a < length h then (Inr (), h[a := sl_put S x]) else (Inl BadPointer, h))"

section \<open>The shapes of the generated code\<close>

text \<open>\<open>*out = new(T); (*in).DeepCopyInto(*out)\<close>, where \<open>into\<close> gives what \<open>DeepCopyInto\<close> leaves in \<open>*out\<close>. Only the running
  function knows \<open>out\<close>, so writing it once at the end is what a reader sees.\<close>

definition copy_new :: "('c, 'a) slot \<Rightarrow> 'a \<Rightarrow> ('a \<Rightarrow> ('c, 'a) mem) \<Rightarrow> addr \<Rightarrow> ('c, addr) mem" where
  "copy_new S zero into a =
     bindS (new S zero) (\<lambda>out. bindS (load S a) (\<lambda>x. bindS (into x) (\<lambda>y.
       bindS (store S out y) (\<lambda>_. retS out))))"

definition copy_ptr ::
  "('c, 'a) slot \<Rightarrow> 'a \<Rightarrow> ('a \<Rightarrow> ('c, 'a) mem) \<Rightarrow> addr option \<Rightarrow> ('c, addr option) mem" where
  "copy_ptr S zero into p =
     (case p of None \<Rightarrow> retS None | Some a \<Rightarrow> bindS (copy_new S zero into a) (\<lambda>out. retS (Some out)))"

text \<open>A loop that computes a new element for every index or key and writes it into the array or map at \<open>out\<close>.\<close>

fun each_item ::
  "('c, 's) slot \<Rightarrow> ('i \<Rightarrow> 'a \<Rightarrow> 's \<Rightarrow> 's) \<Rightarrow> ('a \<Rightarrow> ('c, 'a) mem) \<Rightarrow> addr \<Rightarrow> ('i \<times> 'a) list \<Rightarrow> ('c, unit) mem" where
  "each_item S upd f out [] = retS ()"
| "each_item S upd f out ((i, x) # rest) =
     bindS (f x) (\<lambda>y. bindS (load S out) (\<lambda>ys. bindS (store S out (upd i y ys)) (\<lambda>_.
       each_item S upd f out rest)))"

definition set_index :: "nat \<Rightarrow> 'a \<Rightarrow> 'a list \<Rightarrow> 'a list" where
  "set_index i y ys = ys[i := y]"

definition copy_slice ::
  "('c, 'a list) slot \<Rightarrow> 'a \<Rightarrow> ('a \<Rightarrow> ('c, 'a) mem) \<Rightarrow> addr option \<Rightarrow> ('c, addr option) mem" where
  "copy_slice S zero into p =
     (case p of None \<Rightarrow> retS None
      | Some a \<Rightarrow> bindS (load S a) (\<lambda>xs. bindS (new S (replicate (length xs) zero)) (\<lambda>out.
          bindS (each_item S set_index into out (List.enumerate 0 xs)) (\<lambda>_. retS (Some out)))))"

definition copy_map ::
  "('c, ('k \<times> 'a) list) slot \<Rightarrow> ('a \<Rightarrow> ('c, 'a) mem) \<Rightarrow> addr option \<Rightarrow> ('c, addr option) mem" where
  "copy_map S copy p =
     (case p of None \<Rightarrow> retS None
      | Some a \<Rightarrow> bindS (load S a) (\<lambda>m. bindS (new S []) (\<lambda>out.
          bindS (each_item S AList.update copy out m) (\<lambda>_. retS (Some out)))))"

section \<open>The shapes of code that writes in place\<close>

text \<open>\<open>if p == nil { p = &x }\<close>.\<close>

definition default_ptr :: "('c, 'a) slot \<Rightarrow> 'a \<Rightarrow> addr option \<Rightarrow> ('c, addr option) mem" where
  "default_ptr S x p = (case p of None \<Rightarrow> bindS (new S x) (\<lambda>a. retS (Some a)) | Some a \<Rightarrow> retS (Some a))"

text \<open>Changing what a pointer points to, every element of a slice, every entry of a map. Go visits each entry of a map once, and
  assigning to the key just visited adds none.\<close>

definition update_at :: "('c, 'a) slot \<Rightarrow> ('a \<Rightarrow> ('c, 'a) mem) \<Rightarrow> addr \<Rightarrow> ('c, addr) mem" where
  "update_at S op a = bindS (load S a) (\<lambda>x. bindS (op x) (\<lambda>y. bindS (store S a y) (\<lambda>_. retS a)))"

definition with_ptr :: "(addr \<Rightarrow> ('c, addr) mem) \<Rightarrow> addr option \<Rightarrow> ('c, addr option) mem" where
  "with_ptr act p = (case p of None \<Rightarrow> retS None | Some a \<Rightarrow> bindS (act a) (\<lambda>b. retS (Some b)))"

definition each_elem :: "('c, 'a list) slot \<Rightarrow> ('a \<Rightarrow> ('c, 'a) mem) \<Rightarrow> addr \<Rightarrow> ('c, addr) mem" where
  "each_elem S op a =
     bindS (load S a) (\<lambda>xs. bindS (each_item S set_index op a (List.enumerate 0 xs)) (\<lambda>_. retS a))"

definition each_entry :: "('c, ('k \<times> 'a) list) slot \<Rightarrow> ('a \<Rightarrow> ('c, 'a) mem) \<Rightarrow> addr \<Rightarrow> ('c, addr) mem" where
  "each_entry S op a = bindS (load S a) (\<lambda>m. bindS (each_item S AList.update op a m) (\<lambda>_. retS a))"

section \<open>Views\<close>

type_synonym 'v seen = "('v \<times> addr list) option"

definition flat :: "'c list \<Rightarrow> 'a \<Rightarrow> 'a seen" where
  "flat h x = Some (x, [])"

definition seen_map :: "('v \<Rightarrow> 'w) \<Rightarrow> 'v seen \<Rightarrow> 'w seen" where
  "seen_map f r = map_option (\<lambda>(v, A). (f v, A)) r"

definition seen_pair :: "'v seen \<Rightarrow> 'w seen \<Rightarrow> ('v \<times> 'w) seen" where
  "seen_pair r s = (case r of None \<Rightarrow> None | Some (v, A) \<Rightarrow>
     (case s of None \<Rightarrow> None | Some (w, B) \<Rightarrow> Some ((v, w), A @ B)))"

definition view_at :: "('c, 'a) slot \<Rightarrow> ('c list \<Rightarrow> 'a \<Rightarrow> 'v seen) \<Rightarrow> 'c list \<Rightarrow> addr \<Rightarrow> 'v seen" where
  "view_at S view h a = (case peek S h a of None \<Rightarrow> None | Some x \<Rightarrow>
     (case view h x of None \<Rightarrow> None | Some (v, A) \<Rightarrow> Some (v, a # A)))"

definition view_ptr ::
  "('c, 'a) slot \<Rightarrow> ('c list \<Rightarrow> 'a \<Rightarrow> 'v seen) \<Rightarrow> 'c list \<Rightarrow> addr option \<Rightarrow> 'v option seen" where
  "view_ptr S view h p = (case p of None \<Rightarrow> Some (None, []) | Some a \<Rightarrow> seen_map Some (view_at S view h a))"

definition view_pair ::
  "('c list \<Rightarrow> 'a \<Rightarrow> 'v seen) \<Rightarrow> ('c list \<Rightarrow> 'b \<Rightarrow> 'w seen) \<Rightarrow> 'c list \<Rightarrow> 'a \<times> 'b \<Rightarrow> ('v \<times> 'w) seen" where
  "view_pair view1 view2 h p = seen_pair (view1 h (fst p)) (view2 h (snd p))"

fun view_list :: "('c list \<Rightarrow> 'a \<Rightarrow> 'v seen) \<Rightarrow> 'c list \<Rightarrow> 'a list \<Rightarrow> 'v list seen" where
  "view_list view h [] = Some ([], [])"
| "view_list view h (x # xs) = seen_map (\<lambda>(v, vs). v # vs) (seen_pair (view h x) (view_list view h xs))"

text \<open>A nil slice or map reads as an empty one; the keys of a map are distinct.\<close>

definition view_slice ::
  "('c, 'a list) slot \<Rightarrow> ('c list \<Rightarrow> 'a \<Rightarrow> 'v seen) \<Rightarrow> 'c list \<Rightarrow> addr option \<Rightarrow> 'v list option seen" where
  "view_slice S view = view_ptr S (view_list view)"

definition view_entries ::
  "('c list \<Rightarrow> 'a \<Rightarrow> 'v seen) \<Rightarrow> 'c list \<Rightarrow> ('k \<times> 'a) list \<Rightarrow> ('k \<times> 'v) list seen" where
  "view_entries view h m =
     (if wf_map m then seen_map (zip (map fst m)) (view_list view h (map snd m)) else None)"

definition view_map ::
  "('c, ('k \<times> 'a) list) slot \<Rightarrow> ('c list \<Rightarrow> 'a \<Rightarrow> 'v seen) \<Rightarrow> 'c list \<Rightarrow> addr option \<Rightarrow> ('k \<times> 'v) list option seen" where
  "view_map S view = view_ptr S (view_entries view)"

text \<open>The value behind a possibly nil slice or map.\<close>

definition or_empty :: "'a list option \<Rightarrow> 'a list" where
  "or_empty xs = (case xs of None \<Rightarrow> [] | Some ys \<Rightarrow> ys)"

section \<open>Contracts\<close>

definition agree :: "addr set \<Rightarrow> 'c list \<Rightarrow> 'c list \<Rightarrow> bool" where
  "agree A h h' \<longleftrightarrow> (\<forall>a \<in> A. a < length h \<longrightarrow> a < length h' \<and> h' ! a = h ! a)"

text \<open>Only cells of \<open>X\<close> and new ones were written.\<close>

definition touches :: "addr set \<Rightarrow> 'c list \<Rightarrow> 'c list \<Rightarrow> bool" where
  "touches X h h' \<longleftrightarrow> length h \<le> length h' \<and> agree (- X) h h'"

text \<open>The footprint \<open>B\<close> of a result: no cell twice, and cells of \<open>X\<close> or new ones only.\<close>

definition owned :: "addr set \<Rightarrow> 'c list \<Rightarrow> 'c list \<Rightarrow> addr list \<Rightarrow> bool" where
  "owned X h h' B \<longleftrightarrow> distinct B \<and> set B \<subseteq> X \<union> {length h..<length h'}"

locale viewer =
  fixes view :: "'c list \<Rightarrow> 'a \<Rightarrow> 'v seen"
  assumes view_local: "view h x = Some (v, A) \<Longrightarrow> agree (set A) h h' \<Longrightarrow> view h' x = Some (v, A)"
    and view_bounded: "view h x = Some (v, A) \<Longrightarrow> set A \<subseteq> {..<length h}"

text \<open>An operation that maps the value of a structure by \<open>f\<close>. One with \<open>own\<close> writes in place and expects a structure without
  sharing; one without writes no cell that was there before and needs no such thing.\<close>

locale transformer = viewer view
  for view :: "'c list \<Rightarrow> 'a \<Rightarrow> 'v seen" +
  fixes own :: bool
    and op :: "'a \<Rightarrow> ('c, 'a) mem"
    and f :: "'v \<Rightarrow> 'v"
  assumes op_runs: "view h x = Some (v, A) \<Longrightarrow> own \<longrightarrow> distinct A \<Longrightarrow>
    \<exists>y h' B. op x h = (Inr y, h') \<and> touches (if own then set A else {}) h h' \<and>
      view h' y = Some (f v, B) \<and> owned (if own then set A else {}) h h' B"

text \<open>A deep copy, and an update in place.\<close>

locale copier = transformer view False into "\<lambda>v. v"
  for view :: "'c list \<Rightarrow> 'a \<Rightarrow> 'v seen" and into :: "'a \<Rightarrow> ('c, 'a) mem"

locale mutator = transformer view True op f
  for view :: "'c list \<Rightarrow> 'a \<Rightarrow> 'v seen" and op :: "'a \<Rightarrow> ('c, 'a) mem" and f :: "'v \<Rightarrow> 'v"

section \<open>Lemmas on memory\<close>

lemma seen_map_Some [simp]:
  "seen_map f r = Some (w, A) \<longleftrightarrow> (\<exists>v. r = Some (v, A) \<and> w = f v)"
  by (auto simp: seen_map_def)

lemma seen_map_comp [simp]: "seen_map f (seen_map g r) = seen_map (\<lambda>v. f (g v)) r"
  by (cases r) (auto simp: seen_map_def)

lemma seen_pair_Some [simp]:
  "seen_pair r s = Some (vw, C) \<longleftrightarrow>
     (\<exists>v w A B. r = Some (v, A) \<and> s = Some (w, B) \<and> vw = (v, w) \<and> C = A @ B)"
  by (auto simp: seen_pair_def split: option.splits)

lemma view_at_Some [simp]:
  "view_at S view h a = Some (v, C) \<longleftrightarrow>
     (\<exists>x A. peek S h a = Some x \<and> view h x = Some (v, A) \<and> C = a # A)"
  by (auto simp: view_at_def split: option.splits)

lemma view_ptr_Some [simp]:
  "view_ptr S view h (Some a) = Some (w, C) \<longleftrightarrow> (\<exists>v. view_at S view h a = Some (v, C) \<and> w = Some v)"
  "view_ptr S view h None = Some (w, C) \<longleftrightarrow> w = None \<and> C = []"
  by (auto simp: view_ptr_def)

lemma peek_bound: "peek S h a = Some x \<Longrightarrow> a < length h"
  by (simp add: peek_def split: if_splits)

lemma peek_agree: "peek S h a = Some x \<Longrightarrow> agree A h h' \<Longrightarrow> a \<in> A \<Longrightarrow> peek S h' a = Some x"
  by (auto simp: peek_def agree_def split: if_splits)

lemma load_ok [simp]: "load S a h = (Inr x, h') \<longleftrightarrow> peek S h a = Some x \<and> h' = h"
  by (auto simp: load_def split: option.splits)

lemma new_apply [simp]: "new S x h = (Inr (length h), h @ [sl_put S x])"
  by (simp add: new_def)

lemma store_ok: "a < length h \<Longrightarrow> store S a x h = (Inr (), h[a := sl_put S x])"
  by (simp add: store_def)

lemma load_bind: "peek S h a = Some x \<Longrightarrow> bindS (load S a) k h = k x h"
  by (simp add: bindS_ok)

lemma new_bind: "bindS (new S x) k h = k (length h) (h @ [sl_put S x])"
  by (simp add: bindS_ok)

lemma store_bind: "a < length h \<Longrightarrow> bindS (store S a x) k h = k () (h[a := sl_put S x])"
  by (simp add: bindS_ok store_ok)

lemmas mem_run = load_bind new_bind store_bind bindS_ok

lemma peek_update [simp]:
  "wf_slot S \<Longrightarrow> a < length h \<Longrightarrow> peek S (h[a := sl_put S x]) a = Some x"
  by (simp add: peek_def wf_slot_def)

lemma agree_mono: "agree A h h' \<Longrightarrow> B \<subseteq> A \<Longrightarrow> agree B h h'"
  by (auto simp: agree_def)

lemma agree_Un [simp]: "agree (A \<union> B) h h' \<longleftrightarrow> agree A h h' \<and> agree B h h'"
  by (auto simp: agree_def)

lemma agree_insert: "agree (insert a A) h h' \<longleftrightarrow> agree {a} h h' \<and> agree A h h'"
  by (auto simp: agree_def)

lemma touches_refl [simp]: "touches X h h"
  by (simp add: touches_def agree_def)

lemma touches_trans:
  assumes "touches X h h1" "touches Y h1 h2" "X \<subseteq> Z" "Y \<inter> {..<length h} \<subseteq> Z"
  shows "touches Z h h2"
  unfolding touches_def agree_def
proof (intro conjI ballI impI)
  show "length h \<le> length h2" using assms(1,2) by (simp add: touches_def)
  fix a assume a: "a \<in> - Z" "a < length h"
  then have "a \<notin> X" "a \<notin> Y" using assms(3,4) by auto
  moreover have "a < length h1" using a assms(1) by (simp add: touches_def)
  ultimately show "a < length h2" "h2 ! a = h ! a"
    using a assms(1,2) by (simp_all add: touches_def agree_def)
qed

lemma touches_new [simp]: "touches X h (h @ [c])"
  by (auto simp: touches_def agree_def nth_append)

lemma touches_store: "a < length h \<Longrightarrow> a \<in> X \<Longrightarrow> touches X h (h[a := c])"
  by (auto simp: touches_def agree_def nth_list_update)

lemma touches_agree: "touches X h h' \<Longrightarrow> A \<inter> X = {} \<Longrightarrow> agree A h h'"
  by (auto simp: touches_def agree_def)

lemma touches_length: "touches X h h' \<Longrightarrow> length h \<le> length h'"
  by (simp add: touches_def)

lemma touches_prefix: "touches {} h h' \<longleftrightarrow> prefix h h'"
proof
  assume t: "touches {} h h'"
  then have "take (length h) h' = h"
    by (auto simp: touches_def agree_def intro: nth_equalityI)
  then show "prefix h h'" by (metis take_is_prefix)
qed (auto simp: touches_def agree_def prefix_def nth_append)

lemma owned_mono: "owned X h h' B \<Longrightarrow> X \<subseteq> Y \<Longrightarrow> length h' \<le> length h2 \<Longrightarrow> owned Y h h2 B"
  by (auto simp: owned_def)

lemma owned_later: "owned X h1 h' B \<Longrightarrow> length h \<le> length h1 \<Longrightarrow> X \<subseteq> Y \<union> {length h..<length h'} \<Longrightarrow> owned Y h h' B"
  by (fastforce simp: owned_def)

section \<open>Viewers\<close>

lemma viewerI:
  assumes "\<And>h x v A a. view h x = Some (v, A) \<Longrightarrow> a \<in> set A \<Longrightarrow> a < length h"
    and "\<And>h x v A h'. view h x = Some (v, A) \<Longrightarrow> agree (set A) h h' \<Longrightarrow> view h' x = Some (v, A)"
  shows "viewer view"
  by unfold_locales (blast intro: assms)+

lemma viewer_flat: "viewer flat"
  by (rule viewerI) (simp_all add: flat_def)

context viewer
begin

lemma bounded: "view h x = Some (v, A) \<Longrightarrow> a \<in> set A \<Longrightarrow> a < length h"
  using view_bounded by blast

lemma at: "viewer (view_at S view)"
proof (rule viewerI)
  fix h h' a b v C
  assume "view_at S view h a = Some (v, C)"
  then obtain x A where x: "peek S h a = Some x" "view h x = Some (v, A)" "C = a # A" by auto
  show "b < length h" if "b \<in> set C" using that x bounded [OF x(2)] peek_bound [OF x(1)] by auto
  assume "agree (set C) h h'"
  with x have "agree {a} h h'" "agree (set A) h h'" by (simp_all add: agree_def)
  then show "view_at S view h' a = Some (v, C)"
    using x peek_agree [OF x(1)] view_local [OF x(2)] by auto
qed

lemma ptr: "viewer (view_ptr S view)"
proof (rule viewerI)
  fix h h' p b v C
  assume v: "view_ptr S view h p = Some (v, C)"
  show "b < length h" if "b \<in> set C"
    using v that viewer.bounded [OF at, of S h] by (cases p) (auto simp del: view_at_Some)
  assume "agree (set C) h h'"
  then show "view_ptr S view h' p = Some (v, C)"
    using v viewer.view_local [OF at, of S h _ _ C h'] by (cases p) (auto simp del: view_at_Some)
qed

lemma elems: "viewer (view_list view)"
proof (rule viewerI)
  fix h h' xs v C b
  show "b < length h" if "view_list view h xs = Some (v, C)" "b \<in> set C"
    using that by (induction xs arbitrary: v C) (auto dest: bounded)
  show "view_list view h' xs = Some (v, C)" if "view_list view h xs = Some (v, C)" "agree (set C) h h'"
    using that
  proof (induction xs arbitrary: v C)
    case (Cons x xs)
    then obtain w ws A B where w: "view h x = Some (w, A)" "view_list view h xs = Some (ws, B)"
      "v = w # ws" "C = A @ B" by auto
    with Cons.prems(2) have "agree (set A) h h'" "agree (set B) h h'" by simp_all
    with w view_local [OF w(1)] Cons.IH [OF w(2)] show ?case by simp
  qed simp
qed

lemma entries: "viewer (view_entries view)"
proof (rule viewerI)
  fix h h' m b v C
  assume "view_entries view h m = Some (v, C)"
  then obtain vs where vs: "wf_map m" "view_list view h (map snd m) = Some (vs, C)" "v = zip (map fst m) vs"
    by (auto simp: view_entries_def split: if_splits)
  show "b < length h" if "b \<in> set C" using viewer.bounded [OF elems vs(2) that] .
  assume "agree (set C) h h'"
  with vs viewer.view_local [OF elems vs(2)] show "view_entries view h' m = Some (v, C)"
    by (simp add: view_entries_def)
qed

lemma view_length: "view_list view h xs = Some (vs, C) \<Longrightarrow> length vs = length xs"
  by (induction xs arbitrary: vs C) auto

lemma struct:
  assumes "\<And>h x. view' h x = seen_map (g x) (view h (parts x))"
  shows "viewer view'"
proof (rule viewerI)
  fix h h' x a v A
  assume "view' h x = Some (v, A)"
  then obtain w where w: "view h (parts x) = Some (w, A)" "v = g x w" by (auto simp: assms)
  show "a < length h" if "a \<in> set A" using bounded [OF w(1) that] .
  assume "agree (set A) h h'"
  with w view_local [OF w(1)] show "view' h' x = Some (v, A)" by (simp add: assms)
qed

lemma pair:
  assumes "viewer view2"
  shows "viewer (view_pair view view2)"
proof (rule viewerI)
  fix h h' x a v C
  assume "view_pair view view2 h x = Some (v, C)"
  then obtain v1 v2 A B where v: "view h (fst x) = Some (v1, A)" "view2 h (snd x) = Some (v2, B)"
    "v = (v1, v2)" "C = A @ B" by (auto simp: view_pair_def)
  show "a < length h" if "a \<in> set C" using that v bounded [OF v(1)] viewer.bounded [OF assms v(2)] by auto
  assume "agree (set C) h h'"
  with v have "agree (set A) h h'" "agree (set B) h h'" by simp_all
  with v view_local [OF v(1)] viewer.view_local [OF assms v(2)] show "view_pair view view2 h' x = Some (v, C)"
    by (simp add: view_pair_def)
qed

end

section \<open>Transformers of compound data\<close>

definition pair_op :: "('a \<Rightarrow> ('c, 'a) mem) \<Rightarrow> ('b \<Rightarrow> ('c, 'b) mem) \<Rightarrow> 'a \<times> 'b \<Rightarrow> ('c, 'a \<times> 'b) mem" where
  "pair_op op1 op2 p = bindS (op1 (fst p)) (\<lambda>a. bindS (op2 (snd p)) (\<lambda>b. retS (a, b)))"

text \<open>Two steps after one another, on footprints that have nothing in common when the steps write in place.\<close>

lemma owned_append:
  assumes "owned (if own then set A1 else {}) h h1 B1" "owned (if own then set A2 else {}) h1 h2 B2"
    and "own \<longrightarrow> distinct (A1 @ A2)" "set A1 \<subseteq> {..<length h}" "set A2 \<subseteq> {..<length h}"
    and "length h \<le> length h1" "length h1 \<le> length h2"
  shows "owned (if own then set (A1 @ A2) else {}) h h2 (B1 @ B2)"
proof -
  have "x \<notin> set B2" if "x \<in> set B1" for x
  proof (cases "x < length h")
    case True
    with that assms(1) have "own \<and> x \<in> set A1" by (auto simp: owned_def split: if_splits)
    with assms(2,3,6) True show ?thesis by (auto simp: owned_def)
  next
    case False
    with that assms(1,4) have "x < length h1" by (auto simp: owned_def split: if_splits)
    with False assms(2,5) show ?thesis by (auto simp: owned_def split: if_splits)
  qed
  with assms show ?thesis by (auto simp: owned_def split: if_splits)
qed

context transformer
begin

lemma runs:
  assumes "view h x = Some (v, A)" "own \<longrightarrow> distinct A"
  obtains y h' B where "op x h = (Inr y, h')" "touches (if own then set A else {}) h h'"
    "view h' y = Some (f v, B)" "owned (if own then set A else {}) h h' B"
  using op_runs [OF assms] by blast

text \<open>The structures of a disjoint footprint are left alone.\<close>

lemma keeps_seen:
  assumes "viewer view2" "view2 h z = Some (w, A2)" "touches (if own then set A else {}) h h'"
    and "own \<longrightarrow> set A \<inter> set A2 = {}"
  shows "view2 h' z = Some (w, A2)"
  using assms by (intro viewer.view_local [OF assms(1,2)] touches_agree [OF assms(3)]) auto

lemma keeps_result:
  assumes "viewer view2" "view2 h1 z = Some (w, B)" "owned (if own then set A else {}) h h1 B"
    and "touches (if own then set A2 else {}) h1 h2" "own \<longrightarrow> distinct (A @ A2)" "set A2 \<subseteq> {..<length h}"
  shows "view2 h2 z = Some (w, B)"
proof (rule viewer.view_local [OF assms(1,2)], rule touches_agree [OF assms(4)])
  show "set B \<inter> (if own then set A2 else {}) = {}"
    using assms(3,5,6) by (cases own) (fastforce simp: owned_def)+
qed

lemma pair_transformer:
  assumes "transformer view2 own op2 f2"
  shows "transformer (view_pair view view2) own (pair_op op op2) (map_prod f f2)"
proof -
  have v2: "viewer view2" using assms by (simp add: transformer_def)
  have "\<exists>y h2 C. pair_op op op2 p h = (Inr y, h2) \<and> touches (if own then set A else {}) h h2 \<and>
      view_pair view view2 h2 y = Some (map_prod f f2 v, C) \<and> owned (if own then set A else {}) h h2 C"
    if seen: "view_pair view view2 h p = Some (v, A)" and dis: "own \<longrightarrow> distinct A" for h p v A
  proof -
    from seen obtain v1 w A1 A2 where v: "view h (fst p) = Some (v1, A1)" "view2 h (snd p) = Some (w, A2)"
      and vA: "v = (v1, w)" "A = A1 @ A2" by (auto simp: view_pair_def)
    have b: "set A1 \<subseteq> {..<length h}" "set A2 \<subseteq> {..<length h}"
      using view_bounded [OF v(1)] viewer.view_bounded [OF v2 v(2)] .
    from runs [OF v(1)] dis vA obtain y1 h1 B1 where r1: "op (fst p) h = (Inr y1, h1)"
      "touches (if own then set A1 else {}) h h1" "view h1 y1 = Some (f v1, B1)"
      "owned (if own then set A1 else {}) h h1 B1" by auto
    from keeps_seen [OF v2 v(2) r1(2)] dis vA have "view2 h1 (snd p) = Some (w, A2)" by auto
    from transformer.runs [OF assms this] dis vA obtain y2 h2 B2 where r2: "op2 (snd p) h1 = (Inr y2, h2)"
      "touches (if own then set A2 else {}) h1 h2" "view2 h2 y2 = Some (f2 w, B2)"
      "owned (if own then set A2 else {}) h1 h2 B2" by auto
    from keeps_result [OF viewer_axioms r1(3,4) r2(2) _ b(2)] dis vA have "view h2 y1 = Some (f v1, B1)" by auto
    with r2(3) have "view_pair view view2 h2 (y1, y2) = Some (map_prod f f2 v, B1 @ B2)"
      by (simp add: view_pair_def vA)
    moreover have "pair_op op op2 p h = (Inr (y1, y2), h2)"
      using r1(1) r2(1) by (simp add: pair_op_def bindS_ok)
    moreover have "touches (if own then set A else {}) h h2"
      by (rule touches_trans [OF r1(2) r2(2)]) (auto simp: vA)
    moreover have "owned (if own then set A else {}) h h2 (B1 @ B2)"
      using owned_append [OF r1(4) r2(4) _ b] dis vA touches_length [OF r1(2)] touches_length [OF r2(2)] by auto
    ultimately show ?thesis by blast
  qed
  then show ?thesis by (intro transformer.intro pair v2 transformer_axioms.intro)
qed

lemma struct_transformer:
  assumes "\<And>h x. view' h x = seen_map (g x) (view h (parts x))"
    and "\<And>x. op' x = bindS (op (parts x)) (\<lambda>p. retS (put x p))"
    and "\<And>x p. parts (put x p) = p" and "\<And>x v p. g (put x p) (f v) = f' (g x v)"
  shows "transformer view' own op' f'"
proof -
  have "\<exists>y h2 C. op' x h = (Inr y, h2) \<and> touches (if own then set A else {}) h h2 \<and>
      view' h2 y = Some (f' v, C) \<and> owned (if own then set A else {}) h h2 C"
    if seen: "view' h x = Some (v, A)" and dis: "own \<longrightarrow> distinct A" for h x v A
  proof -
    from seen obtain w where w: "view h (parts x) = Some (w, A)" "v = g x w" by (auto simp: assms(1))
    from runs [OF w(1) dis] obtain y h' B where r: "op (parts x) h = (Inr y, h')"
      "touches (if own then set A else {}) h h'" "view h' y = Some (f w, B)"
      "owned (if own then set A else {}) h h' B" .
    then have "op' x h = (Inr (put x y), h') \<and> view' h' (put x y) = Some (f' v, B)"
      by (simp add: assms bindS_ok w(2))
    with r show ?thesis by blast
  qed
  then show ?thesis by (intro transformer.intro struct [OF assms(1)] transformer_axioms.intro)
qed

text \<open>The loop over a slice or a map that writes its results to the cell \<open>out\<close>: one round, and all of them.\<close>

lemma each_item_one:
  assumes S: "wf_slot S" "peek S h out = Some c" "out \<notin> set A"
    and x: "view h x = Some (v, A)" "own \<longrightarrow> distinct A"
  obtains y h' B where "each_item S upd op out [(i, x)] h = (Inr (), h')"
    "touches (insert out (if own then set A else {})) h h'" "peek S h' out = Some (upd i y c)"
    "view h' y = Some (f v, B)" "owned (if own then set A else {}) h h' B" "out \<notin> set B"
proof -
  from runs [OF x] obtain y h1 B where r: "op x h = (Inr y, h1)"
    "touches (if own then set A else {}) h h1" "view h1 y = Some (f v, B)" "owned (if own then set A else {}) h h1 B" .
  have out: "out < length h" "out < length h1" using peek_bound [OF S(2)] touches_length [OF r(2)] by simp_all
  have c: "peek S h1 out = Some c"
    by (rule peek_agree [OF S(2) touches_agree [OF r(2)], of "{out}"]) (use S(3) in auto)
  let ?h = "h1[out := sl_put S (upd i y c)]"
  have t: "touches {out} h1 ?h" using out by (simp add: touches_store)
  have nB: "out \<notin> set B" using r(4) out S(3) by (auto simp: owned_def split: if_splits)
  show ?thesis
  proof (rule that)
    show "each_item S upd op out [(i, x)] h = (Inr (), ?h)" using r(1) c out by (simp add: mem_run store_ok)
    show "touches (insert out (if own then set A else {})) h ?h" by (rule touches_trans [OF r(2) t]) auto
    show "peek S ?h out = Some (upd i y c)" using S(1) out by simp
    show "view ?h y = Some (f v, B)" using view_local [OF r(3) touches_agree [OF t]] nB by simp
    show "owned (if own then set A else {}) h ?h B" using r(4) by (simp add: owned_def)
  qed (rule nB)
qed

lemma each_item_Cons:
  "each_item S upd op out (e # rest) = bindS (each_item S upd op out [e]) (\<lambda>_. each_item S upd op out rest)"
  by (cases e) (simp add: bindS_assoc del: retS_apply)

lemma each_item_runs:
  assumes "wf_slot S" "view_list view h (map snd items) = Some (vs, A)" "own \<longrightarrow> distinct A"
    and "peek S h out = Some c" "out \<notin> set A"
  shows "\<exists>h' ys B. each_item S upd op out items h = (Inr (), h') \<and>
    touches (insert out (if own then set A else {})) h h' \<and> length ys = length items \<and>
    peek S h' out = Some (fold (\<lambda>(i, y). upd i y) (zip (map fst items) ys) c) \<and>
    view_list view h' ys = Some (map f vs, B) \<and> owned (if own then set A else {}) h h' B"
  using assms(2-)
proof (induction items arbitrary: h vs A c)
  case Nil
  then show ?case by (intro exI [of _ h] exI [of _ "[]"]) (auto simp: owned_def)
next
  case (Cons item items)
  obtain i x where ix: "item = (i, x)" by (cases item)
  from Cons.prems(1) ix obtain v ws A1 A2 where v: "view h x = Some (v, A1)"
    "view_list view h (map snd items) = Some (ws, A2)" and vA: "vs = v # ws" "A = A1 @ A2" by auto
  have b: "set A1 \<subseteq> {..<length h}" "set A2 \<subseteq> {..<length h}"
    using view_bounded [OF v(1)] viewer.view_bounded [OF elems v(2)] .
  have prems: "out \<notin> set A1" "own \<longrightarrow> distinct A1" using Cons.prems(2,4) vA by simp_all
  obtain y h1 B1 where r: "each_item S upd op out [(i, x)] h = (Inr (), h1)"
    "touches (insert out (if own then set A1 else {})) h h1" "peek S h1 out = Some (upd i y c)"
    "view h1 y = Some (f v, B1)" "owned (if own then set A1 else {}) h h1 B1" "out \<notin> set B1"
    by (rule each_item_one [OF assms(1) Cons.prems(3) prems(1) v(1) prems(2)])
  have "view_list view h1 (map snd items) = Some (ws, A2)"
    by (rule viewer.view_local [OF elems v(2) touches_agree [OF r(2)]]) (use Cons.prems(2,4) vA in auto)
  from Cons.IH [OF this _ r(3)] Cons.prems(2,4) vA obtain h' ys B2 where q:
    "each_item S upd op out items h1 = (Inr (), h')"
    "touches (insert out (if own then set A2 else {})) h1 h'" "length ys = length items"
    "peek S h' out = Some (fold (\<lambda>(i, y). upd i y) (zip (map fst items) ys) (upd i y c))"
    "view_list view h' ys = Some (map f ws, B2)" "owned (if own then set A2 else {}) h1 h' B2" by auto
  have "z \<notin> set A2" if "own" "z \<in> set B1" for z
    using that r(5) b(2) Cons.prems(2) vA by (cases "z < length h") (auto simp: owned_def)
  with r(6) have "view h' y = Some (f v, B1)"
    by (intro view_local [OF r(4) touches_agree [OF q(2)]]) auto
  with q(5) have "view_list view h' (y # ys) = Some (map f vs, B1 @ B2)" by (simp add: vA)
  moreover have "each_item S upd op out (item # items) h = (Inr (), h')"
    by (subst each_item_Cons) (use r(1) q(1) in \<open>simp only: ix bindS_ok\<close>)
  moreover have "touches (insert out (if own then set A else {})) h h'"
    by (rule touches_trans [OF r(2) q(2)]) (auto simp: vA)
  moreover have "owned (if own then set A else {}) h h' (B1 @ B2)"
    using owned_append [OF r(5) q(6) _ b] Cons.prems(2) vA touches_length [OF r(2)] touches_length [OF q(2)] by auto
  ultimately show ?case
    using q(3,4) by (intro exI [of _ h'] exI [of _ "y # ys"] exI [of _ "B1 @ B2"]) (simp add: ix)
qed

end

section \<open>What the loops leave in the array or map\<close>

lemma fold_set_index_from:
  "length cs = length ys \<Longrightarrow>
   fold (\<lambda>(i, y). set_index i y) (zip [length ps..<length ps + length ys] ys) (ps @ cs) = ps @ ys"
proof (induction ys arbitrary: ps cs)
  case (Cons y ys)
  then obtain c cs' where c: "cs = c # cs'" "length cs' = length ys" by (cases cs) auto
  with Cons.IH [of cs' "ps @ [y]"] show ?case
    by (simp add: upt_conv_Cons set_index_def del: upt_Suc)
qed simp

lemma fold_set_index:
  "length cs = length ys \<Longrightarrow> fold (\<lambda>(i, y). set_index i y) (zip [0..<length ys] ys) cs = ys"
  using fold_set_index_from [of cs ys "[]"] by simp

lemma update_fresh: "k \<notin> set (map fst m) \<Longrightarrow> AList.update k y m = m @ [(k, y)]"
  by (induction m) auto

lemma fold_update_fresh:
  "distinct (map fst m @ ks) \<Longrightarrow> length ys = length ks \<Longrightarrow>
   fold (\<lambda>(k, y). AList.update k y) (zip ks ys) m = m @ zip ks ys"
proof (induction ks arbitrary: ys m)
  case (Cons k ks)
  then obtain y ys' where y: "ys = y # ys'" by (cases ys) auto
  with Cons.IH [of "m @ [(k, y)]" ys'] Cons.prems show ?case by (simp add: update_fresh)
qed simp

lemma update_middle: "k \<notin> set (map fst ps) \<Longrightarrow> AList.update k y (ps @ (k, x) # m) = ps @ (k, y) # m"
  by (induction ps) auto

lemma fold_update_same:
  "distinct (map fst (ps @ m)) \<Longrightarrow> length ys = length m \<Longrightarrow>
   fold (\<lambda>(k, y). AList.update k y) (zip (map fst m) ys) (ps @ m) = ps @ zip (map fst m) ys"
proof (induction m arbitrary: ys ps)
  case (Cons e m)
  obtain k x where e: "e = (k, x)" by (cases e)
  from Cons obtain y ys' where y: "ys = y # ys'" by (cases ys) auto
  with Cons.IH [of "ps @ [(k, y)]" ys'] Cons.prems e show ?case by (simp add: update_middle)
qed simp

lemma map_fst_enumerate [simp]: "map fst (List.enumerate n xs) = [n..<n + length xs]"
  by (simp add: enumerate_eq_zip)

lemma map_snd_enumerate [simp]: "map snd (List.enumerate n xs) = xs"
  by (simp add: enumerate_eq_zip)

section \<open>Copiers\<close>

lemma copierI:
  assumes "viewer view"
    and "\<And>h x v A. view h x = Some (v, A) \<Longrightarrow> \<exists>y h' B. into x h = (Inr y, h') \<and> touches {} h h' \<and>
      view h' y = Some (v, B) \<and> owned {} h h' B"
  shows "copier view into"
  using assms by (simp add: copier_def transformer_def transformer_axioms_def)

lemma copier_flat: "copier flat retS"
  by (rule copierI [OF viewer_flat]) (auto simp: flat_def owned_def)

context copier
begin

lemma pair_copier:
  assumes "copier view2 into2"
  shows "copier (view_pair view view2) (pair_op into into2)"
  using pair_transformer [OF assms [unfolded copier_def]]
  by (simp add: copier_def map_prod_def case_prod_unfold)

lemma struct_copier:
  assumes "\<And>h x. view' h x = seen_map (g x) (view h (parts x))"
    and "\<And>x. into' x = bindS (into (parts x)) (\<lambda>p. retS (put x p))"
    and "\<And>x p. parts (put x p) = p" and "\<And>x p. g (put x p) = g x"
  shows "copier view' into'"
  unfolding copier_def by (rule struct_transformer [OF assms(1-3)]) (simp add: assms(4))

lemma copies:
  assumes "view h x = Some (v, A)"
  obtains y h' B where "into x h = (Inr y, h')" "touches {} h h'" "view h' y = Some (v, B)" "owned {} h h' B"
  using runs [OF assms] by auto

lemma copy_new_runs:
  assumes "wf_slot S" "view_at S view h a = Some (v, A)"
  shows "\<exists>h' B. copy_new S zero into a h = (Inr (length h), h') \<and> touches {} h h' \<and>
    view_at S view h' (length h) = Some (v, B) \<and> owned {} h h' B"
proof -
  from assms(2) obtain x A' where x: "peek S h a = Some x" "view h x = Some (v, A')" by auto
  let ?h = "h @ [sl_put S zero]" and ?a = "length h"
  have t: "touches {} h ?h" by simp
  from peek_agree [OF x(1) touches_agree [OF t]] have x1: "peek S ?h a = Some x" by auto
  from view_local [OF x(2) touches_agree [OF t]] have "view ?h x = Some (v, A')" by simp
  from copies [OF this] obtain y h2 B where
    r: "into x ?h = (Inr y, h2)" "touches {} ?h h2" "view h2 y = Some (v, B)" "owned {} ?h h2 B" .
  let ?h3 = "h2[?a := sl_put S y]"
  have l: "?a < length h2" using touches_length [OF r(2)] by simp
  then have t3: "touches {?a} h2 ?h3" by (simp add: touches_store)
  from r(4) have "?a \<notin> set B" by (auto simp: owned_def)
  then have "view ?h3 y = Some (v, B)" using view_local [OF r(3) touches_agree [OF t3]] by simp
  with assms(1) l have "view_at S view ?h3 ?a = Some (v, ?a # B)" by simp
  moreover have "touches {} h ?h3"
    by (rule touches_trans [OF touches_trans [OF t r(2)] t3]) auto
  moreover have "owned {} h ?h3 (?a # B)" using r(4) l by (auto simp: owned_def)
  moreover have "copy_new S zero into a h = (Inr ?a, ?h3)"
    using x1 r(1) l by (simp add: copy_new_def mem_run)
  ultimately show ?thesis by blast
qed

lemma ptr_copier:
  assumes "wf_slot S"
  shows "copier (view_ptr S view) (copy_ptr S zero into)"
proof (rule copierI [OF ptr])
  fix h p v A
  assume v: "view_ptr S view h p = Some (v, A)"
  show "\<exists>y h' B. copy_ptr S zero into p h = (Inr y, h') \<and> touches {} h h' \<and>
      view_ptr S view h' y = Some (v, B) \<and> owned {} h h' B"
  proof (cases p)
    case None
    with v show ?thesis by (auto simp: copy_ptr_def owned_def)
  next
    case (Some a)
    with v obtain w where w: "view_at S view h a = Some (w, A)" "v = Some w" by (auto simp del: view_at_Some)
    from copy_new_runs [OF assms w(1), of zero] obtain h' B where
      "copy_new S zero into a h = (Inr (length h), h')" "touches {} h h'"
      "view_at S view h' (length h) = Some (w, B)" "owned {} h h' B" by blast
    with w(2) Some show ?thesis
      by (intro exI [of _ "Some (length h)"] exI [of _ h'] exI [of _ B])
        (simp add: copy_ptr_def bindS_ok del: view_at_Some)
  qed
qed

text \<open>\<open>*val.DeepCopy()\<close>: the copy is made in a cell of its own and read back.\<close>

lemma deref_copier:
  assumes "wf_slot S"
  shows "copier view (\<lambda>x. bindS (new S x) (\<lambda>val. bindS (copy_new S zero into val) (load S)))"
proof (rule copierI [OF viewer_axioms])
  fix h x v A
  assume x: "view h x = Some (v, A)"
  let ?h = "h @ [sl_put S x]"
  have t: "touches {} h ?h" by simp
  have "peek S ?h (length h) = Some x" using assms by (simp add: peek_def wf_slot_def)
  with view_local [OF x touches_agree [OF t]] have "view_at S view ?h (length h) = Some (v, length h # A)" by simp
  from copy_new_runs [OF assms this, of zero] obtain h' C where c:
    "copy_new S zero into (length h) ?h = (Inr (length ?h), h')" "touches {} ?h h'"
    "view_at S view h' (length ?h) = Some (v, C)" "owned {} ?h h' C" by blast
  from c(3) obtain y B where y: "peek S h' (length ?h) = Some y" "view h' y = Some (v, B)" "C = length ?h # B" by auto
  have "bindS (new S x) (\<lambda>val. bindS (copy_new S zero into val) (load S)) h = (Inr y, h')"
    using c(1) y(1) by (simp add: mem_run)
  moreover have "touches {} h h'" by (rule touches_trans [OF t c(2)]) auto
  moreover have "owned {} h h' B" using c(4) y(3) by (auto simp: owned_def)
  ultimately show "\<exists>y h' B. bindS (new S x) (\<lambda>val. bindS (copy_new S zero into val) (load S)) h = (Inr y, h') \<and>
      touches {} h h' \<and> view h' y = Some (v, B) \<and> owned {} h h' B"
    using y(2) by blast
qed

text \<open>The loop into a new array or map.\<close>

lemma filled_cell:
  assumes "wf_slot S" "view_list view h (map snd items) = Some (vs, A)"
  shows "\<exists>h' ys B. each_item S upd into (length h) items (h @ [sl_put S c]) = (Inr (), h') \<and> touches {} h h' \<and>
    length ys = length items \<and> view_list view h' ys = Some (vs, B) \<and> owned {} h h' (length h # B) \<and>
    peek S h' (length h) = Some (fold (\<lambda>(i, y). upd i y) (zip (map fst items) ys) c)"
proof -
  let ?h = "h @ [sl_put S c]"
  have t: "touches {} h ?h" by simp
  have v: "view_list view ?h (map snd items) = Some (vs, A)"
    using viewer.view_local [OF elems assms(2) touches_agree [OF t]] by simp
  have c: "peek S ?h (length h) = Some c" using assms(1) by (simp add: peek_def wf_slot_def)
  have "length h \<notin> set A" using viewer.view_bounded [OF elems assms(2)] by auto
  from each_item_runs [OF assms(1) v _ c this, of upd] obtain h' ys B where r:
    "each_item S upd into (length h) items ?h = (Inr (), h')" "touches {length h} ?h h'" "length ys = length items"
    "peek S h' (length h) = Some (fold (\<lambda>(i, y). upd i y) (zip (map fst items) ys) c)"
    "view_list view h' ys = Some (vs, B)" "owned {} ?h h' B" by auto
  have "touches {} h h'" by (rule touches_trans [OF t r(2)]) auto
  moreover have "owned {} h h' (length h # B)" using r(6) touches_length [OF r(2)] by (auto simp: owned_def)
  ultimately show ?thesis using r by blast
qed

lemma slice_copier:
  assumes "wf_slot S"
  shows "copier (view_slice S view) (copy_slice S zero into)"
  unfolding view_slice_def
proof (rule copierI [OF viewer.ptr [OF elems]])
  fix h p v A
  assume v: "view_ptr S (view_list view) h p = Some (v, A)"
  show "\<exists>y h' B. copy_slice S zero into p h = (Inr y, h') \<and> touches {} h h' \<and>
      view_ptr S (view_list view) h' y = Some (v, B) \<and> owned {} h h' B"
  proof (cases p)
    case None
    with v show ?thesis by (auto simp: copy_slice_def owned_def)
  next
    case (Some a)
    with v obtain xs vs A' where xs: "peek S h a = Some xs" "view_list view h xs = Some (vs, A')" "v = Some vs" by auto
    from filled_cell [OF assms, of h "List.enumerate 0 xs" vs A' set_index "replicate (length xs) zero"] xs(2)
    obtain h' ys B where r:
      "each_item S set_index into (length h) (List.enumerate 0 xs) (h @ [sl_put S (replicate (length xs) zero)]) = (Inr (), h')"
      "touches {} h h'" "length ys = length xs" "view_list view h' ys = Some (vs, B)" "owned {} h h' (length h # B)"
      "peek S h' (length h) = Some (fold (\<lambda>(i, y). set_index i y) (zip [0..<length xs] ys) (replicate (length xs) zero))"
      by auto
    with fold_set_index [of "replicate (length xs) zero" ys] have "peek S h' (length h) = Some ys" by simp
    with r xs Some show ?thesis
      by (intro exI [of _ "Some (length h)"] exI [of _ h'] exI [of _ "length h # B"]) (simp add: copy_slice_def mem_run)
  qed
qed

lemma map_copier:
  assumes "wf_slot S"
  shows "copier (view_map S view) (copy_map S into)"
  unfolding view_map_def
proof (rule copierI [OF viewer.ptr [OF entries]])
  fix h p v A
  assume v: "view_ptr S (view_entries view) h p = Some (v, A)"
  show "\<exists>y h' B. copy_map S into p h = (Inr y, h') \<and> touches {} h h' \<and>
      view_ptr S (view_entries view) h' y = Some (v, B) \<and> owned {} h h' B"
  proof (cases p)
    case None
    with v show ?thesis by (auto simp: copy_map_def owned_def)
  next
    case (Some a)
    with v obtain m vs A' where m: "peek S h a = Some m" "view_list view h (map snd m) = Some (vs, A')"
      "wf_map m" "v = Some (zip (map fst m) vs)"
      by (auto simp: view_entries_def split: if_splits)
    from filled_cell [OF assms m(2), of AList.update "[]"] obtain h' ys B where r:
      "each_item S AList.update into (length h) m (h @ [sl_put S []]) = (Inr (), h')"
      "touches {} h h'" "length ys = length m" "view_list view h' ys = Some (vs, B)" "owned {} h h' (length h # B)"
      "peek S h' (length h) = Some (fold (\<lambda>(i, y). AList.update i y) (zip (map fst m) ys) [])"
      by auto
    with fold_update_fresh [of "[]" "map fst m" ys] m(3) have "peek S h' (length h) = Some (zip (map fst m) ys)"
      by (simp add: wf_map_def)
    moreover have "view_entries view h' (zip (map fst m) ys) = Some (zip (map fst m) vs, B)"
      using r(3,4) m(3) by (simp add: view_entries_def wf_map_def)
    ultimately show ?thesis
      using r m Some
      by (intro exI [of _ "Some (length h)"] exI [of _ h'] exI [of _ "length h # B"]) (simp add: copy_map_def mem_run)
  qed
qed

end

context copier
begin

text \<open>What a copy through a pointer promises its caller: it reads as the original does; nothing that is done to the cells of one of
  the two, or to cells allocated later, changes how the other one reads.\<close>

lemma ptr_isolated:
  assumes "wf_slot S" "view_ptr S view h p = Some (v, A)"
  shows "\<exists>q h' B. copy_ptr S zero into p h = (Inr q, h') \<and> prefix h h' \<and> (q = None \<longleftrightarrow> p = None) \<and>
    view_ptr S view h' q = Some (v, B) \<and> distinct B \<and> set A \<inter> set B = {} \<and>
    (\<forall>h2. touches (set A) h' h2 \<longrightarrow> view_ptr S view h2 q = Some (v, B)) \<and>
    (\<forall>h2. touches (set B) h' h2 \<longrightarrow> view_ptr S view h2 p = Some (v, A))"
proof -
  from copier.copies [OF ptr_copier [OF assms(1)] assms(2)] obtain q h' B where
    c: "copy_ptr S zero into p h = (Inr q, h')" "touches {} h h'" "view_ptr S view h' q = Some (v, B)" "owned {} h h' B" .
  have p: "view_ptr S view h' p = Some (v, A)"
    using viewer.view_local [OF ptr assms(2) touches_agree [OF c(2)]] by simp
  have dis: "set A \<inter> set B = {}"
    using viewer.view_bounded [OF ptr assms(2)] c(4) by (fastforce simp: owned_def)
  have "q = None \<longleftrightarrow> p = None"
    using c(1) by (cases p) (auto simp: copy_ptr_def bindS_Inr_iff)
  moreover have "view_ptr S view h2 q = Some (v, B)" if "touches (set A) h' h2" for h2
    using viewer.view_local [OF ptr c(3) touches_agree [OF that]] dis by (simp add: Int_commute)
  moreover have "view_ptr S view h2 p = Some (v, A)" if "touches (set B) h' h2" for h2
    using viewer.view_local [OF ptr p touches_agree [OF that]] dis by simp
  ultimately show ?thesis
    using c dis by (intro exI [of _ q] exI [of _ h'] exI [of _ B]) (simp add: touches_prefix owned_def)
qed

end

section \<open>Mutators\<close>

lemma mutatorI:
  assumes "viewer view"
    and "\<And>h x v A. view h x = Some (v, A) \<Longrightarrow> distinct A \<Longrightarrow> \<exists>y h' B. op x h = (Inr y, h') \<and>
      touches (set A) h h' \<and> view h' y = Some (f v, B) \<and> owned (set A) h h' B"
  shows "mutator view op f"
  using assms by (simp add: mutator_def transformer_def transformer_axioms_def)

lemma mutator_id: "viewer view \<Longrightarrow> mutator view retS (\<lambda>v. v)"
  by (rule mutatorI) (auto simp: owned_def)

context viewer
begin

lemma default_ptr_mutator:
  assumes "wf_slot S" "\<And>h. view h x = Some (d, [])"
  shows "mutator (view_ptr S view) (default_ptr S x) (\<lambda>p. case p of None \<Rightarrow> Some d | Some v \<Rightarrow> Some v)"
proof (rule mutatorI [OF ptr])
  fix h p v A
  assume v: "view_ptr S view h p = Some (v, A)" "distinct A"
  show "\<exists>y h' B. default_ptr S x p h = (Inr y, h') \<and> touches (set A) h h' \<and>
      view_ptr S view h' y = Some (case v of None \<Rightarrow> Some d | Some v \<Rightarrow> Some v, B) \<and> owned (set A) h h' B"
  proof (cases p)
    case None
    let ?h = "h @ [sl_put S x]"
    have "peek S ?h (length h) = Some x" using assms(1) by (simp add: peek_def wf_slot_def)
    with assms(2) v None show ?thesis
      by (intro exI [of _ "Some (length h)"] exI [of _ ?h] exI [of _ "[length h]"])
        (simp add: default_ptr_def mem_run owned_def)
  next
    case (Some a)
    with v show ?thesis
      by (intro exI [of _ "Some a"] exI [of _ h] exI [of _ A]) (auto simp: default_ptr_def owned_def)
  qed
qed

end

lemma with_ptr_mutator:
  assumes "viewer view" and "mutator (view_at S view) act f"
  shows "mutator (view_ptr S view) (with_ptr act) (map_option f)"
proof (rule mutatorI [OF viewer.ptr [OF assms(1)]])
  fix h p v A
  assume v: "view_ptr S view h p = Some (v, A)" "distinct A"
  show "\<exists>y h' B. with_ptr act p h = (Inr y, h') \<and> touches (set A) h h' \<and>
      view_ptr S view h' y = Some (map_option f v, B) \<and> owned (set A) h h' B"
  proof (cases p)
    case None
    with v show ?thesis by (auto simp: with_ptr_def owned_def)
  next
    case (Some a)
    with v obtain w where w: "view_at S view h a = Some (w, A)" "v = Some w" by (auto simp del: view_at_Some)
    from transformer.runs [OF assms(2) [unfolded mutator_def] w(1)] v(2) obtain b h' B where
      "act a h = (Inr b, h')" "touches (set A) h h'" "view_at S view h' b = Some (f w, B)" "owned (set A) h h' B"
      by (auto simp del: view_at_Some)
    with Some w(2) show ?thesis
      by (intro exI [of _ "Some b"] exI [of _ h'] exI [of _ B]) (simp add: with_ptr_def bindS_ok del: view_at_Some)
  qed
qed

context mutator
begin

lemma pair_mutator:
  assumes "mutator view2 op2 f2"
  shows "mutator (view_pair view view2) (pair_op op op2) (map_prod f f2)"
  using pair_transformer [OF assms [unfolded mutator_def]] by (simp add: mutator_def)

lemma struct_mutator:
  assumes "\<And>h x. view' h x = seen_map (g x) (view h (parts x))"
    and "\<And>x. op' x = bindS (op (parts x)) (\<lambda>p. retS (put x p))"
    and "\<And>x p. parts (put x p) = p" and "\<And>x v p. g (put x p) (f v) = f' (g x v)"
  shows "mutator view' op' f'"
  unfolding mutator_def by (rule struct_transformer [OF assms])

lemma mutates:
  assumes "view h x = Some (v, A)" "distinct A"
  obtains y h' B where "op x h = (Inr y, h')" "touches (set A) h h'" "view h' y = Some (f v, B)" "owned (set A) h h' B"
  using runs [OF assms(1)] assms(2) by auto

lemma seq_mutator:
  assumes "mutator view op2 f2"
  shows "mutator view (\<lambda>x. bindS (op x) op2) (\<lambda>v. f2 (f v))"
proof (rule mutatorI [OF viewer_axioms])
  fix h x v A
  assume v: "view h x = Some (v, A)" "distinct A"
  from mutates [OF v] obtain y h1 B where r: "op x h = (Inr y, h1)" "touches (set A) h h1"
    "view h1 y = Some (f v, B)" "owned (set A) h h1 B" .
  from r(4) have "distinct B" by (simp add: owned_def)
  from mutator.mutates [OF assms r(3) this] obtain z h2 C where q: "op2 y h1 = (Inr z, h2)"
    "touches (set B) h1 h2" "view h2 z = Some (f2 (f v), C)" "owned (set B) h1 h2 C" .
  have "touches (set A) h h2"
    by (rule touches_trans [OF r(2) q(2)]) (use r(4) in \<open>auto simp: owned_def\<close>)
  moreover have "owned (set A) h h2 C"
    using q(4) r(4) touches_length [OF r(2)] touches_length [OF q(2)] by (fastforce simp: owned_def)
  ultimately show "\<exists>y h' B. bindS (op x) op2 h = (Inr y, h') \<and> touches (set A) h h' \<and>
      view h' y = Some (f2 (f v), B) \<and> owned (set A) h h' B"
    using r(1) q(1,3) by (intro exI [of _ z] exI [of _ h2] exI [of _ C]) (simp add: bindS_ok)
qed

lemma at_mutator:
  assumes "wf_slot S"
  shows "mutator (view_at S view) (update_at S op) f"
proof (rule mutatorI [OF at])
  fix h a v A
  assume "view_at S view h a = Some (v, A)" and d: "distinct A"
  then obtain x A' where x: "peek S h a = Some x" "view h x = Some (v, A')" "A = a # A'" by auto
  from mutates [OF x(2)] d x(3) obtain y h1 B where r: "op x h = (Inr y, h1)" "touches (set A') h h1"
    "view h1 y = Some (f v, B)" "owned (set A') h h1 B" by auto
  let ?h = "h1[a := sl_put S y]"
  have a: "a < length h" "a < length h1" using peek_bound [OF x(1)] touches_length [OF r(2)] by simp_all
  then have t: "touches {a} h1 ?h" by (simp add: touches_store)
  have nB: "a \<notin> set B" using r(4) a d x(3) by (auto simp: owned_def)
  then have "view_at S view ?h a = Some (f v, a # B)"
    using view_local [OF r(3) touches_agree [OF t]] assms a(2) by simp
  moreover have "touches (set A) h ?h" by (rule touches_trans [OF r(2) t]) (auto simp: x(3))
  moreover have "owned (set A) h ?h (a # B)" using r(4) nB x(3) by (auto simp: owned_def)
  moreover have "update_at S op a h = (Inr a, ?h)"
    using x(1) r(1) a(2) by (simp add: update_at_def mem_run)
  ultimately show "\<exists>y h' B. update_at S op a h = (Inr y, h') \<and> touches (set A) h h' \<and>
      view_at S view h' y = Some (f v, B) \<and> owned (set A) h h' B" by blast
qed

lemma elem_mutator:
  assumes "wf_slot S"
  shows "mutator (view_at S (view_list view)) (each_elem S op) (map f)"
proof (rule mutatorI [OF viewer.at [OF elems]])
  fix h a v A
  assume "view_at S (view_list view) h a = Some (v, A)" and d: "distinct A"
  then obtain xs A' where xs: "peek S h a = Some xs" "view_list view h xs = Some (v, A')" "A = a # A'" by auto
  with each_item_runs [OF assms, of h "List.enumerate 0 xs" v A' a xs set_index] d obtain h' ys B where r:
    "each_item S set_index op a (List.enumerate 0 xs) h = (Inr (), h')" "touches (insert a (set A')) h h'"
    "length ys = length xs" "view_list view h' ys = Some (map f v, B)" "owned (set A') h h' B"
    "peek S h' a = Some (fold (\<lambda>(i, y). set_index i y) (zip [0..<length xs] ys) xs)" by auto
  from r(3,6) fold_set_index [of xs ys] have "peek S h' a = Some ys" by simp
  moreover have "owned (set A) h h' (a # B)" using r(5) d xs(3) peek_bound [OF xs(1)] by (auto simp: owned_def)
  ultimately show "\<exists>y h' B. each_elem S op a h = (Inr y, h') \<and> touches (set A) h h' \<and>
      view_at S (view_list view) h' y = Some (map f v, B) \<and> owned (set A) h h' B"
    using r xs by (intro exI [of _ a] exI [of _ h'] exI [of _ "a # B"]) (simp add: each_elem_def mem_run)
qed

lemma entry_mutator:
  assumes "wf_slot S"
  shows "mutator (view_at S (view_entries view)) (each_entry S op) (map_vals f)"
proof (rule mutatorI [OF viewer.at [OF entries]])
  fix h a v A
  assume "view_at S (view_entries view) h a = Some (v, A)" and d: "distinct A"
  then obtain m vs A' where m: "peek S h a = Some m" "view_list view h (map snd m) = Some (vs, A')" "A = a # A'"
    "wf_map m" "v = zip (map fst m) vs" by (auto simp: view_entries_def split: if_splits)
  with each_item_runs [OF assms, of h m vs A' a m AList.update] d obtain h' ys B where r:
    "each_item S AList.update op a m h = (Inr (), h')" "touches (insert a (set A')) h h'"
    "length ys = length m" "view_list view h' ys = Some (map f vs, B)" "owned (set A') h h' B"
    "peek S h' a = Some (fold (\<lambda>(i, y). AList.update i y) (zip (map fst m) ys) m)" by auto
  from r(3,6) fold_update_same [of "[]" m ys] m(4) have "peek S h' a = Some (zip (map fst m) ys)"
    by (simp add: wf_map_def)
  moreover have "view_entries view h' (zip (map fst m) ys) = Some (map_vals f v, B)"
    using r(3,4) m(4,5) by (simp add: view_entries_def wf_map_def map_vals_def zip_map2 case_prod_unfold)
  moreover have "owned (set A) h h' (a # B)" using r(5) d m(3) peek_bound [OF m(1)] by (auto simp: owned_def)
  ultimately show "\<exists>y h' B. each_entry S op a h = (Inr y, h') \<and> touches (set A) h h' \<and>
      view_at S (view_entries view) h' y = Some (map_vals f v, B) \<and> owned (set A) h h' B"
    using r m by (intro exI [of _ a] exI [of _ h'] exI [of _ "a # B"]) (simp add: each_entry_def mem_run)
qed

end

end
