(* ===== verification/Deep_Copy.thy ===== *)
theory Deep_Copy
  imports Go_Heap Api_Types
begin

text \<open>
  The generated deep copies, \<open>api/v1alpha1/zz_generated.deepcopy.go\<close>, in memory with pointers. A struct of \<open>types.go\<close> is here a
  record whose pointer, slice and map fields are addresses (\<open>None\<close> is nil); a cell holds a value of one of the types that the code
  allocates. A slice is the address of its array, whose length is the slice's. \<open>DeepCopyInto(in, out)\<close> is a function from \<open>*in\<close>
  to what is left in \<open>*out\<close>.

  \<open>ObjectMeta\<close>, \<open>ListMeta\<close> and \<open>Condition\<close> belong to the Kubernetes libraries. Their values are of a type \<open>'k\<close>, which may point into
  the same memory, and their own \<open>DeepCopyInto\<close> are the fields of \<open>machinery\<close>; what is used of them is that they are deep copies
  (locale \<open>copier\<close>).

  The lemmas show that every generated function is a \<open>copier\<close>: the copy reads the same, shares no cell with the original or within
  itself, and no cell that existed before is written.
\<close>

section \<open>Structs in memory\<close>

record AuthQuerySpec_mem =
  mq_User :: string
  mq_Query :: string
  mq_PasswordSecretRef :: "addr option"
  mq_Database :: string
  mq_PoolSize :: "addr option"

record UserSpec_mem =
  mu_Username :: string
  mu_PasswordSecretRef :: SecretKeySelector
  mu_PoolSize :: "addr option"

record PoolSpec_mem =
  mp_PoolMode :: string
  mp_DefaultPoolSize :: "addr option"
  mp_AuthQuery :: "addr option"
  mp_Users :: "addr option"

record GeneralSpec_mem =
  mg_MaxConnections :: "addr option"
  mg_WorkerThreads :: "addr option"
  mg_ConnectTimeout :: string
  mg_IdleTimeout :: string
  mg_ServerLifetime :: string
  mg_ShutdownTimeout :: string
  mg_AdminUsername :: string
  mg_AdminPasswordSecretRef :: "addr option"

record PrometheusSpec_mem =
  mr_Enabled :: "addr option"

record PgDoormanSpec_mem =
  md_ClusterRef :: string
  md_Pools :: "addr option"
  md_General :: "addr option"
  md_Prometheus :: "addr option"

record PgDoormanStatus_mem =
  mt_ObservedGeneration :: int
  mt_Conditions :: "addr option"

record TypeMeta =
  tm_Kind :: string
  tm_APIVersion :: string

record 'k PgDoorman_mem =
  mo_TypeMeta :: TypeMeta
  mo_ObjectMeta :: 'k
  mo_Spec :: PgDoormanSpec_mem
  mo_Status :: PgDoormanStatus_mem

record 'k PgDoormanList_mem =
  ml_TypeMeta :: TypeMeta
  ml_ListMeta :: 'k
  ml_Items :: "addr option"

datatype 'k cell =
    CInt int | CBool bool | CKey SecretKeySelector | CAuthQuery AuthQuerySpec_mem | CUser UserSpec_mem
  | CUsers "UserSpec_mem list" | CPool PoolSpec_mem | CPools "(string \<times> PoolSpec_mem) list"
  | CGeneral GeneralSpec_mem | CPrometheus PrometheusSpec_mem | CSpec PgDoormanSpec_mem
  | CStatus PgDoormanStatus_mem | CConditions "'k list" | CDoorman "'k PgDoorman_mem"
  | CItems "'k PgDoorman_mem list" | CList "'k PgDoormanList_mem" | CLibrary 'k

definition int_slot :: "('k cell, int) slot" where
  "int_slot = \<lparr>sl_put = CInt, sl_get = (\<lambda>c. case c of CInt x \<Rightarrow> Some x | _ \<Rightarrow> None)\<rparr>"
definition bool_slot :: "('k cell, bool) slot" where
  "bool_slot = \<lparr>sl_put = CBool, sl_get = (\<lambda>c. case c of CBool x \<Rightarrow> Some x | _ \<Rightarrow> None)\<rparr>"
definition key_slot :: "('k cell, SecretKeySelector) slot" where
  "key_slot = \<lparr>sl_put = CKey, sl_get = (\<lambda>c. case c of CKey x \<Rightarrow> Some x | _ \<Rightarrow> None)\<rparr>"
definition auth_slot :: "('k cell, AuthQuerySpec_mem) slot" where
  "auth_slot = \<lparr>sl_put = CAuthQuery, sl_get = (\<lambda>c. case c of CAuthQuery x \<Rightarrow> Some x | _ \<Rightarrow> None)\<rparr>"
definition user_slot :: "('k cell, UserSpec_mem) slot" where
  "user_slot = \<lparr>sl_put = CUser, sl_get = (\<lambda>c. case c of CUser x \<Rightarrow> Some x | _ \<Rightarrow> None)\<rparr>"
definition users_slot :: "('k cell, UserSpec_mem list) slot" where
  "users_slot = \<lparr>sl_put = CUsers, sl_get = (\<lambda>c. case c of CUsers x \<Rightarrow> Some x | _ \<Rightarrow> None)\<rparr>"
definition pool_slot :: "('k cell, PoolSpec_mem) slot" where
  "pool_slot = \<lparr>sl_put = CPool, sl_get = (\<lambda>c. case c of CPool x \<Rightarrow> Some x | _ \<Rightarrow> None)\<rparr>"
definition pools_slot :: "('k cell, (string \<times> PoolSpec_mem) list) slot" where
  "pools_slot = \<lparr>sl_put = CPools, sl_get = (\<lambda>c. case c of CPools x \<Rightarrow> Some x | _ \<Rightarrow> None)\<rparr>"
definition general_slot :: "('k cell, GeneralSpec_mem) slot" where
  "general_slot = \<lparr>sl_put = CGeneral, sl_get = (\<lambda>c. case c of CGeneral x \<Rightarrow> Some x | _ \<Rightarrow> None)\<rparr>"
definition prometheus_slot :: "('k cell, PrometheusSpec_mem) slot" where
  "prometheus_slot = \<lparr>sl_put = CPrometheus, sl_get = (\<lambda>c. case c of CPrometheus x \<Rightarrow> Some x | _ \<Rightarrow> None)\<rparr>"
definition spec_slot :: "('k cell, PgDoormanSpec_mem) slot" where
  "spec_slot = \<lparr>sl_put = CSpec, sl_get = (\<lambda>c. case c of CSpec x \<Rightarrow> Some x | _ \<Rightarrow> None)\<rparr>"
definition status_slot :: "('k cell, PgDoormanStatus_mem) slot" where
  "status_slot = \<lparr>sl_put = CStatus, sl_get = (\<lambda>c. case c of CStatus x \<Rightarrow> Some x | _ \<Rightarrow> None)\<rparr>"
definition conditions_slot :: "('k cell, 'k list) slot" where
  "conditions_slot = \<lparr>sl_put = CConditions, sl_get = (\<lambda>c. case c of CConditions x \<Rightarrow> Some x | _ \<Rightarrow> None)\<rparr>"
definition doorman_slot :: "('k cell, 'k PgDoorman_mem) slot" where
  "doorman_slot = \<lparr>sl_put = CDoorman, sl_get = (\<lambda>c. case c of CDoorman x \<Rightarrow> Some x | _ \<Rightarrow> None)\<rparr>"
definition items_slot :: "('k cell, 'k PgDoorman_mem list) slot" where
  "items_slot = \<lparr>sl_put = CItems, sl_get = (\<lambda>c. case c of CItems x \<Rightarrow> Some x | _ \<Rightarrow> None)\<rparr>"
definition list_slot :: "('k cell, 'k PgDoormanList_mem) slot" where
  "list_slot = \<lparr>sl_put = CList, sl_get = (\<lambda>c. case c of CList x \<Rightarrow> Some x | _ \<Rightarrow> None)\<rparr>"

lemmas slot_defs = int_slot_def bool_slot_def key_slot_def auth_slot_def user_slot_def users_slot_def pool_slot_def
  pools_slot_def general_slot_def prometheus_slot_def spec_slot_def status_slot_def conditions_slot_def
  doorman_slot_def items_slot_def list_slot_def

section \<open>Zero values\<close>

definition key_zero :: SecretKeySelector where "key_zero = \<lparr>sk_Name = [], sk_Key = []\<rparr>"
definition auth_zero :: AuthQuerySpec_mem where
  "auth_zero = \<lparr>mq_User = [], mq_Query = [], mq_PasswordSecretRef = None, mq_Database = [], mq_PoolSize = None\<rparr>"
definition user_zero :: UserSpec_mem where
  "user_zero = \<lparr>mu_Username = [], mu_PasswordSecretRef = key_zero, mu_PoolSize = None\<rparr>"
definition pool_zero :: PoolSpec_mem where
  "pool_zero = \<lparr>mp_PoolMode = [], mp_DefaultPoolSize = None, mp_AuthQuery = None, mp_Users = None\<rparr>"
definition general_zero :: GeneralSpec_mem where
  "general_zero = \<lparr>mg_MaxConnections = None, mg_WorkerThreads = None, mg_ConnectTimeout = [], mg_IdleTimeout = [],
     mg_ServerLifetime = [], mg_ShutdownTimeout = [], mg_AdminUsername = [], mg_AdminPasswordSecretRef = None\<rparr>"
definition prometheus_zero :: PrometheusSpec_mem where "prometheus_zero = \<lparr>mr_Enabled = None\<rparr>"
definition spec_zero :: PgDoormanSpec_mem where
  "spec_zero = \<lparr>md_ClusterRef = [], md_Pools = None, md_General = None, md_Prometheus = None\<rparr>"
definition status_zero :: PgDoormanStatus_mem where
  "status_zero = \<lparr>mt_ObservedGeneration = 0, mt_Conditions = None\<rparr>"
definition type_zero :: TypeMeta where "type_zero = \<lparr>tm_Kind = [], tm_APIVersion = []\<rparr>"
definition doorman_zero :: "'k \<Rightarrow> 'k PgDoorman_mem" where
  "doorman_zero k = \<lparr>mo_TypeMeta = type_zero, mo_ObjectMeta = k, mo_Spec = spec_zero, mo_Status = status_zero\<rparr>"
definition list_zero :: "'k \<Rightarrow> 'k PgDoormanList_mem" where
  "list_zero k = \<lparr>ml_TypeMeta = type_zero, ml_ListMeta = k, ml_Items = None\<rparr>"

section \<open>The generated functions\<close>

type_synonym ('k, 'a) copying = "'a \<Rightarrow> ('k cell, 'a) mem"

text \<open>The library types: their zero values and deep copies.\<close>

record 'k machinery =
  km_ObjectMeta_zero :: 'k
  km_ListMeta_zero :: 'k
  km_Condition_zero :: 'k
  km_ObjectMeta :: "('k, 'k) copying"
  km_ListMeta :: "('k, 'k) copying"
  km_Condition :: "('k, 'k) copying"

definition AuthQuerySpec_DeepCopyInto :: "('k, AuthQuerySpec_mem) copying" where
  "AuthQuerySpec_DeepCopyInto x =
     bindS (copy_ptr key_slot key_zero retS (mq_PasswordSecretRef x)) (\<lambda>ref.
     bindS (copy_ptr int_slot 0 retS (mq_PoolSize x)) (\<lambda>size.
     retS (x\<lparr>mq_PasswordSecretRef := ref, mq_PoolSize := size\<rparr>)))"

definition AuthQuerySpec_DeepCopy :: "('k, addr option) copying" where
  "AuthQuerySpec_DeepCopy = copy_ptr auth_slot auth_zero AuthQuerySpec_DeepCopyInto"

definition GeneralSpec_DeepCopyInto :: "('k, GeneralSpec_mem) copying" where
  "GeneralSpec_DeepCopyInto x =
     bindS (copy_ptr int_slot 0 retS (mg_MaxConnections x)) (\<lambda>maxc.
     bindS (copy_ptr int_slot 0 retS (mg_WorkerThreads x)) (\<lambda>threads.
     bindS (copy_ptr key_slot key_zero retS (mg_AdminPasswordSecretRef x)) (\<lambda>ref.
     retS (x\<lparr>mg_MaxConnections := maxc, mg_WorkerThreads := threads, mg_AdminPasswordSecretRef := ref\<rparr>))))"

definition GeneralSpec_DeepCopy :: "('k, addr option) copying" where
  "GeneralSpec_DeepCopy = copy_ptr general_slot general_zero GeneralSpec_DeepCopyInto"

definition PrometheusSpec_DeepCopyInto :: "('k, PrometheusSpec_mem) copying" where
  "PrometheusSpec_DeepCopyInto x =
     bindS (copy_ptr bool_slot False retS (mr_Enabled x)) (\<lambda>enabled. retS (x\<lparr>mr_Enabled := enabled\<rparr>))"

definition PrometheusSpec_DeepCopy :: "('k, addr option) copying" where
  "PrometheusSpec_DeepCopy = copy_ptr prometheus_slot prometheus_zero PrometheusSpec_DeepCopyInto"

definition UserSpec_DeepCopyInto :: "('k, UserSpec_mem) copying" where
  "UserSpec_DeepCopyInto x =
     bindS (copy_ptr int_slot 0 retS (mu_PoolSize x)) (\<lambda>size. retS (x\<lparr>mu_PoolSize := size\<rparr>))"

definition UserSpec_DeepCopy :: "('k, addr option) copying" where
  "UserSpec_DeepCopy = copy_ptr user_slot user_zero UserSpec_DeepCopyInto"

definition PoolSpec_DeepCopyInto :: "('k, PoolSpec_mem) copying" where
  "PoolSpec_DeepCopyInto x =
     bindS (copy_ptr int_slot 0 retS (mp_DefaultPoolSize x)) (\<lambda>size.
     bindS (copy_ptr auth_slot auth_zero AuthQuerySpec_DeepCopyInto (mp_AuthQuery x)) (\<lambda>aq.
     bindS (copy_slice users_slot user_zero UserSpec_DeepCopyInto (mp_Users x)) (\<lambda>users.
     retS (x\<lparr>mp_DefaultPoolSize := size, mp_AuthQuery := aq, mp_Users := users\<rparr>))))"

definition PoolSpec_DeepCopy :: "('k, addr option) copying" where
  "PoolSpec_DeepCopy = copy_ptr pool_slot pool_zero PoolSpec_DeepCopyInto"

text \<open>\<open>*val.DeepCopy()\<close> for the loop variable \<open>val\<close>, which has a cell of its own.\<close>

definition deref_DeepCopy :: "('k, PoolSpec_mem) copying" where
  "deref_DeepCopy x =
     bindS (new pool_slot x) (\<lambda>val. bindS (PoolSpec_DeepCopy (Some val)) (\<lambda>p.
       case p of None \<Rightarrow> throwS BadPointer | Some a \<Rightarrow> load pool_slot a))"

definition PgDoormanSpec_DeepCopyInto :: "('k, PgDoormanSpec_mem) copying" where
  "PgDoormanSpec_DeepCopyInto x =
     bindS (copy_map pools_slot deref_DeepCopy (md_Pools x)) (\<lambda>pools.
     bindS (copy_ptr general_slot general_zero GeneralSpec_DeepCopyInto (md_General x)) (\<lambda>general.
     bindS (copy_ptr prometheus_slot prometheus_zero PrometheusSpec_DeepCopyInto (md_Prometheus x)) (\<lambda>prometheus.
     retS (x\<lparr>md_Pools := pools, md_General := general, md_Prometheus := prometheus\<rparr>))))"

definition PgDoormanSpec_DeepCopy :: "('k, addr option) copying" where
  "PgDoormanSpec_DeepCopy = copy_ptr spec_slot spec_zero PgDoormanSpec_DeepCopyInto"

definition PgDoormanStatus_DeepCopyInto :: "'k machinery \<Rightarrow> ('k, PgDoormanStatus_mem) copying" where
  "PgDoormanStatus_DeepCopyInto K x =
     bindS (copy_slice conditions_slot (km_Condition_zero K) (km_Condition K) (mt_Conditions x)) (\<lambda>conditions.
     retS (x\<lparr>mt_Conditions := conditions\<rparr>))"

definition PgDoormanStatus_DeepCopy :: "'k machinery \<Rightarrow> ('k, addr option) copying" where
  "PgDoormanStatus_DeepCopy K = copy_ptr status_slot status_zero (PgDoormanStatus_DeepCopyInto K)"

definition PgDoorman_DeepCopyInto :: "'k machinery \<Rightarrow> ('k, 'k PgDoorman_mem) copying" where
  "PgDoorman_DeepCopyInto K x =
     bindS (km_ObjectMeta K (mo_ObjectMeta x)) (\<lambda>meta.
     bindS (PgDoormanSpec_DeepCopyInto (mo_Spec x)) (\<lambda>spec.
     bindS (PgDoormanStatus_DeepCopyInto K (mo_Status x)) (\<lambda>status.
     retS (x\<lparr>mo_ObjectMeta := meta, mo_Spec := spec, mo_Status := status\<rparr>))))"

definition PgDoorman_DeepCopy :: "'k machinery \<Rightarrow> ('k, addr option) copying" where
  "PgDoorman_DeepCopy K = copy_ptr doorman_slot (doorman_zero (km_ObjectMeta_zero K)) (PgDoorman_DeepCopyInto K)"

text \<open>The same pointer as a \<open>runtime.Object\<close>; a nil pointer becomes the nil interface, not an interface that holds nil.\<close>

datatype runtime_Object = NilObject | ObjectAt addr

definition PgDoorman_DeepCopyObject :: "'k machinery \<Rightarrow> addr option \<Rightarrow> ('k cell, runtime_Object) mem" where
  "PgDoorman_DeepCopyObject K p =
     bindS (PgDoorman_DeepCopy K p) (\<lambda>c. retS (case c of None \<Rightarrow> NilObject | Some a \<Rightarrow> ObjectAt a))"

definition PgDoormanList_DeepCopyInto :: "'k machinery \<Rightarrow> ('k, 'k PgDoormanList_mem) copying" where
  "PgDoormanList_DeepCopyInto K x =
     bindS (km_ListMeta K (ml_ListMeta x)) (\<lambda>meta.
     bindS (copy_slice items_slot (doorman_zero (km_ObjectMeta_zero K)) (PgDoorman_DeepCopyInto K) (ml_Items x)) (\<lambda>items.
     retS (x\<lparr>ml_ListMeta := meta, ml_Items := items\<rparr>)))"

definition PgDoormanList_DeepCopy :: "'k machinery \<Rightarrow> ('k, addr option) copying" where
  "PgDoormanList_DeepCopy K = copy_ptr list_slot (list_zero (km_ListMeta_zero K)) (PgDoormanList_DeepCopyInto K)"

definition PgDoormanList_DeepCopyObject :: "'k machinery \<Rightarrow> addr option \<Rightarrow> ('k cell, runtime_Object) mem" where
  "PgDoormanList_DeepCopyObject K p =
     bindS (PgDoormanList_DeepCopy K p) (\<lambda>c. retS (case c of None \<Rightarrow> NilObject | Some a \<Rightarrow> ObjectAt a))"

section \<open>What the structs stand for\<close>

type_synonym ('k, 'a, 'v) viewing = "'k cell list \<Rightarrow> 'a \<Rightarrow> 'v seen"

abbreviation view_int :: "('k, addr option, int option) viewing" where "view_int \<equiv> view_ptr int_slot flat"
abbreviation view_bool :: "('k, addr option, bool option) viewing" where "view_bool \<equiv> view_ptr bool_slot flat"
abbreviation view_key :: "('k, addr option, SecretKeySelector option) viewing" where "view_key \<equiv> view_ptr key_slot flat"

definition view_auth :: "('k, AuthQuerySpec_mem, AuthQuerySpec) viewing" where
  "view_auth h x = seen_map
     (\<lambda>(ref, size). \<lparr>aq_User = mq_User x, aq_Query = mq_Query x, aq_PasswordSecretRef = ref,
        aq_Database = mq_Database x, aq_PoolSize = size\<rparr>)
     (view_pair view_key view_int h (mq_PasswordSecretRef x, mq_PoolSize x))"

definition view_user :: "('k, UserSpec_mem, UserSpec) viewing" where
  "view_user h x = seen_map
     (\<lambda>size. \<lparr>us_Username = mu_Username x, us_PasswordSecretRef = mu_PasswordSecretRef x, us_PoolSize = size\<rparr>)
     (view_int h (mu_PoolSize x))"

definition view_pool :: "('k, PoolSpec_mem, PoolSpec) viewing" where
  "view_pool h x = seen_map
     (\<lambda>(size, aq, users). \<lparr>pl_PoolMode = mp_PoolMode x, pl_DefaultPoolSize = size, pl_AuthQuery = aq,
        pl_Users = or_empty users\<rparr>)
     (view_pair view_int (view_pair (view_ptr auth_slot view_auth) (view_slice users_slot view_user)) h
       (mp_DefaultPoolSize x, mp_AuthQuery x, mp_Users x))"

definition view_general :: "('k, GeneralSpec_mem, GeneralSpec) viewing" where
  "view_general h x = seen_map
     (\<lambda>(maxc, threads, ref). \<lparr>gs_MaxConnections = maxc, gs_WorkerThreads = threads,
        gs_ConnectTimeout = mg_ConnectTimeout x, gs_IdleTimeout = mg_IdleTimeout x, gs_ServerLifetime = mg_ServerLifetime x,
        gs_ShutdownTimeout = mg_ShutdownTimeout x, gs_AdminUsername = mg_AdminUsername x, gs_AdminPasswordSecretRef = ref\<rparr>)
     (view_pair view_int (view_pair view_int view_key) h
       (mg_MaxConnections x, mg_WorkerThreads x, mg_AdminPasswordSecretRef x))"

definition view_prometheus :: "('k, PrometheusSpec_mem, PrometheusSpec) viewing" where
  "view_prometheus h x = seen_map (\<lambda>e. \<lparr>pr_Enabled = e\<rparr>) (view_bool h (mr_Enabled x))"

definition view_spec :: "('k, PgDoormanSpec_mem, PgDoormanSpec) viewing" where
  "view_spec h x = seen_map
     (\<lambda>(pools, general, prometheus). \<lparr>ds_ClusterRef = md_ClusterRef x, ds_Pools = or_empty pools,
        ds_General = general, ds_Prometheus = prometheus\<rparr>)
     (view_pair (view_map pools_slot view_pool)
       (view_pair (view_ptr general_slot view_general) (view_ptr prometheus_slot view_prometheus)) h
       (md_Pools x, md_General x, md_Prometheus x))"

text \<open>Whole objects, given how the library's values read.\<close>

record ('m, 'd) PgDoorman_value =
  ov_TypeMeta :: TypeMeta
  ov_ObjectMeta :: 'm
  ov_Spec :: PgDoormanSpec
  ov_ObservedGeneration :: int
  ov_Conditions :: "'d list"

definition view_status :: "('k, 'k, 'd) viewing \<Rightarrow> ('k, PgDoormanStatus_mem, int \<times> 'd list) viewing" where
  "view_status view_condition h x = seen_map (\<lambda>cs. (mt_ObservedGeneration x, or_empty cs))
     (view_slice conditions_slot view_condition h (mt_Conditions x))"

definition view_doorman ::
  "('k, 'k, 'm) viewing \<Rightarrow> ('k, 'k, 'd) viewing \<Rightarrow> ('k, 'k PgDoorman_mem, ('m, 'd) PgDoorman_value) viewing" where
  "view_doorman view_meta view_condition h x = seen_map
     (\<lambda>(meta, spec, generation, conditions). \<lparr>ov_TypeMeta = mo_TypeMeta x, ov_ObjectMeta = meta, ov_Spec = spec,
        ov_ObservedGeneration = generation, ov_Conditions = conditions\<rparr>)
     (view_pair view_meta (view_pair view_spec (view_status view_condition)) h
       (mo_ObjectMeta x, mo_Spec x, mo_Status x))"

definition view_doorman_list ::
  "('k, 'k, 'm) viewing \<Rightarrow> ('k, 'k, 'l) viewing \<Rightarrow> ('k, 'k, 'd) viewing \<Rightarrow>
   ('k, 'k PgDoormanList_mem, TypeMeta \<times> 'l \<times> ('m, 'd) PgDoorman_value list) viewing" where
  "view_doorman_list view_meta view_list_meta view_condition h x = seen_map
     (\<lambda>(meta, items). (ml_TypeMeta x, meta, or_empty items))
     (view_pair view_list_meta (view_slice items_slot (view_doorman view_meta view_condition)) h
       (ml_ListMeta x, ml_Items x))"

section \<open>Every generated function copies\<close>

lemma wf_slots [simp]:
  "wf_slot int_slot" "wf_slot bool_slot" "wf_slot key_slot" "wf_slot auth_slot" "wf_slot user_slot" "wf_slot users_slot"
  "wf_slot pool_slot" "wf_slot pools_slot" "wf_slot general_slot" "wf_slot prometheus_slot" "wf_slot spec_slot"
  "wf_slot status_slot" "wf_slot conditions_slot" "wf_slot doorman_slot" "wf_slot items_slot" "wf_slot list_slot"
  by (simp_all add: wf_slot_def slot_defs)

lemma flat_copier: "wf_slot S \<Longrightarrow> copier (view_ptr S flat) (copy_ptr S zero retS)"
  by (rule copier.ptr_copier [OF copier_flat])

lemmas part_copiers = copier.pair_copier flat_copier copier.ptr_copier copier.slice_copier copier.map_copier

interpretation auth: copier view_auth AuthQuerySpec_DeepCopyInto
proof -
  have parts: "copier (view_pair view_key view_int)
      (pair_op (copy_ptr key_slot key_zero retS) (copy_ptr int_slot 0 retS))"
    by (intro part_copiers) simp_all
  show "copier view_auth AuthQuerySpec_DeepCopyInto"
    by (rule copier.struct_copier [OF parts, where put = "\<lambda>x p. x\<lparr>mq_PasswordSecretRef := fst p, mq_PoolSize := snd p\<rparr>"], rule view_auth_def)
      (simp_all add: AuthQuerySpec_DeepCopyInto_def pair_op_def bindS_assoc del: retS_apply)
qed

interpretation user: copier view_user UserSpec_DeepCopyInto
proof -
  have parts: "copier view_int (copy_ptr int_slot 0 retS)"
    by (intro part_copiers) simp_all
  show "copier view_user UserSpec_DeepCopyInto"
    by (rule copier.struct_copier [OF parts, where put = "\<lambda>x p. x\<lparr>mu_PoolSize := p\<rparr>"], rule view_user_def)
      (simp_all add: UserSpec_DeepCopyInto_def pair_op_def bindS_assoc del: retS_apply)
qed

interpretation pool: copier view_pool PoolSpec_DeepCopyInto
proof -
  have parts: "copier (view_pair view_int (view_pair (view_ptr auth_slot view_auth) (view_slice users_slot view_user)))
      (pair_op (copy_ptr int_slot 0 retS) (pair_op (copy_ptr auth_slot auth_zero AuthQuerySpec_DeepCopyInto)
        (copy_slice users_slot user_zero UserSpec_DeepCopyInto)))"
    by (intro part_copiers auth.copier_axioms user.copier_axioms) simp_all
  show "copier view_pool PoolSpec_DeepCopyInto"
    by (rule copier.struct_copier [OF parts, where put = "\<lambda>x p. x\<lparr>mp_DefaultPoolSize := fst p, mp_AuthQuery := fst (snd p), mp_Users := snd (snd p)\<rparr>"], rule view_pool_def)
      (simp_all add: PoolSpec_DeepCopyInto_def pair_op_def bindS_assoc del: retS_apply)
qed

interpretation general: copier view_general GeneralSpec_DeepCopyInto
proof -
  have parts: "copier (view_pair view_int (view_pair view_int view_key))
      (pair_op (copy_ptr int_slot 0 retS) (pair_op (copy_ptr int_slot 0 retS) (copy_ptr key_slot key_zero retS)))"
    by (intro part_copiers) simp_all
  show "copier view_general GeneralSpec_DeepCopyInto"
    by (rule copier.struct_copier [OF parts, where put = "\<lambda>x p. x\<lparr>mg_MaxConnections := fst p, mg_WorkerThreads := fst (snd p), mg_AdminPasswordSecretRef := snd (snd p)\<rparr>"], rule view_general_def)
      (simp_all add: GeneralSpec_DeepCopyInto_def pair_op_def bindS_assoc del: retS_apply)
qed

interpretation prometheus: copier view_prometheus PrometheusSpec_DeepCopyInto
proof -
  have parts: "copier view_bool (copy_ptr bool_slot False retS)"
    by (intro part_copiers) simp_all
  show "copier view_prometheus PrometheusSpec_DeepCopyInto"
    by (rule copier.struct_copier [OF parts, where put = "\<lambda>x p. x\<lparr>mr_Enabled := p\<rparr>"], rule view_prometheus_def)
      (simp_all add: PrometheusSpec_DeepCopyInto_def pair_op_def bindS_assoc del: retS_apply)
qed

lemma deref_DeepCopy_eq: "deref_DeepCopy = (\<lambda>x. bindS (new pool_slot x) (\<lambda>val.
    bindS (copy_new pool_slot pool_zero PoolSpec_DeepCopyInto val) (load pool_slot)))"
  by (simp add: fun_eq_iff deref_DeepCopy_def PoolSpec_DeepCopy_def copy_ptr_def bindS_assoc del: retS_apply)

interpretation deref: copier view_pool deref_DeepCopy
  unfolding deref_DeepCopy_eq by (rule pool.deref_copier) simp

interpretation spec: copier view_spec PgDoormanSpec_DeepCopyInto
proof -
  have parts: "copier (view_pair (view_map pools_slot view_pool)
        (view_pair (view_ptr general_slot view_general) (view_ptr prometheus_slot view_prometheus)))
      (pair_op (copy_map pools_slot deref_DeepCopy) (pair_op (copy_ptr general_slot general_zero GeneralSpec_DeepCopyInto)
        (copy_ptr prometheus_slot prometheus_zero PrometheusSpec_DeepCopyInto)))"
    by (intro part_copiers deref.copier_axioms general.copier_axioms prometheus.copier_axioms) simp_all
  show "copier view_spec PgDoormanSpec_DeepCopyInto"
    by (rule copier.struct_copier [OF parts, where put = "\<lambda>x p. x\<lparr>md_Pools := fst p, md_General := fst (snd p), md_Prometheus := snd (snd p)\<rparr>"], rule view_spec_def)
      (simp_all add: PgDoormanSpec_DeepCopyInto_def pair_op_def bindS_assoc del: retS_apply)
qed

text \<open>The types with library parts copy when those do.\<close>

lemma status_copier:
  assumes "copier view_condition (km_Condition K)"
  shows "copier (view_status view_condition) (PgDoormanStatus_DeepCopyInto K)"
proof -
  have parts: "copier (view_slice conditions_slot view_condition)
      (copy_slice conditions_slot (km_Condition_zero K) (km_Condition K))"
    by (intro part_copiers assms) simp_all
  show ?thesis
    by (rule copier.struct_copier [OF parts, where put = "\<lambda>x p. x\<lparr>mt_Conditions := p\<rparr>"], rule view_status_def)
      (simp_all add: PgDoormanStatus_DeepCopyInto_def pair_op_def bindS_assoc del: retS_apply)
qed

lemma doorman_copier:
  assumes "copier view_meta (km_ObjectMeta K)" "copier view_condition (km_Condition K)"
  shows "copier (view_doorman view_meta view_condition) (PgDoorman_DeepCopyInto K)"
proof -
  have parts: "copier (view_pair view_meta (view_pair view_spec (view_status view_condition)))
      (pair_op (km_ObjectMeta K) (pair_op PgDoormanSpec_DeepCopyInto (PgDoormanStatus_DeepCopyInto K)))"
    by (intro part_copiers spec.copier_axioms status_copier assms)
  show ?thesis
    by (rule copier.struct_copier [OF parts, where put = "\<lambda>x p. x\<lparr>mo_ObjectMeta := fst p, mo_Spec := fst (snd p), mo_Status := snd (snd p)\<rparr>"], rule view_doorman_def)
      (simp_all add: PgDoorman_DeepCopyInto_def pair_op_def bindS_assoc del: retS_apply)
qed

lemma list_copier:
  assumes "copier view_meta (km_ObjectMeta K)" "copier view_list_meta (km_ListMeta K)"
    and "copier view_condition (km_Condition K)"
  shows "copier (view_doorman_list view_meta view_list_meta view_condition) (PgDoormanList_DeepCopyInto K)"
proof -
  have parts: "copier (view_pair view_list_meta (view_slice items_slot (view_doorman view_meta view_condition)))
      (pair_op (km_ListMeta K) (copy_slice items_slot (doorman_zero (km_ObjectMeta_zero K)) (PgDoorman_DeepCopyInto K)))"
    by (intro part_copiers doorman_copier assms) simp_all
  show ?thesis
    by (rule copier.struct_copier [OF parts, where put = "\<lambda>x p. x\<lparr>ml_ListMeta := fst p, ml_Items := snd p\<rparr>"], rule view_doorman_list_def)
      (simp_all add: PgDoormanList_DeepCopyInto_def pair_op_def bindS_assoc del: retS_apply)
qed

section \<open>Copies are isolated\<close>

text \<open>(C20) A deep copy is one. For every \<open>PgDoorman\<close> in memory, with any sharing among its pointers, \<open>DeepCopy\<close> returns (nil
  exactly for nil) without writing a cell that existed; the copy reads as the original does and has no cell in common with it or twice;
  whatever is then done to the cells of the original leaves the copy as it is, and the other way round. The controller relies on it when it
  takes a copy as the base of a patch and changes the object. The library's own copies of metadata and conditions are assumed to be
  deep.\<close>

theorem PgDoorman_DeepCopy_isolated:
  assumes "copier view_meta (km_ObjectMeta K)" "copier view_condition (km_Condition K)"
    and "view_ptr doorman_slot (view_doorman view_meta view_condition) h p = Some (v, A)"
  shows "\<exists>q h' B. PgDoorman_DeepCopy K p h = (Inr q, h') \<and> prefix h h' \<and> (q = None \<longleftrightarrow> p = None) \<and>
    view_ptr doorman_slot (view_doorman view_meta view_condition) h' q = Some (v, B) \<and>
    distinct B \<and> set A \<inter> set B = {} \<and>
    (\<forall>h2. touches (set A) h' h2 \<longrightarrow>
       view_ptr doorman_slot (view_doorman view_meta view_condition) h2 q = Some (v, B)) \<and>
    (\<forall>h2. touches (set B) h' h2 \<longrightarrow>
       view_ptr doorman_slot (view_doorman view_meta view_condition) h2 p = Some (v, A))"
  unfolding PgDoorman_DeepCopy_def
  by (rule copier.ptr_isolated [OF doorman_copier [OF assms(1,2)] _ assms(3)]) simp

text \<open>The same for lists, and for the interface values of \<open>DeepCopyObject\<close>.\<close>

lemma PgDoormanList_DeepCopy_isolated:
  assumes "copier view_meta (km_ObjectMeta K)" "copier view_list_meta (km_ListMeta K)"
    and "copier view_condition (km_Condition K)"
    and "view_ptr list_slot (view_doorman_list view_meta view_list_meta view_condition) h p = Some (v, A)"
  shows "\<exists>q h' B. PgDoormanList_DeepCopy K p h = (Inr q, h') \<and> prefix h h' \<and> (q = None \<longleftrightarrow> p = None) \<and>
    view_ptr list_slot (view_doorman_list view_meta view_list_meta view_condition) h' q = Some (v, B) \<and>
    distinct B \<and> set A \<inter> set B = {}"
  using copier.ptr_isolated [OF list_copier [OF assms(1-3)] _ assms(4), of "list_zero (km_ListMeta_zero K)"]
  unfolding PgDoormanList_DeepCopy_def by fastforce

lemma DeepCopyObject_nil:
  "PgDoorman_DeepCopyObject K None h = (Inr NilObject, h)"
  "PgDoormanList_DeepCopyObject K None h = (Inr NilObject, h)"
  by (simp_all add: PgDoorman_DeepCopyObject_def PgDoormanList_DeepCopyObject_def PgDoorman_DeepCopy_def
      PgDoormanList_DeepCopy_def copy_ptr_def)

section \<open>Instance\<close>

text \<open>A library whose values have no pointers.\<close>

definition plain_machinery :: "string machinery" where
  "plain_machinery =
     \<lparr>km_ObjectMeta_zero = [], km_ListMeta_zero = [], km_Condition_zero = [],
      km_ObjectMeta = retS, km_ListMeta = retS, km_Condition = retS\<rparr>"

definition example_object :: "string cell list" where
  "example_object =
     [CPools [(''p'', pool_zero)], CConditions [''Rendered''],
      CDoorman \<lparr>mo_TypeMeta = type_zero, mo_ObjectMeta = ''doorman'',
        mo_Spec = \<lparr>md_ClusterRef = ''pg'', md_Pools = Some 0, md_General = None, md_Prometheus = None\<rparr>,
        mo_Status = \<lparr>mt_ObservedGeneration = 1, mt_Conditions = Some 1\<rparr>\<rparr>]"

theorem PgDoorman_DeepCopy_witness:
  "\<exists>v q h' B. PgDoorman_DeepCopy plain_machinery (Some 2) example_object = (Inr (Some q), h') \<and>
    view_ptr doorman_slot (view_doorman flat flat) example_object (Some 2) = Some (Some v, [2, 0, 1]) \<and>
    ov_Conditions v = [''Rendered''] \<and>
    view_ptr doorman_slot (view_doorman flat flat) h' (Some q) = Some (Some v, B) \<and> {2, 0, 1} \<inter> set B = {}"
proof -
  have k: "copier flat (km_ObjectMeta plain_machinery)" "copier flat (km_Condition plain_machinery)"
    by (simp_all add: plain_machinery_def copier_flat)
  have "map_option (\<lambda>(v, A). (map_option ov_Conditions v, A))
      (view_ptr doorman_slot (view_doorman flat flat) example_object (Some 2)) = Some (Some [''Rendered''], [2, 0, 1])"
    by code_simp
  then obtain v where v: "view_ptr doorman_slot (view_doorman flat flat) example_object (Some 2) = Some (Some v, [2, 0, 1])"
    "ov_Conditions v = [''Rendered'']" by (auto simp del: view_ptr_Some)
  from PgDoorman_DeepCopy_isolated [OF k v(1)] obtain q h' B where
    "PgDoorman_DeepCopy plain_machinery (Some 2) example_object = (Inr q, h')" "q \<noteq> None"
    "view_ptr doorman_slot (view_doorman flat flat) h' q = Some (Some v, B)" "{2, 0, 1} \<inter> set B = {}" by auto
  with v show ?thesis by (cases q) (auto simp del: view_ptr_Some)
qed

end
