(* ===== verification/Heap_Defaults.thy ===== *)
theory Heap_Defaults
  imports Deep_Copy Specs
begin

text \<open>
  The functions that take a deep copy of a spec and write into it through its pointers, in memory: \<open>ApplyDefaults\<close>
  (\<open>api/v1alpha1/defaults.go\<close>), the beginning of \<open>Generate\<close> (\<open>internal/configgen/configgen.go\<close>) and \<open>DefaultAuthSecretRefs\<close>
  (\<open>internal/specs/authsecrets.go\<close>). The other theories treat specs as values; the theorems here justify that: in memory the
  functions compute what their value-level versions \<open>ApplyDefaults\<close> and \<open>DefaultAuthSecretRefs\<close> compute, and the caller's spec, which lives in
  the informer cache, is not written.
\<close>

section \<open>Defaults in place\<close>

definition default_general_mem :: "('k, GeneralSpec_mem) copying" where
  "default_general_mem g =
     bindS (default_ptr int_slot DefaultMaxConnections (mg_MaxConnections g)) (\<lambda>maxc.
     bindS (default_ptr int_slot DefaultWorkerThreads (mg_WorkerThreads g)) (\<lambda>threads.
     retS (g\<lparr>mg_MaxConnections := maxc, mg_WorkerThreads := threads,
       mg_ConnectTimeout := or_str DefaultConnectTimeout (mg_ConnectTimeout g),
       mg_IdleTimeout := or_str DefaultIdleTimeout (mg_IdleTimeout g),
       mg_ServerLifetime := or_str DefaultServerLifetime (mg_ServerLifetime g),
       mg_ShutdownTimeout := or_str DefaultShutdownTimeout (mg_ShutdownTimeout g),
       mg_AdminUsername := or_str DefaultAdminUsername (mg_AdminUsername g)\<rparr>)))"

definition default_prometheus_mem :: "('k, PrometheusSpec_mem) copying" where
  "default_prometheus_mem x =
     bindS (default_ptr bool_slot True (mr_Enabled x)) (\<lambda>enabled. retS (x\<lparr>mr_Enabled := enabled\<rparr>))"

definition default_auth_query_mem :: "('k, AuthQuerySpec_mem) copying" where
  "default_auth_query_mem x =
     bindS (default_ptr int_slot DefaultAuthQueryPoolSize (mq_PoolSize x)) (\<lambda>size.
     retS (x\<lparr>mq_Query := or_str DefaultAuthQueryQuery (mq_Query x),
       mq_Database := or_str DefaultAuthQueryDatabase (mq_Database x), mq_PoolSize := size\<rparr>))"

definition default_user_mem :: "('k, UserSpec_mem) copying" where
  "default_user_mem x =
     bindS (default_ptr int_slot DefaultUserPoolSize (mu_PoolSize x)) (\<lambda>size. retS (x\<lparr>mu_PoolSize := size\<rparr>))"

text \<open>The loop variable \<open>pool\<close> is a copy of the struct; its auth query and users are reached through pointers.\<close>

definition default_pool_mem :: "('k, PoolSpec_mem) copying" where
  "default_pool_mem pool =
     bindS (default_ptr int_slot DefaultDefaultPoolSize (mp_DefaultPoolSize pool)) (\<lambda>size.
     bindS (with_ptr (update_at auth_slot default_auth_query_mem) (mp_AuthQuery pool)) (\<lambda>aq.
     bindS (with_ptr (each_elem users_slot default_user_mem) (mp_Users pool)) (\<lambda>users.
     retS (pool\<lparr>mp_PoolMode := or_str DefaultPoolMode (mp_PoolMode pool), mp_DefaultPoolSize := size,
       mp_AuthQuery := aq, mp_Users := users\<rparr>))))"

definition default_spec_mem :: "('k, PgDoormanSpec_mem) copying" where
  "default_spec_mem x =
     bindS (bindS (default_ptr general_slot general_zero (md_General x))
       (with_ptr (update_at general_slot default_general_mem))) (\<lambda>general.
     bindS (bindS (default_ptr prometheus_slot prometheus_zero (md_Prometheus x))
       (with_ptr (update_at prometheus_slot default_prometheus_mem))) (\<lambda>prometheus.
     bindS (with_ptr (each_entry pools_slot default_pool_mem) (md_Pools x)) (\<lambda>pools.
     retS (x\<lparr>md_General := general, md_Prometheus := prometheus, md_Pools := pools\<rparr>))))"

definition ApplyDefaults_mem :: "addr \<Rightarrow> ('k cell, addr) mem" where
  "ApplyDefaults_mem = update_at spec_slot default_spec_mem"

section \<open>It is the value-level function\<close>

lemma or_ptr_eq: "or_ptr d = (\<lambda>p. case p of None \<Rightarrow> Some d | Some v \<Rightarrow> Some v)"
  by (simp add: fun_eq_iff or_ptr_def)

lemma default_flat: "wf_slot S \<Longrightarrow> mutator (view_ptr S flat) (default_ptr S d) (or_ptr d)"
  unfolding or_ptr_eq by (rule viewer.default_ptr_mutator [OF viewer_flat]) (simp_all add: flat_def)

interpretation auth_default: mutator view_auth default_auth_query_mem default_auth_query
proof -
  have parts: "mutator (view_pair view_key view_int) (pair_op retS (default_ptr int_slot DefaultAuthQueryPoolSize))
      (map_prod (\<lambda>v. v) (or_ptr DefaultAuthQueryPoolSize))"
    by (intro mutator.pair_mutator mutator_id default_flat viewer.ptr viewer_flat) simp
  show "mutator view_auth default_auth_query_mem default_auth_query"
    by (rule mutator.struct_mutator [OF parts, where put = "\<lambda>x p. x\<lparr>mq_Query := or_str DefaultAuthQueryQuery (mq_Query x),
          mq_Database := or_str DefaultAuthQueryDatabase (mq_Database x), mq_PasswordSecretRef := fst p, mq_PoolSize := snd p\<rparr>"],
        rule view_auth_def)
      (simp_all add: default_auth_query_mem_def default_auth_query_def pair_op_def bindS_assoc case_prod_unfold del: retS_apply)
qed

interpretation user_default: mutator view_user default_user_mem default_user
proof -
  have parts: "mutator view_int (default_ptr int_slot DefaultUserPoolSize) (or_ptr DefaultUserPoolSize)"
    by (intro default_flat) simp
  show "mutator view_user default_user_mem default_user"
    by (rule mutator.struct_mutator [OF parts, where put = "\<lambda>x p. x\<lparr>mu_PoolSize := p\<rparr>"], rule view_user_def)
      (simp_all add: default_user_mem_def default_user_def pair_op_def bindS_assoc case_prod_unfold del: retS_apply)
qed

interpretation general_default: mutator view_general default_general_mem default_general
proof -
  have parts: "mutator (view_pair view_int (view_pair view_int view_key))
      (pair_op (default_ptr int_slot DefaultMaxConnections) (pair_op (default_ptr int_slot DefaultWorkerThreads) retS))
      (map_prod (or_ptr DefaultMaxConnections) (map_prod (or_ptr DefaultWorkerThreads) (\<lambda>v. v)))"
    by (intro mutator.pair_mutator mutator_id default_flat viewer.ptr viewer_flat) simp_all
  show "mutator view_general default_general_mem default_general"
    by (rule mutator.struct_mutator [OF parts, where put = "\<lambda>x p. x\<lparr>mg_MaxConnections := fst p, mg_WorkerThreads := fst (snd p), mg_AdminPasswordSecretRef := snd (snd p),
          mg_ConnectTimeout := or_str DefaultConnectTimeout (mg_ConnectTimeout x),
          mg_IdleTimeout := or_str DefaultIdleTimeout (mg_IdleTimeout x),
          mg_ServerLifetime := or_str DefaultServerLifetime (mg_ServerLifetime x),
          mg_ShutdownTimeout := or_str DefaultShutdownTimeout (mg_ShutdownTimeout x),
          mg_AdminUsername := or_str DefaultAdminUsername (mg_AdminUsername x)\<rparr>"], rule view_general_def)
      (simp_all add: default_general_mem_def default_general_def pair_op_def bindS_assoc case_prod_unfold del: retS_apply)
qed

definition enable :: "PrometheusSpec \<Rightarrow> PrometheusSpec" where
  "enable q = q\<lparr>pr_Enabled := or_ptr True (pr_Enabled q)\<rparr>"

interpretation prometheus_default: mutator view_prometheus default_prometheus_mem enable
proof -
  have parts: "mutator view_bool (default_ptr bool_slot True) (or_ptr True)"
    by (intro default_flat) simp
  show "mutator view_prometheus default_prometheus_mem enable"
    by (rule mutator.struct_mutator [OF parts, where put = "\<lambda>x p. x\<lparr>mr_Enabled := p\<rparr>"], rule view_prometheus_def)
      (simp_all add: default_prometheus_mem_def enable_def pair_op_def bindS_assoc case_prod_unfold del: retS_apply)
qed

lemma slice_default:
  "mutator (view_slice users_slot view_user) (with_ptr (each_elem users_slot default_user_mem)) (map_option (map default_user))"
  unfolding view_slice_def
  by (intro with_ptr_mutator user.elems user_default.elem_mutator) simp

lemma or_empty_map [simp]: "or_empty (map_option (map f) xs) = map f (or_empty xs)"
  by (simp add: or_empty_def split: option.split)

interpretation pool_default: mutator view_pool default_pool_mem default_pool
proof -
  have parts: "mutator (view_pair view_int (view_pair (view_ptr auth_slot view_auth) (view_slice users_slot view_user)))
      (pair_op (default_ptr int_slot DefaultDefaultPoolSize)
        (pair_op (with_ptr (update_at auth_slot default_auth_query_mem)) (with_ptr (each_elem users_slot default_user_mem))))
      (map_prod (or_ptr DefaultDefaultPoolSize) (map_prod (map_option default_auth_query) (map_option (map default_user))))"
    by (intro mutator.pair_mutator default_flat slice_default with_ptr_mutator auth_default.at_mutator auth.viewer_axioms) simp_all
  show "mutator view_pool default_pool_mem default_pool"
    by (rule mutator.struct_mutator [OF parts, where put = "\<lambda>x p. x\<lparr>mp_PoolMode := or_str DefaultPoolMode (mp_PoolMode x), mp_DefaultPoolSize := fst p,
          mp_AuthQuery := fst (snd p), mp_Users := snd (snd p)\<rparr>"], rule view_pool_def)
      (simp_all add: default_pool_mem_def default_pool_def pair_op_def bindS_assoc case_prod_unfold or_empty_map del: retS_apply)
qed

text \<open>The order in which the parts of a struct are read does not matter.\<close>

lemma mutator_reorder:
  assumes "mutator view1 op f" "viewer view2"
    and "\<And>h x v A. view2 h x = Some (v, A) \<Longrightarrow> \<exists>A'. view1 h x = Some (v, A') \<and> mset A' = mset A"
    and "\<And>h x v A. view1 h x = Some (v, A) \<Longrightarrow> \<exists>A'. view2 h x = Some (v, A') \<and> mset A' = mset A"
  shows "mutator view2 op f"
proof (rule mutatorI [OF assms(2)])
  fix h x v A
  assume v: "view2 h x = Some (v, A)" "distinct A"
  from assms(3) [OF v(1)] obtain A1 where A1: "view1 h x = Some (v, A1)" "mset A1 = mset A" by blast
  then have A: "set A1 = set A" "distinct A1" using v(2) mset_eq_setD mset_eq_imp_distinct_iff by blast+
  from mutator.mutates [OF assms(1) A1(1) A(2)] obtain y h' B where r: "op x h = (Inr y, h')"
    "touches (set A1) h h'" "view1 h' y = Some (f v, B)" "owned (set A1) h h' B" .
  from assms(4) [OF r(3)] obtain B' where B: "view2 h' y = Some (f v, B')" "mset B' = mset B" by blast
  then have "set B' = set B" "distinct B' = distinct B" using mset_eq_setD mset_eq_imp_distinct_iff by blast+
  with r(4) A(1) have "owned (set A) h h' B'" by (simp add: owned_def)
  with r A(1) B(1) show "\<exists>y h' B. op x h = (Inr y, h') \<and> touches (set A) h h' \<and> view2 h' y = Some (f v, B) \<and>
      owned (set A) h h' B" by auto
qed

definition view_spec_rotated :: "('k, PgDoormanSpec_mem, PgDoormanSpec) viewing" where
  "view_spec_rotated h x = seen_map
     (\<lambda>(general, prometheus, pools). \<lparr>ds_ClusterRef = md_ClusterRef x, ds_Pools = or_empty pools,
        ds_General = general, ds_Prometheus = prometheus\<rparr>)
     (view_pair (view_ptr general_slot view_general)
       (view_pair (view_ptr prometheus_slot view_prometheus) (view_map pools_slot view_pool)) h
       (md_General x, md_Prometheus x, md_Pools x))"

lemma view_spec_rotate:
  "view_spec h x = Some (v, A) \<Longrightarrow> \<exists>A'. view_spec_rotated h x = Some (v, A') \<and> mset A' = mset A"
  "view_spec_rotated h x = Some (v, A) \<Longrightarrow> \<exists>A'. view_spec h x = Some (v, A') \<and> mset A' = mset A"
  by (auto simp: view_spec_def view_spec_rotated_def view_pair_def)

lemma ensured:
  assumes "wf_slot S" "viewer view" "\<And>h. view h zero = Some (d, [])" "mutator view op f"
  shows "mutator (view_ptr S view) (\<lambda>p. bindS (default_ptr S zero p) (with_ptr (update_at S op)))
    (\<lambda>p. Some (f (case p of None \<Rightarrow> d | Some v \<Rightarrow> v)))"
proof -
  from mutator.seq_mutator [OF viewer.default_ptr_mutator [OF assms(2,1,3)]
      with_ptr_mutator [OF assms(2) mutator.at_mutator [OF assms(4,1)]]]
  have "mutator (view_ptr S view) (\<lambda>p. bindS (default_ptr S zero p) (with_ptr (update_at S op)))
    (\<lambda>p. map_option f (case p of None \<Rightarrow> Some d | Some v \<Rightarrow> Some v))" .
  moreover have "(\<lambda>p. map_option f (case p of None \<Rightarrow> Some d | Some v \<Rightarrow> Some v)) =
      (\<lambda>p. Some (f (case p of None \<Rightarrow> d | Some v \<Rightarrow> v)))"
    by (auto simp: fun_eq_iff split: option.split)
  ultimately show ?thesis by simp
qed

lemma zero_views [simp]:
  "view_general h general_zero = Some (GeneralSpec_zero, [])"
  "view_prometheus h prometheus_zero = Some (\<lparr>pr_Enabled = None\<rparr>, [])"
  by (simp_all add: view_general_def view_prometheus_def general_zero_def prometheus_zero_def GeneralSpec_zero_def view_pair_def)

lemma map_default:
  "mutator (view_map pools_slot view_pool) (with_ptr (each_entry pools_slot default_pool_mem)) (map_option (map_vals default_pool))"
  unfolding view_map_def
  by (intro with_ptr_mutator pool.entries pool_default.entry_mutator) simp

lemma or_empty_map_vals [simp]: "or_empty (map_option (map_vals f) xs) = map_vals f (or_empty xs)"
  by (simp add: or_empty_def map_vals_def split: option.split)

lemma default_prometheus_enable:
  "default_prometheus p = enable (case p of None \<Rightarrow> \<lparr>pr_Enabled = None\<rparr> | Some q \<Rightarrow> q)"
  by (simp add: default_prometheus_def enable_def Let_def)

interpretation spec_default: mutator view_spec default_spec_mem ApplyDefaults
proof -
  have parts: "mutator (view_pair (view_ptr general_slot view_general)
        (view_pair (view_ptr prometheus_slot view_prometheus) (view_map pools_slot view_pool)))
      (pair_op (\<lambda>p. bindS (default_ptr general_slot general_zero p) (with_ptr (update_at general_slot default_general_mem)))
        (pair_op (\<lambda>p. bindS (default_ptr prometheus_slot prometheus_zero p)
            (with_ptr (update_at prometheus_slot default_prometheus_mem)))
          (with_ptr (each_entry pools_slot default_pool_mem))))
      (map_prod (\<lambda>p. Some (default_general (case p of None \<Rightarrow> GeneralSpec_zero | Some v \<Rightarrow> v)))
        (map_prod (\<lambda>p. Some (enable (case p of None \<Rightarrow> \<lparr>pr_Enabled = None\<rparr> | Some v \<Rightarrow> v)))
          (map_option (map_vals default_pool))))"
    by (intro mutator.pair_mutator ensured map_default general.viewer_axioms prometheus.viewer_axioms
        general_default.mutator_axioms prometheus_default.mutator_axioms) simp_all
  have "mutator view_spec_rotated default_spec_mem ApplyDefaults"
    by (rule mutator.struct_mutator [OF parts, where put = "\<lambda>x p. x\<lparr>md_General := fst p, md_Prometheus := fst (snd p),
          md_Pools := snd (snd p)\<rparr>"], rule view_spec_rotated_def)
      (simp_all add: default_spec_mem_def ApplyDefaults_def default_prometheus_enable pair_op_def bindS_assoc case_prod_unfold
        del: retS_apply)
  then show "mutator view_spec default_spec_mem ApplyDefaults"
    by (rule mutator_reorder [OF _ spec.viewer_axioms view_spec_rotate])
qed

section \<open>The references to the generated Secret in place\<close>

text \<open>\<open>pool.AuthQuery.PasswordSecretRef = &ref\<close>.\<close>

definition set_auth_ref :: "SecretKeySelector \<Rightarrow> ('k, AuthQuerySpec_mem) copying" where
  "set_auth_ref ref x = bindS (new key_slot ref) (\<lambda>r. retS (x\<lparr>mq_PasswordSecretRef := Some r\<rparr>))"

definition fill_ref_mem :: "SecretKeySelector \<Rightarrow> ('k, PoolSpec_mem) copying" where
  "fill_ref_mem ref pool =
     bindS (with_ptr (update_at auth_slot (set_auth_ref ref)) (mp_AuthQuery pool)) (\<lambda>aq. retS (pool\<lparr>mp_AuthQuery := aq\<rparr>))"

text \<open>The loop over \<open>normalized.Pools\<close>, the map at \<open>a\<close>; an error is returned as a value.\<close>

fun refs_loop ::
  "SecretKeySelector \<Rightarrow> addr \<Rightarrow> string \<Rightarrow> (string \<times> PoolSpec_mem) list \<Rightarrow> ('k cell, auth_ref_error + string) mem" where
  "refs_loop ref a user [] = retS (Inr user)"
| "refs_loop ref a user ((name, pool) # rest) =
     (case mp_AuthQuery pool of
        None \<Rightarrow> refs_loop ref a user rest
      | Some q \<Rightarrow> bindS (load auth_slot q) (\<lambda>aq.
          if mq_PasswordSecretRef aq \<noteq> None then refs_loop ref a user rest
          else if user \<noteq> [] \<and> mq_User aq \<noteq> user then retS (Inl (ConflictingUsers user (mq_User aq)))
          else bindS (fill_ref_mem ref pool) (\<lambda>pool'.
            bindS (load pools_slot a) (\<lambda>m. bindS (store pools_slot a (AList.update name pool' m)) (\<lambda>_.
              refs_loop ref a (mq_User aq) rest)))))"

text \<open>The part of \<open>DefaultAuthSecretRefs\<close> after the copy.\<close>

definition normalize_pools :: "addr \<Rightarrow> ('k cell, auth_ref_error + string) mem" where
  "normalize_pools q = bindS (load spec_slot q) (\<lambda>x. case md_Pools x of None \<Rightarrow> retS (Inr [])
     | Some a \<Rightarrow> bindS (load pools_slot a) (refs_loop (generated_ref (md_ClusterRef x)) a []))"

definition DefaultAuthSecretRefs_mem :: "addr option \<Rightarrow> ('k cell, auth_ref_error + (addr \<times> string)) mem" where
  "DefaultAuthSecretRefs_mem spec =
     bindS (PgDoormanSpec_DeepCopy spec) (\<lambda>p.
     case p of None \<Rightarrow> throwS BadPointer
     | Some normalized \<Rightarrow> bindS (normalize_pools normalized) (\<lambda>r. retS (and_then r (\<lambda>user. Inr (normalized, user)))))"

section \<open>The loop is the value-level one\<close>

lemma fresh_key: "mutator view_key (\<lambda>_. bindS (new key_slot ref) (\<lambda>r. retS (Some r))) (\<lambda>_. Some ref)"
proof (rule mutatorI [OF viewer.ptr [OF viewer_flat]])
  fix h :: "'a cell list" and p v A
  let ?h = "h @ [sl_put key_slot ref]"
  have "peek key_slot ?h (length h) = Some ref" by (simp add: peek_def slot_defs)
  then show "\<exists>y h' B. bindS (new key_slot ref) (\<lambda>r. retS (Some r)) h = (Inr y, h') \<and> touches (set A) h h' \<and>
      view_key h' y = Some (Some ref, B) \<and> owned (set A) h h' B"
    by (intro exI [of _ "Some (length h)"] exI [of _ ?h] exI [of _ "[length h]"])
      (simp add: mem_run flat_def owned_def)
qed

definition with_ref :: "SecretKeySelector \<Rightarrow> PoolSpec \<Rightarrow> PoolSpec" where
  "with_ref ref p = p\<lparr>pl_AuthQuery := map_option (\<lambda>a. a\<lparr>aq_PasswordSecretRef := Some ref\<rparr>) (pl_AuthQuery p)\<rparr>"

interpretation set_ref: mutator view_auth "set_auth_ref ref" "\<lambda>a. a\<lparr>aq_PasswordSecretRef := Some ref\<rparr>" for ref
proof -
  have parts: "mutator (view_pair view_key view_int)
      (pair_op (\<lambda>_. bindS (new key_slot ref) (\<lambda>r. retS (Some r))) retS) (map_prod (\<lambda>_. Some ref) (\<lambda>v. v))"
    by (intro mutator.pair_mutator fresh_key mutator_id viewer.ptr viewer_flat)
  show "mutator view_auth (set_auth_ref ref) (\<lambda>a. a\<lparr>aq_PasswordSecretRef := Some ref\<rparr>)"
    by (rule mutator.struct_mutator [OF parts, where put = "\<lambda>x p. x\<lparr>mq_PasswordSecretRef := fst p, mq_PoolSize := snd p\<rparr>"],
        rule view_auth_def)
      (simp_all add: set_auth_ref_def pair_op_def bindS_assoc case_prod_unfold del: retS_apply)
qed

interpretation fill: mutator view_pool "fill_ref_mem ref" "with_ref ref" for ref
proof -
  have parts: "mutator (view_pair view_int (view_pair (view_ptr auth_slot view_auth) (view_slice users_slot view_user)))
      (pair_op retS (pair_op (with_ptr (update_at auth_slot (set_auth_ref ref))) retS))
      (map_prod (\<lambda>v. v) (map_prod (map_option (\<lambda>a. a\<lparr>aq_PasswordSecretRef := Some ref\<rparr>)) (\<lambda>v. v)))"
    unfolding view_slice_def
    by (intro mutator.pair_mutator mutator_id with_ptr_mutator set_ref.at_mutator viewer.ptr viewer_flat auth.viewer_axioms
        user.elems) simp
  show "mutator view_pool (fill_ref_mem ref) (with_ref ref)"
    by (rule mutator.struct_mutator [OF parts, where put = "\<lambda>x p. x\<lparr>mp_DefaultPoolSize := fst p, mp_AuthQuery := fst (snd p),
          mp_Users := snd (snd p)\<rparr>"], rule view_pool_def)
      (simp_all add: fill_ref_mem_def with_ref_def pair_op_def bindS_assoc case_prod_unfold del: retS_apply)
qed

lemma view_pool_auth:
  assumes "view_pool h pool = Some (v, A)"
  shows "mp_AuthQuery pool = None \<Longrightarrow> pl_AuthQuery v = None"
    and "mp_AuthQuery pool = Some q \<Longrightarrow> \<exists>aq a. peek auth_slot h q = Some aq \<and> pl_AuthQuery v = Some a \<and>
      aq_User a = mq_User aq \<and> (aq_PasswordSecretRef a = None \<longleftrightarrow> mq_PasswordSecretRef aq = None)"
proof -
  show "mp_AuthQuery pool = None \<Longrightarrow> pl_AuthQuery v = None"
    using assms by (auto simp: view_pool_def view_pair_def)
  assume q: "mp_AuthQuery pool = Some q"
  with assms obtain a B where a: "view_at auth_slot view_auth h q = Some (a, B)" "pl_AuthQuery v = Some a"
    by (auto simp: view_pool_def view_pair_def simp del: view_at_Some)
  then obtain aq C where aq: "peek auth_slot h q = Some aq" "view_auth h aq = Some (a, C)" by auto
  from aq(2) have "aq_User a = mq_User aq" "aq_PasswordSecretRef a = None \<longleftrightarrow> mq_PasswordSecretRef aq = None"
    by (cases "mq_PasswordSecretRef aq"; auto simp: view_auth_def view_pair_def)+
  with a(2) aq(1) show "\<exists>aq a. peek auth_slot h q = Some aq \<and> pl_AuthQuery v = Some a \<and>
      aq_User a = mq_User aq \<and> (aq_PasswordSecretRef a = None \<longleftrightarrow> mq_PasswordSecretRef aq = None)" by auto
qed

text \<open>What the loop leaves behind: the verdict of the value-level loop, and on success the entries it computed.\<close>

definition refs_done ::
  "addr list \<Rightarrow> addr \<Rightarrow> (string \<times> PoolSpec_mem) list \<Rightarrow> string list \<Rightarrow> 'k cell list \<Rightarrow>
   auth_ref_error + ((string \<times> PoolSpec) list \<times> string) \<Rightarrow>
   (heap_fault + (auth_ref_error + string)) \<times> 'k cell list \<Rightarrow> bool" where
  "refs_done A a pre keys h r run \<longleftrightarrow> touches (insert a (set A)) h (snd run) \<and>
     (case r of Inl e \<Rightarrow> fst run = Inr (Inl e)
      | Inr (ps, u) \<Rightarrow> fst run = Inr (Inr u) \<and> map fst ps = keys \<and>
          (\<exists>rest B. peek pools_slot (snd run) a = Some (pre @ rest) \<and> map fst rest = keys \<and>
             view_list view_pool (snd run) (map snd rest) = Some (map snd ps, B) \<and> owned (set A) h (snd run) B))"

lemma refs_done_Nil:
  "peek pools_slot h a = Some pre \<Longrightarrow> refs_done [] a pre [] h (Inr ([], u)) (Inr (Inr u), h)"
  by (simp add: refs_done_def owned_def)

text \<open>One entry is done, by leaving it alone or by filling it; then the rest.\<close>

lemma refs_done_Cons:
  assumes rest: "refs_done A2 a (pre @ [(name, pool')]) keys h1 r run"
    and pool': "view_pool h1 pool' = Some (v', B1)" "owned (set A1) h h1 B1"
    and t: "touches (insert a (set A1)) h h1"
    and dis: "distinct (A1 @ A2)" "a \<notin> set (A1 @ A2)" "a < length h" "set (A1 @ A2) \<subseteq> {..<length h}"
  shows "refs_done (A1 @ A2) a pre (name # keys) h (and_then r (\<lambda>(ps, u). Inr ((name, v') # ps, u))) run"
proof -
  have t2: "touches (insert a (set A2)) h1 (snd run)" using rest by (simp add: refs_done_def)
  have all: "touches (insert a (set (A1 @ A2))) h (snd run)" by (rule touches_trans [OF t t2]) auto
  show ?thesis
  proof (cases r)
    case (Inl e)
    with rest all show ?thesis by (simp add: refs_done_def)
  next
    case (Inr pu)
    obtain ps u where pu: "pu = (ps, u)" by (cases pu)
    with rest Inr obtain ms B where r: "fst run = Inr (Inr u)" "map fst ps = keys" "map fst ms = keys"
      "peek pools_slot (snd run) a = Some (pre @ (name, pool') # ms)"
      "view_list view_pool (snd run) (map snd ms) = Some (map snd ps, B)" "owned (set A2) h1 (snd run) B"
      by (auto simp: refs_done_def)
    have "set B1 \<inter> insert a (set A2) = {}"
      using pool'(2) dis by (fastforce simp: owned_def)
    then have "view_pool (snd run) pool' = Some (v', B1)"
      by (intro pool.view_local [OF pool'(1) touches_agree [OF t2]])
    moreover have "owned (set (A1 @ A2)) h (snd run) (B1 @ B)"
      using owned_append [of True A1 h h1 B1 A2 "snd run" B] pool'(2) r(6) dis touches_length [OF t] touches_length [OF t2]
      by simp
    ultimately show ?thesis
      using r all Inr pu
      by (auto simp: refs_done_def intro!: exI [of _ "(name, pool') # ms"])
  qed
qed

text \<open>The body that fills an entry.\<close>

lemma fill_entry:
  fixes h :: "'k cell list"
  assumes "view_pool h pool = Some (v, A)" "distinct A" "a \<notin> set A"
    and "peek pools_slot h a = Some (pre @ (name, pool) # rest)" "name \<notin> set (map fst pre)"
  obtains pool' h1 B where
    "\<And>k :: ('k cell, auth_ref_error + string) mem. bindS (fill_ref_mem ref pool) (\<lambda>pool'. bindS (load pools_slot a) (\<lambda>m.
        bindS (store pools_slot a (AList.update name pool' m)) (\<lambda>_. k))) h = k h1"
    "touches (insert a (set A)) h h1" "peek pools_slot h1 a = Some ((pre @ [(name, pool')]) @ rest)"
    "view_pool h1 pool' = Some (with_ref ref v, B)" "owned (set A) h h1 B"
proof -
  obtain pool' h1 B where r: "each_item pools_slot AList.update (fill_ref_mem ref) a [(name, pool)] h = (Inr (), h1)"
    "touches (insert a (set A)) h h1" "peek pools_slot h1 a = Some (AList.update name pool' (pre @ (name, pool) # rest))"
    "view_pool h1 pool' = Some (with_ref ref v, B)" "owned (set A) h h1 B"
    by (rule fill.each_item_one [OF _ assms(4,3,1), where upd = AList.update and i = name and ref = ref])
      (use assms(2) that in auto)
  have "bindS (each_item pools_slot AList.update (fill_ref_mem ref) a [(name, pool)]) (\<lambda>_. k) h = k h1"
    for k :: "('k cell, auth_ref_error + string) mem"
    using r(1) by (simp add: bindS_ok)
  with that [of h1 pool' B] r assms(5) show ?thesis by (simp add: update_middle bindS_assoc)
qed

lemma with_ref_Some:
  "pl_AuthQuery v = Some a \<Longrightarrow> with_ref ref v = v\<lparr>pl_AuthQuery := Some (a\<lparr>aq_PasswordSecretRef := Some ref\<rparr>)\<rparr>"
  by (simp add: with_ref_def)

lemma refs_loop_done:
  assumes "view_list view_pool h (map snd rest) = Some (vs, A)" "distinct A" "a \<notin> set A"
    and "peek pools_slot h a = Some (pre @ rest)" "wf_map (pre @ rest)"
  shows "refs_done A a pre (map fst rest) h (default_refs ref user (zip (map fst rest) vs)) (refs_loop ref a user rest h)"
  using assms
proof (induction rest arbitrary: h vs A pre user)
  case Nil
  then show ?case by (simp add: refs_done_Nil)
next
  case (Cons e rest)
  obtain name pool where e: "e = (name, pool)" by (cases e)
  from Cons.prems(1) e obtain v ws A1 A2 where v: "view_pool h pool = Some (v, A1)"
    "view_list view_pool h (map snd rest) = Some (ws, A2)" and vA: "vs = v # ws" "A = A1 @ A2" by auto
  have b: "a < length h" "set (A1 @ A2) \<subseteq> {..<length h}" and name: "name \<notin> set (map fst pre)"
    using peek_bound [OF Cons.prems(4)] pool.view_bounded [OF v(1)] viewer.view_bounded [OF pool.elems v(2)]
      Cons.prems(5) e by (auto simp: wf_map_def)
  have own1: "owned (set A1) h h A1" using Cons.prems(2) vA by (auto simp: owned_def)
  have skip: "refs_done A a pre (map fst (e # rest)) h
      (and_then (default_refs ref user (zip (map fst rest) ws)) (\<lambda>(ps, u). Inr ((name, v) # ps, u)))
      (refs_loop ref a user rest h)"
    using refs_done_Cons [OF Cons.IH [OF v(2), of "pre @ [(name, pool)]" user] v(1) own1 touches_refl] Cons.prems vA b e
    by simp
  show ?case
  proof (cases "mp_AuthQuery pool")
    case None
    with skip view_pool_auth(1) [OF v(1)] show ?thesis by (simp add: e vA default_refs.simps)
  next
    case (Some q)
    from view_pool_auth(2) [OF v(1) Some] obtain aq x where aq: "peek auth_slot h q = Some aq" "pl_AuthQuery v = Some x"
      "aq_User x = mq_User aq" "aq_PasswordSecretRef x = None \<longleftrightarrow> mq_PasswordSecretRef aq = None" by auto
    consider (has) "mq_PasswordSecretRef aq \<noteq> None"
      | (conflict) "mq_PasswordSecretRef aq = None" "user \<noteq> [] \<and> mq_User aq \<noteq> user"
      | (fill) "mq_PasswordSecretRef aq = None" "\<not> (user \<noteq> [] \<and> mq_User aq \<noteq> user)" by blast
    then show ?thesis
    proof cases
      case has
      with skip Some aq show ?thesis by (simp add: e vA load_bind default_refs.simps)
    next
      case conflict
      with Some aq show ?thesis by (simp add: e vA load_bind refs_done_def default_refs.simps)
    next
      case fill
      have prems: "distinct A1" "a \<notin> set A1" "peek pools_slot h a = Some (pre @ (name, pool) # rest)"
        using Cons.prems vA e by simp_all
      obtain pool' h1 B where r:
        "\<And>k :: ('a cell, auth_ref_error + string) mem. bindS (fill_ref_mem ref pool) (\<lambda>pool'. bindS (load pools_slot a) (\<lambda>m.
            bindS (store pools_slot a (AList.update name pool' m)) (\<lambda>_. k))) h = k h1"
        "touches (insert a (set A1)) h h1" "peek pools_slot h1 a = Some ((pre @ [(name, pool')]) @ rest)"
        "view_pool h1 pool' = Some (with_ref ref v, B)" "owned (set A1) h h1 B"
        by (rule fill_entry [OF v(1) prems name, where ref = ref]) (rule that)
      have "view_list view_pool h1 (map snd rest) = Some (ws, A2)"
        by (rule viewer.view_local [OF pool.elems v(2) touches_agree [OF r(2)]]) (use Cons.prems(2,3) vA in auto)
      from Cons.IH [OF this _ _ r(3), of "mq_User aq"] Cons.prems vA e
      have "refs_done A2 a (pre @ [(name, pool')]) (map fst rest) h1
          (default_refs ref (mq_User aq) (zip (map fst rest) ws)) (refs_loop ref a (mq_User aq) rest h1)"
        by (simp add: wf_map_def)
      from refs_done_Cons [OF this r(4,5,2)] Cons.prems vA b
      have "refs_done (A1 @ A2) a pre (name # map fst rest) h
          (and_then (default_refs ref (mq_User aq) (zip (map fst rest) ws)) (\<lambda>(ps, u). Inr ((name, with_ref ref v) # ps, u)))
          (refs_loop ref a (mq_User aq) rest h1)" by simp
      with fill aq Some r(1) show ?thesis
        by (auto simp: e vA load_bind with_ref_Some default_refs.simps)
    qed
  qed
qed

section \<open>Both functions on the caller's spec\<close>

text \<open>The first two lines of \<open>Generate\<close>. \<open>ApplyDefaults\<close> dereferences its argument, so a nil spec panics.\<close>

definition Generate_applied :: "addr option \<Rightarrow> ('k cell, addr) mem" where
  "Generate_applied spec =
     bindS (PgDoormanSpec_DeepCopy spec) (\<lambda>p. case p of None \<Rightarrow> throwS BadPointer | Some applied \<Rightarrow> ApplyDefaults_mem applied)"

lemma spec_copied:
  assumes "view_at spec_slot view_spec h p = Some (s, A)"
  obtains q h1 B where "PgDoormanSpec_DeepCopy (Some p) h = (Inr (Some q), h1)" "prefix h h1"
    "view_at spec_slot view_spec h1 q = Some (s, B)" "distinct B" "set B \<subseteq> {length h..<length h1}"
proof -
  from spec.copy_new_runs [OF _ assms, of spec_zero] obtain h1 B where
    "copy_new spec_slot spec_zero PgDoormanSpec_DeepCopyInto p h = (Inr (length h), h1)" "touches {} h h1"
    "view_at spec_slot view_spec h1 (length h) = Some (s, B)" "owned {} h h1 B" by auto
  then show ?thesis
    by (intro that [of "length h" h1 B])
      (simp_all add: PgDoormanSpec_DeepCopy_def copy_ptr_def bindS_ok touches_prefix owned_def del: view_at_Some)
qed

lemma prefix_touches: "prefix h h1 \<Longrightarrow> touches X h1 h2 \<Longrightarrow> X \<inter> {..<length h} = {} \<Longrightarrow> prefix h h2"
  unfolding touches_prefix [symmetric] by (rule touches_trans) auto

lemma view_prefix:
  "view_at spec_slot view_spec h p = Some (s, A) \<Longrightarrow> prefix h h' \<Longrightarrow> view_at spec_slot view_spec h' p = Some (s, A)"
  using viewer.view_local [OF spec.at] touches_agree [of "{}" h h' "set A"] by (simp add: touches_prefix)

text \<open>(C18) Rendering works on a copy. For a spec in memory, with any sharing among its pointers, \<open>Generate\<close> gets a spec that
  reads as \<open>ApplyDefaults\<close> of the caller's value; no cell that existed is written, the caller's spec reads as before, and the two have
  no cell in common: the defaults never reach the object in the informer cache.\<close>

theorem Generate_applied_refines:
  assumes "view_at spec_slot view_spec h p = Some (s, A)"
  shows "\<exists>q h' B. Generate_applied (Some p) h = (Inr q, h') \<and> prefix h h' \<and>
    view_at spec_slot view_spec h' q = Some (ApplyDefaults s, B) \<and>
    view_at spec_slot view_spec h' p = Some (s, A) \<and> set A \<inter> set B = {}"
proof -
  from spec_copied [OF assms] obtain q h1 B where c: "PgDoormanSpec_DeepCopy (Some p) h = (Inr (Some q), h1)" "prefix h h1"
    "view_at spec_slot view_spec h1 q = Some (s, B)" "distinct B" "set B \<subseteq> {length h..<length h1}" .
  from mutator.mutates [OF spec_default.at_mutator c(3,4)] obtain q' h' B' where m:
    "ApplyDefaults_mem q h1 = (Inr q', h')" "touches (set B) h1 h'"
    "view_at spec_slot view_spec h' q' = Some (ApplyDefaults s, B')" "owned (set B) h1 h' B'"
    by (auto simp: ApplyDefaults_mem_def simp del: view_at_Some)
  have l: "length h \<le> length h1" using c(2) by (rule prefix_length_le)
  have "prefix h h'" by (rule prefix_touches [OF c(2) m(2)]) (use c(5) in auto)
  moreover have "set A \<inter> set B' = {}"
    using viewer.view_bounded [OF spec.at assms] m(4) c(5) l by (fastforce simp: owned_def)
  ultimately show ?thesis
    using c(1) m(1,3) view_prefix [OF assms]
    by (intro exI [of _ q'] exI [of _ h'] exI [of _ B']) (simp add: Generate_applied_def bindS_ok del: view_at_Some)
qed

lemma view_spec_pools:
  assumes "view_spec h x = Some (s, B)" "md_Pools x = Some a"
  obtains m vs A G where "peek pools_slot h a = Some m" "wf_map m" "view_list view_pool h (map snd m) = Some (vs, A)"
    "ds_Pools s = zip (map fst m) vs" "B = a # A @ G"
    "\<And>h' m' ws C. peek pools_slot h' a = Some m' \<Longrightarrow> wf_map m' \<Longrightarrow>
       view_list view_pool h' (map snd m') = Some (ws, C) \<Longrightarrow> agree (set G) h h' \<Longrightarrow>
       view_spec h' x = Some (s\<lparr>ds_Pools := zip (map fst m') ws\<rparr>, a # C @ G)"
proof -
  let ?rest = "view_pair (view_ptr general_slot view_general) (view_ptr prometheus_slot view_prometheus)"
  from assms obtain pools g r P G where v: "view_map pools_slot view_pool h (Some a) = Some (pools, P)"
    "?rest h (md_General x, md_Prometheus x) = Some ((g, r), G)" "B = P @ G"
    and s: "s = \<lparr>ds_ClusterRef = md_ClusterRef x, ds_Pools = or_empty pools, ds_General = g, ds_Prometheus = r\<rparr>"
    unfolding view_spec_def view_pair_def [of "view_map _ _"] by (auto simp: view_map_def)
  from v(1) obtain m vs A where m: "peek pools_slot h a = Some m" "wf_map m" "view_list view_pool h (map snd m) = Some (vs, A)"
    and P: "pools = Some (zip (map fst m) vs)" "P = a # A"
    by (auto simp: view_map_def view_entries_def split: if_splits)
  have rest: "viewer ?rest"
    by (intro viewer.pair viewer.ptr general.viewer_axioms prometheus.viewer_axioms)
  show ?thesis
  proof (rule that [OF m, of G])
    fix h' m' ws C
    assume h': "peek pools_slot h' a = Some m'" "wf_map m'" "view_list view_pool h' (map snd m') = Some (ws, C)"
      and "agree (set G) h h'"
    have "view_map pools_slot view_pool h' (Some a) = Some (Some (zip (map fst m') ws), a # C)"
      using h' by (simp add: view_map_def view_entries_def)
    with viewer.view_local [OF rest v(2) \<open>agree (set G) h h'\<close>] assms(2)
    show "view_spec h' x = Some (s\<lparr>ds_Pools := zip (map fst m') ws\<rparr>, a # C @ G)"
      unfolding view_spec_def view_pair_def [of "view_map _ _"] by (simp add: s or_empty_def)
  qed (simp_all add: s P v(3) or_empty_def)
qed

lemma refs_done_view:
  assumes d: "refs_done A a [] (map fst m) h (Inr (ps, u)) run" and "wf_map m" "agree (set G) h (snd run)"
    and dis: "distinct (a # A @ G)" "set (a # A @ G) \<subseteq> {..<length h}"
    and reread: "\<And>h' m' ws C. peek pools_slot h' a = Some m' \<Longrightarrow> wf_map m' \<Longrightarrow>
       view_list view_pool h' (map snd m') = Some (ws, C) \<Longrightarrow> agree (set G) h h' \<Longrightarrow>
       view_spec h' x = Some (s\<lparr>ds_Pools := zip (map fst m') ws\<rparr>, a # C @ G)"
  shows "\<exists>C. view_spec (snd run) x = Some (s\<lparr>ds_Pools := ps\<rparr>, C) \<and> owned (set (a # A @ G)) h (snd run) C"
proof -
  from d obtain m' C where m': "peek pools_slot (snd run) a = Some m'" "map fst m' = map fst m" "map fst ps = map fst m"
    "view_list view_pool (snd run) (map snd m') = Some (map snd ps, C)" "owned (set A) h (snd run) C"
    by (auto simp: refs_done_def)
  have "zip (map fst m') (map snd ps) = ps" using m'(2,3) by (metis zip_map_fst_snd)
  with reread [OF m'(1) _ m'(4) assms(3)] m'(2) assms(2)
  have "view_spec (snd run) x = Some (s\<lparr>ds_Pools := ps\<rparr>, a # C @ G)" by (simp add: wf_map_def)
  moreover have "owned (set (a # A @ G)) h (snd run) (a # C @ G)"
    using m'(5) dis by (fastforce simp: owned_def)
  ultimately show ?thesis by blast
qed

lemma normalize_copy:
  assumes "view_at spec_slot view_spec h q = Some (s, B)" "distinct B"
  shows "\<exists>run. normalize_pools q h = run \<and> touches (set B) h (snd run) \<and>
    (case DefaultAuthSecretRefs s of
       Inl e \<Rightarrow> fst run = Inr (Inl e)
     | Inr (n, user) \<Rightarrow> fst run = Inr (Inr user) \<and>
         (\<exists>C. view_at spec_slot view_spec (snd run) q = Some (n, C) \<and> owned (set B) h (snd run) C))"
proof -
  from assms(1) obtain x B' where x: "peek spec_slot h q = Some x" "view_spec h x = Some (s, B')" "B = q # B'" by auto
  have cr: "ds_ClusterRef s = md_ClusterRef x" using x(2) by (auto simp: view_spec_def)
  show ?thesis
  proof (cases "md_Pools x")
    case None
    then have "ds_Pools s = []" using x(2) by (auto simp: view_spec_def view_pair_def view_map_def or_empty_def)
    then have "DefaultAuthSecretRefs s = Inr (s, [])" by (simp add: DefaultAuthSecretRefs_def)
    with None x assms(2) show ?thesis by (auto simp: normalize_pools_def load_bind owned_def)
  next
    case (Some a)
    from view_spec_pools [OF x(2) Some] obtain m vs A G where m: "peek pools_slot h a = Some m" "wf_map m"
      "view_list view_pool h (map snd m) = Some (vs, A)" "ds_Pools s = zip (map fst m) vs" "B' = a # A @ G"
      and reread: "\<And>h' m' ws C. peek pools_slot h' a = Some m' \<Longrightarrow> wf_map m' \<Longrightarrow>
       view_list view_pool h' (map snd m') = Some (ws, C) \<Longrightarrow> agree (set G) h h' \<Longrightarrow>
       view_spec h' x = Some (s\<lparr>ds_Pools := zip (map fst m') ws\<rparr>, a # C @ G)" by blast
    let ?ref = "generated_ref (ds_ClusterRef s)" and ?run = "normalize_pools q h"
    have run: "?run = refs_loop ?ref a [] m h" using x(1) Some m(1) by (simp add: normalize_pools_def load_bind cr)
    have dis: "distinct A" "a \<notin> set A" "distinct (q # a # A @ G)" using assms(2) x(3) m(5) by auto
    have bound: "set B \<subseteq> {..<length h}" using viewer.view_bounded [OF spec.at assms(1)] .
    from refs_loop_done [OF m(3) dis(1,2), of "[]" ?ref "[]"] m(1,2,4) run
    have d: "refs_done A a [] (map fst m) h (default_refs ?ref [] (ds_Pools s)) ?run" by simp
    then have t: "touches (insert a (set A)) h (snd ?run)" by (simp add: refs_done_def)
    have tB: "touches (set B) h (snd ?run)"
      by (rule touches_trans [OF t touches_refl [of "{}"]]) (auto simp: x(3) m(5))
    have q: "peek spec_slot (snd ?run) q = Some x"
      by (rule peek_agree [OF x(1) touches_agree [OF t], of "{q}"]) (use dis(3) in auto)
    have G: "agree (set G) h (snd ?run)" by (rule touches_agree [OF t]) (use dis(3) in auto)
    have "\<exists>C. view_at spec_slot view_spec (snd ?run) q = Some (s\<lparr>ds_Pools := ps\<rparr>, C) \<and> owned (set B) h (snd ?run) C"
      if ps: "default_refs ?ref [] (ds_Pools s) = Inr (ps, u)" for ps u
    proof -
      have "\<exists>C. view_spec (snd ?run) x = Some (s\<lparr>ds_Pools := ps\<rparr>, C) \<and> owned (set (a # A @ G)) h (snd ?run) C"
        by (rule refs_done_view [OF d [unfolded ps] m(2) G _ _ reread]) (use dis(3) bound x(3) m(5) in auto)
      with q bound dis(3) x(3) m(5) show ?thesis by (fastforce simp: owned_def)
    qed
    with d tB show ?thesis
      by (auto simp: DefaultAuthSecretRefs_def refs_done_def simp del: view_at_Some split: sum.splits)
  qed
qed

text \<open>(C19) Normalizing works on a copy. In memory \<open>DefaultAuthSecretRefs\<close> gives the verdict of its value-level version: the same
  error, or the same user with a spec that reads as the normalized value. In both cases no cell that existed is written, so the references
  to the generated Secret are not seen in the caller's spec.\<close>

theorem DefaultAuthSecretRefs_refines:
  assumes "view_at spec_slot view_spec h p = Some (s, A)"
  shows "case DefaultAuthSecretRefs s of
      Inl e \<Rightarrow> \<exists>h'. DefaultAuthSecretRefs_mem (Some p) h = (Inr (Inl e), h') \<and> prefix h h'
    | Inr (n, user) \<Rightarrow> \<exists>q h' B. DefaultAuthSecretRefs_mem (Some p) h = (Inr (Inr (q, user)), h') \<and> prefix h h' \<and>
        view_at spec_slot view_spec h' q = Some (n, B) \<and> view_at spec_slot view_spec h' p = Some (s, A) \<and>
        set A \<inter> set B = {}"
proof -
  from spec_copied [OF assms] obtain q h1 B where c: "PgDoormanSpec_DeepCopy (Some p) h = (Inr (Some q), h1)" "prefix h h1"
    "view_at spec_slot view_spec h1 q = Some (s, B)" "distinct B" "set B \<subseteq> {length h..<length h1}" .
  from normalize_copy [OF c(3,4)] obtain run where
    n: "normalize_pools q h1 = run" "touches (set B) h1 (snd run)" "case DefaultAuthSecretRefs s of
        Inl e \<Rightarrow> fst run = Inr (Inl e)
      | Inr (n, user) \<Rightarrow> fst run = Inr (Inr user) \<and>
          (\<exists>C. view_at spec_slot view_spec (snd run) q = Some (n, C) \<and> owned (set B) h1 (snd run) C)" by blast
  have run: "DefaultAuthSecretRefs_mem (Some p) h = bindS (normalize_pools q) (\<lambda>r. retS (and_then r (\<lambda>u. Inr (q, u)))) h1"
    using c(1) by (simp add: DefaultAuthSecretRefs_mem_def bindS_ok)
  have pre: "prefix h (snd run)" by (rule prefix_touches [OF c(2) n(2)]) (use c(5) in auto)
  have l: "length h \<le> length h1" using c(2) by (rule prefix_length_le)
  have dis: "set A \<inter> set C = {}" if "owned (set B) h1 (snd run) C" for C
    using viewer.view_bounded [OF spec.at assms] that c(5) l by (fastforce simp: owned_def)
  show ?thesis
    using n(1,3) pre dis view_prefix [OF assms pre]
    by (cases run) (auto simp: run bindS_ok simp del: view_at_Some split: sum.splits)
qed

section \<open>Instances\<close>

text \<open>Two pools share one auth query; a nil map of users and an array of two.\<close>

definition shared_auth :: AuthQuerySpec_mem where
  "shared_auth = \<lparr>mq_User = ''doorman'', mq_Query = [], mq_PasswordSecretRef = None, mq_Database = [], mq_PoolSize = None\<rparr>"

definition example_memory :: "string cell list" where
  "example_memory =
     [CAuthQuery shared_auth, CInt 7,
      CUsers [\<lparr>mu_Username = ''a'', mu_PasswordSecretRef = key_zero, mu_PoolSize = None\<rparr>,
              \<lparr>mu_Username = ''b'', mu_PasswordSecretRef = key_zero, mu_PoolSize = Some 1\<rparr>],
      CPools [(''p'', \<lparr>mp_PoolMode = [], mp_DefaultPoolSize = Some 1, mp_AuthQuery = Some 0, mp_Users = Some 2\<rparr>),
              (''q'', \<lparr>mp_PoolMode = ''session'', mp_DefaultPoolSize = None, mp_AuthQuery = Some 0, mp_Users = None\<rparr>)],
      CSpec \<lparr>md_ClusterRef = ''pg'', md_Pools = Some 3, md_General = None, md_Prometheus = None\<rparr>]"

definition example_value :: PgDoormanSpec where
  "example_value = fst (the (view_at spec_slot view_spec example_memory 4))"

lemma example_view: "view_at spec_slot view_spec example_memory 4 = Some (example_value, [4, 3, 1, 0, 2, 1, 0])"
  unfolding example_value_def by code_simp

theorem Generate_applied_witness:
  "\<exists>q h' B. Generate_applied (Some 4) example_memory = (Inr q, h') \<and> prefix example_memory h' \<and>
    view_at spec_slot view_spec h' q = Some (ApplyDefaults example_value, B) \<and>
    view_at spec_slot view_spec h' 4 = Some (example_value, [4, 3, 1, 0, 2, 1, 0])"
  using Generate_applied_refines [OF example_view] by blast

theorem DefaultAuthSecretRefs_refines_witness:
  "\<exists>n q h' B. DefaultAuthSecretRefs example_value = Inr (n, ''doorman'') \<and>
    DefaultAuthSecretRefs_mem (Some 4) example_memory = (Inr (Inr (q, ''doorman'')), h') \<and>
    view_at spec_slot view_spec h' q = Some (n, B) \<and>
    view_at spec_slot view_spec h' 4 = Some (example_value, [4, 3, 1, 0, 2, 1, 0])"
proof -
  have "map_sum id snd (DefaultAuthSecretRefs example_value) = Inr ''doorman''"
    unfolding example_value_def by code_simp
  then obtain n where "DefaultAuthSecretRefs example_value = Inr (n, ''doorman'')"
    by (cases "DefaultAuthSecretRefs example_value") auto
  with DefaultAuthSecretRefs_refines [OF example_view] show ?thesis by auto
qed

text \<open>Why it has to be a deep copy: after \<open>*out = *in\<close> alone, the defaults are seen in the original, in the map of pools, the shared auth
  query and the array of users.\<close>

lemma shallow_copy_leaks:
  "map_option (\<lambda>(s, _). map (\<lambda>(n, p). (pl_PoolMode p, map_option aq_Database (pl_AuthQuery p), map us_PoolSize (pl_Users p))) (ds_Pools s))
     (view_at spec_slot view_spec (snd (bindS (load spec_slot 4) (\<lambda>x. bindS (new spec_slot x) ApplyDefaults_mem) example_memory)) 4) =
   Some [(''transaction'', Some ''postgres'', [Some 20, Some 7]), (''session'', Some ''postgres'', [])]"
  by code_simp

end
