(* ===== verification/Object_Kind.thy ===== *)
theory Object_Kind
  imports Prelude
begin

text \<open>
  The kind of a serialized object: \<open>internal/utils/utils.go\<close>. Parsing the text is a parameter; what \<open>json.Unmarshal\<close> does
  with the parsed value for a structure with the one field \<open>kind\<close> is written out: names are compared after folding the case
  (the Kelvin sign folds to the letter K), a later member overrides an earlier one, null changes nothing, and a value of another type is an
  error that does not stop the decoding.
\<close>

datatype json = JNull | JBool bool | JNumber string | JString string | JArray "json list" | JObject "(string \<times> json) list"

datatype unmarshal_error = JsonSyntax string | JsonType

text \<open>The Kelvin sign in UTF-8.\<close>

definition kelvin :: string where
  "kelvin = map char_of [226, 132, 170 :: nat]"

definition fold_char :: "char \<Rightarrow> char" where
  "fold_char c = (if 97 \<le> (of_char c :: nat) \<and> (of_char c :: nat) \<le> 122 then char_of ((of_char c :: nat) - 32) else c)"

fun foldName :: "string \<Rightarrow> string" where
  "foldName [] = []"
| "foldName (c # cs) = (if take 3 (c # cs) = kelvin then CHR ''K'' # foldName (drop 2 cs) else fold_char c # foldName cs)"

definition kind_name :: "string \<Rightarrow> bool" where
  "kind_name name \<longleftrightarrow> foldName name = foldName ''kind''"

text \<open>One member of the object: the field and whether an error was saved.\<close>

definition set_member :: "string \<times> json \<Rightarrow> string \<times> bool \<Rightarrow> string \<times> bool" where
  "set_member m st =
     (if \<not> kind_name (fst m) then st
      else (case snd m of JString v \<Rightarrow> (v, snd st) | JNull \<Rightarrow> st | _ \<Rightarrow> (fst st, True)))"

definition unmarshal_kind :: "json \<Rightarrow> unmarshal_error + string" where
  "unmarshal_kind j =
     (case j of
        JNull \<Rightarrow> Inr []
      | JObject ms \<Rightarrow> (case fold set_member ms ([], False) of (kind, failed) \<Rightarrow> if failed then Inl JsonType else Inr kind)
      | _ \<Rightarrow> Inl JsonType)"

definition GetKind :: "(string \<Rightarrow> string + json) \<Rightarrow> string \<Rightarrow> unmarshal_error + string" where
  "GetKind parse definition = (case parse definition of Inl e \<Rightarrow> Inl (JsonSyntax e) | Inr j \<Rightarrow> unmarshal_kind j)"

lemma fold_set_member:
  "\<forall>m \<in> set ms. kind_name (fst m) \<longrightarrow> (\<exists>v. snd m = JString v) \<Longrightarrow>
   fold set_member ms st =
     (case filter (kind_name \<circ> fst) (rev ms) of [] \<Rightarrow> fst st | m # _ \<Rightarrow> (case snd m of JString v \<Rightarrow> v | _ \<Rightarrow> []), snd st)"
proof (induction ms rule: rev_induct)
  case (snoc m ms)
  then show ?case by (auto simp: set_member_def)
qed simp

text \<open>The kind of a manifest with string members is its last member with that name in any case, and empty without one.\<close>

lemma GetKind_last:
  assumes "parse definition = Inr (JObject ms)" "\<forall>m \<in> set ms. kind_name (fst m) \<longrightarrow> (\<exists>v. snd m = JString v)"
  shows "GetKind parse definition =
    Inr (case filter (kind_name \<circ> fst) (rev ms) of [] \<Rightarrow> [] | m # _ \<Rightarrow> (case snd m of JString v \<Rightarrow> v | _ \<Rightarrow> []))"
  using assms by (simp add: GetKind_def unmarshal_kind_def fold_set_member split: list.split)

text \<open>So a member with another spelling decides.\<close>

lemma GetKind_spelling:
  "unmarshal_kind (JObject [(''kind'', JString ''Pod''), (''KinD'', JString ''Cluster'')]) = Inr ''Cluster''"
  "unmarshal_kind (JObject [(''kind'', JString ''Pod''), (kelvin @ ''ind'', JString ''Cluster'')]) = Inr ''Cluster''"
  "unmarshal_kind (JObject [(''kind'', JString ''Pod''), (''kind'', JNull)]) = Inr ''Pod''"
  "unmarshal_kind (JObject [(''kind'', JBool True), (''kind'', JString ''Pod'')]) = Inl JsonType"
  by code_simp+

end
